(* ===== verification/Prelude.thy ===== *)
theory Prelude
  imports Main "HOL-Library.Word" "HOL-Library.Multiset" "HOL-Library.State_Monad"
begin

unbundle bit_operations_syntax

text \<open>
  Shared ground of the development: the machine integers of the C++ code, the effect type of the
  translated functions, and the rules that carry the component proofs.

  A function of the program that calls code outside the repository (a vendor gralloc module, the
  HIDL runtime, the kernel) becomes an action of \<^typ>\<open>('s, 'a) state\<close>. Outside code answers
  through a reply function of everything that was called before, so no assumption is made
  about its internal state; each call is appended to a trace, which is what the protocol properties
  are stated about.
\<close>

section \<open>Machine integers\<close>

type_synonym u8 = "8 word"
type_synonym u16 = "16 word"
type_synonym u32 = "32 word"
type_synonym u64 = "64 word"
type_synonym i32 = "32 word"   \<comment> \<open>read with \<open>sint\<close>\<close>

section \<open>Effects\<close>

abbreviation return :: "'a \<Rightarrow> ('s, 'a) state" where
  "return \<equiv> State_Monad.return"

text \<open>One call across the boundary: the reply depends on the trace so far, and the call with its
  reply is appended to the trace.\<close>

definition call :: "('e list \<Rightarrow> 'r) \<Rightarrow> ('r \<Rightarrow> 'e) \<Rightarrow> ('e list, 'r) state" where
  "call reply ev = State (\<lambda>tr. (reply tr, tr @ [ev (reply tr)]))"

text \<open>An action emits only calls that satisfy \<open>P\<close>, and never rewrites the trace behind it.\<close>

definition extends_by :: "('e \<Rightarrow> bool) \<Rightarrow> 'e list \<Rightarrow> 'e list \<Rightarrow> bool" where
  "extends_by P tr tr' \<longleftrightarrow> (\<exists>new. tr' = tr @ new \<and> list_all P new)"

definition emits :: "('e \<Rightarrow> bool) \<Rightarrow> ('e list, 'a) state \<Rightarrow> bool" where
  "emits P m \<longleftrightarrow> (\<forall>tr. extends_by P tr (snd (run_state m tr)))"

text \<open>A monitor reads a trace event by event and rejects it at the first event its step refuses.\<close>

primrec monitor :: "('e \<Rightarrow> 'm \<Rightarrow> 'm option) \<Rightarrow> 'm \<Rightarrow> 'e list \<Rightarrow> 'm option" where
  "monitor step m [] = Some m"
| "monitor step m (e # es) = (case step e m of None \<Rightarrow> None | Some m' \<Rightarrow> monitor step m' es)"

text \<open>Code that may end the process: \<open>Inl\<close> is the end, and nothing after it runs. \<open>gets\<close> and \<open>modify\<close>
  read and write global variables.\<close>

definition bindE :: "('s, 'x + 'a) state \<Rightarrow> ('a \<Rightarrow> ('s, 'x + 'b) state) \<Rightarrow> ('s, 'x + 'b) state" where
  "bindE m f = do { r \<leftarrow> m; case r of Inl x \<Rightarrow> return (Inl x) | Inr a \<Rightarrow> f a }"

abbreviation returnOk :: "'a \<Rightarrow> ('s, 'x + 'a) state" where
  "returnOk a \<equiv> return (Inr a)"

definition gets :: "('s \<Rightarrow> 'a) \<Rightarrow> ('s, 'a) state" where
  "gets f = State (\<lambda>s. (f s, s))"

definition modify :: "('s \<Rightarrow> 's) \<Rightarrow> ('s, unit) state" where
  "modify f = State (\<lambda>s. ((), f s))"

text \<open>Partial correctness of a stateful action (all actions terminate), and invariance.\<close>

definition hoare :: "('s \<Rightarrow> bool) \<Rightarrow> ('s, 'a) state \<Rightarrow> ('a \<Rightarrow> 's \<Rightarrow> bool) \<Rightarrow> bool" where
  "hoare P m Q \<longleftrightarrow> (\<forall>s. P s \<longrightarrow> (case run_state m s of (r, s') \<Rightarrow> Q r s'))"

definition keeps :: "('s \<Rightarrow> bool) \<Rightarrow> ('s, 'a) state \<Rightarrow> bool" where
  "keeps I m \<longleftrightarrow> hoare I m (\<lambda>_. I)"

section \<open>C++ containers and strings\<close>

text \<open>\<open>std::vector::resize\<close>; a callee writing through a pointer into a buffer of fixed size; and the
  text a \<open>const char*\<close> denotes.\<close>

definition vec_resize :: "'a \<Rightarrow> nat \<Rightarrow> 'a list \<Rightarrow> 'a list" where
  "vec_resize x n xs = take n xs @ replicate (n - length xs) x"

definition overwrite :: "'a list \<Rightarrow> 'a list \<Rightarrow> 'a list" where
  "overwrite buf written = take (length buf) written @ drop (length written) buf"

text \<open>The same, for a callee that may write past the end of the buffer: \<open>None\<close> if it does.\<close>

definition write_within :: "'a list \<Rightarrow> 'a list \<Rightarrow> 'a list option" where
  "write_within buf written = (if length written \<le> length buf then Some (overwrite buf written) else None)"

definition NUL :: char where
  "NUL = CHR 0x00"

definition c_str :: "string \<Rightarrow> string" where
  "c_str buf = takeWhile (\<lambda>c. c \<noteq> NUL) buf"

section \<open>Lemmas\<close>

named_theorems emits_rules \<open>compositional rules for the calls an action may make\<close>

lemma run_state_call [simp]:
  "run_state (call reply ev) tr = (reply tr, tr @ [ev (reply tr)])"
  by (simp add: call_def)

lemma length_vec_resize [simp]: "length (vec_resize x n xs) = n"
  by (simp add: vec_resize_def)

lemma vec_resize_same [simp]: "n = length xs \<Longrightarrow> vec_resize x n xs = xs"
  by (simp add: vec_resize_def)

lemma length_overwrite [simp]: "length (overwrite buf w) = length buf"
  by (simp add: overwrite_def)

lemma c_str_no_NUL: "NUL \<notin> set (c_str buf)"
  by (auto simp: c_str_def dest: set_takeWhileD)

lemma c_str_update: "n < length buf \<Longrightarrow> c_str (buf[n := NUL]) = c_str (take n buf)"
  by (simp add: c_str_def upd_conv_take_nth_drop takeWhile_tail)

lemma length_c_str: "length (c_str buf) \<le> length buf"
  by (simp add: c_str_def length_takeWhile_le)

lemma c_str_take: "length (c_str (take n buf)) \<le> n"
  by (rule order_trans [OF length_c_str]) simp

lemma bit_u64_less: "bit (x :: u64) n \<Longrightarrow> n < 64"
  using bit_imp_le_length [of x n] by simp

lemma run_state_obtain1: obtains x s' where "run_state m s = (x, s')"
  by (rule prod.exhaust)

lemma run_state_obtain2: obtains x y s' where "run_state m s = ((x, y), s')"
  by (cases "run_state m s") auto

lemma run_state_obtain3: obtains x y z s' where "run_state m s = ((x, y, z), s')"
  by (cases "run_state m s") auto

lemma run_state_if: "run_state (if b then m else n) s = (if b then run_state m s else run_state n s)"
  by simp

lemma extends_by_refl [simp, intro]: "extends_by P tr tr"
  by (simp add: extends_by_def)

lemma extends_by_snoc [intro]: "P e \<Longrightarrow> extends_by P tr (tr @ [e])"
  by (simp add: extends_by_def)

lemma extends_by_trans: "extends_by P a b \<Longrightarrow> extends_by P b c \<Longrightarrow> extends_by P a c"
  by (auto simp: extends_by_def)

lemma extends_by_mono: "extends_by P a b \<Longrightarrow> (\<And>e. P e \<Longrightarrow> Q e) \<Longrightarrow> extends_by Q a b"
  by (auto simp: extends_by_def list_all_iff)

lemma emits_return [emits_rules, simp]: "emits P (return x)"
  by (simp add: emits_def)

lemma emits_call [emits_rules]: "(\<And>tr. P (ev (reply tr))) \<Longrightarrow> emits P (call reply ev)"
  by (auto simp: emits_def)

lemma emits_bind [emits_rules]:
  "emits P m \<Longrightarrow> (\<And>x. emits P (f x)) \<Longrightarrow> emits P (m \<bind> f)"
  by (auto simp: emits_def split: prod.split) (metis extends_by_trans snd_conv)

lemma emits_if [emits_rules]:
  "(b \<Longrightarrow> emits P m) \<Longrightarrow> (\<not> b \<Longrightarrow> emits P n) \<Longrightarrow> emits P (if b then m else n)"
  by simp

lemma emits_run: "emits P m \<Longrightarrow> run_state m tr = (r, tr') \<Longrightarrow> extends_by P tr tr'"
  by (metis emits_def snd_conv)

lemma emits_mono: "emits P m \<Longrightarrow> (\<And>e. P e \<Longrightarrow> Q e) \<Longrightarrow> emits Q m"
  unfolding emits_def by (blast intro: extends_by_mono)

lemma monitor_append [simp]:
  "monitor step m (xs @ ys) = Option.bind (monitor step m xs) (\<lambda>m'. monitor step m' ys)"
  by (induction xs arbitrary: m) (auto split: option.split)

lemma monitor_idle:
  "list_all (\<lambda>e. \<forall>m. step e m = Some m) es \<Longrightarrow> monitor step m es = Some m"
  by (induction es) auto

lemma extends_by_idle:
  assumes "extends_by (\<lambda>e. \<forall>m. step e m = Some m) tr tr'"
  shows "monitor step m tr' = monitor step m tr"
proof -
  obtain new where "tr' = tr @ new" "list_all (\<lambda>e. \<forall>m. step e m = Some m) new"
    using assms by (auto simp: extends_by_def)
  then show ?thesis
    by (cases "monitor step m tr") (simp_all add: monitor_idle)
qed

lemma extends_by_idle_at:
  assumes "extends_by (\<lambda>e. step e m = Some m) tr tr'" and "monitor step m0 tr = Some m"
  shows "monitor step m0 tr' = Some m"
proof -
  obtain new where "tr' = tr @ new" "list_all (\<lambda>e. step e m = Some m) new"
    using assms(1) by (auto simp: extends_by_def)
  moreover from this(2) have "monitor step m new = Some m" by (induction new) auto
  ultimately show ?thesis using assms(2) by simp
qed

lemma monitor_prefix: "monitor step m (xs @ ys) = Some m' \<Longrightarrow> \<exists>m''. monitor step m xs = Some m''"
  by (cases "monitor step m xs") simp_all

section \<open>Rules for stateful actions\<close>

named_theorems keeps_rules \<open>compositional rules for invariance\<close>

lemma run_state_gets [simp]: "run_state (gets f) s = (f s, s)"
  by (simp add: gets_def)

lemma run_state_modify [simp]: "run_state (modify f) s = ((), f s)"
  by (simp add: modify_def)

lemma run_state_bindE [simp]:
  "run_state (bindE m f) s =
     (case run_state m s of (Inl x, s') \<Rightarrow> (Inl x, s') | (Inr a, s') \<Rightarrow> run_state (f a) s')"
  by (simp add: bindE_def split: prod.split sum.split)

lemma hoareI: "(\<And>s r s'. P s \<Longrightarrow> run_state m s = (r, s') \<Longrightarrow> Q r s') \<Longrightarrow> hoare P m Q"
  by (auto simp: hoare_def split: prod.split)

lemma hoareD: "hoare P m Q \<Longrightarrow> P s \<Longrightarrow> run_state m s = (r, s') \<Longrightarrow> Q r s'"
  by (auto simp: hoare_def)

lemma hoare_bind: "hoare P m R \<Longrightarrow> (\<And>x. hoare (R x) (f x) Q) \<Longrightarrow> hoare P (m \<bind> f) Q"
  by (fastforce simp: hoare_def split: prod.splits)

lemma hoare_bindE:
  assumes "hoare P m R" and "\<And>x s. R (Inl x) s \<Longrightarrow> Q (Inl x) s"
    and "\<And>a. hoare (R (Inr a)) (f a) Q"
  shows "hoare P (bindE m f) Q"
  unfolding bindE_def
proof (rule hoare_bind [OF assms(1)])
  fix r
  show "hoare (R r) (case r of Inl x \<Rightarrow> return (Inl x) | Inr a \<Rightarrow> f a) Q"
    using assms(2,3) by (cases r) (simp_all add: hoare_def)
qed

lemma hoare_weaken:
  "hoare P m Q \<Longrightarrow> (\<And>s. P' s \<Longrightarrow> P s) \<Longrightarrow> (\<And>r s. Q r s \<Longrightarrow> Q' r s) \<Longrightarrow> hoare P' m Q'"
  by (fastforce simp: hoare_def split: prod.splits)

lemma keepsI: "(\<And>s r s'. I s \<Longrightarrow> run_state m s = (r, s') \<Longrightarrow> I s') \<Longrightarrow> keeps I m"
  unfolding keeps_def by (rule hoareI)

lemma keepsD: "keeps I m \<Longrightarrow> I s \<Longrightarrow> run_state m s = (r, s') \<Longrightarrow> I s'"
  unfolding keeps_def by (rule hoareD)

lemma keeps_return [keeps_rules, simp]: "keeps I (return x)"
  by (simp add: keeps_def hoare_def)

lemma keeps_gets [keeps_rules, simp]: "keeps I (gets f)"
  by (simp add: keeps_def hoare_def)

lemma keeps_modify [keeps_rules]: "(\<And>s. I s \<Longrightarrow> I (f s)) \<Longrightarrow> keeps I (modify f)"
  by (simp add: keeps_def hoare_def)

lemma keeps_bind [keeps_rules]: "keeps I m \<Longrightarrow> (\<And>x. keeps I (f x)) \<Longrightarrow> keeps I (m \<bind> f)"
  unfolding keeps_def by (rule hoare_bind)

lemma keeps_bindE [keeps_rules]: "keeps I m \<Longrightarrow> (\<And>x. keeps I (f x)) \<Longrightarrow> keeps I (bindE m f)"
  unfolding keeps_def by (rule hoare_bindE)

lemma keeps_if [keeps_rules]:
  "(b \<Longrightarrow> keeps I m) \<Longrightarrow> (\<not> b \<Longrightarrow> keeps I n) \<Longrightarrow> keeps I (if b then m else n)"
  by simp

lemma keeps_conj: "keeps I m \<Longrightarrow> keeps J m \<Longrightarrow> keeps (\<lambda>s. I s \<and> J s) m"
  by (auto simp: keeps_def hoare_def split: prod.splits)

end
