(* ===== verification/Gralloc_Interface.thy ===== *)
theory Gralloc_Interface
  imports Prelude
begin

text \<open>
  The data of the graphics allocator HAL (hals/allocator) and its two boundaries: downwards the
  vendor gralloc module, whose calls are the events of \<open>gr_event\<close>; upwards the interface
  \<open>AllocatorHal\<close> of AllocatorHal.h, which the service calls and both back ends implement.
  The monitors \<open>own_step\<close>, \<open>desc_step\<close> and \<open>session_step\<close> say which traces respect the
  ownership of buffers, of buffer descriptors and of the opened device; the locale
  \<open>allocator_hal\<close> states what every back end promises in those terms.
\<close>

section \<open>Data\<close>

text \<open>\<open>mapper::V3_0::Error\<close>, and the error codes a gralloc1 function may return: the enumerators
  the code names, and any other \<open>int32_t\<close>.\<close>

datatype Error = NONE | BAD_DESCRIPTOR | BAD_BUFFER | BAD_VALUE | NO_RESOURCES | UNSUPPORTED

datatype gralloc1_error =
    GRALLOC1_ERROR_NONE | GRALLOC1_ERROR_BAD_DESCRIPTOR | GRALLOC1_ERROR_BAD_HANDLE
  | GRALLOC1_ERROR_BAD_VALUE | GRALLOC1_ERROR_NOT_SHARED | GRALLOC1_ERROR_NO_RESOURCES
  | GRALLOC1_ERROR_UNDEFINED | GRALLOC1_ERROR_UNSUPPORTED | GRALLOC1_ERROR_other i32

datatype gralloc1_function =
    GRALLOC1_FUNCTION_DUMP | GRALLOC1_FUNCTION_CREATE_DESCRIPTOR
  | GRALLOC1_FUNCTION_DESTROY_DESCRIPTOR | GRALLOC1_FUNCTION_SET_DIMENSIONS
  | GRALLOC1_FUNCTION_SET_FORMAT | GRALLOC1_FUNCTION_SET_CONSUMER_USAGE
  | GRALLOC1_FUNCTION_SET_PRODUCER_USAGE | GRALLOC1_FUNCTION_GET_STRIDE
  | GRALLOC1_FUNCTION_ALLOCATE | GRALLOC1_FUNCTION_RELEASE | GRALLOC1_FUNCTION_SET_LAYER_COUNT

text \<open>The functions are finitely many, so that a table of them can be checked by evaluation.\<close>

instantiation gralloc1_function :: enum
begin

definition enum_gralloc1_function :: "gralloc1_function list" where
  "enum_gralloc1_function =
     [GRALLOC1_FUNCTION_DUMP, GRALLOC1_FUNCTION_CREATE_DESCRIPTOR, GRALLOC1_FUNCTION_DESTROY_DESCRIPTOR,
      GRALLOC1_FUNCTION_SET_DIMENSIONS, GRALLOC1_FUNCTION_SET_FORMAT, GRALLOC1_FUNCTION_SET_CONSUMER_USAGE,
      GRALLOC1_FUNCTION_SET_PRODUCER_USAGE, GRALLOC1_FUNCTION_GET_STRIDE, GRALLOC1_FUNCTION_ALLOCATE,
      GRALLOC1_FUNCTION_RELEASE, GRALLOC1_FUNCTION_SET_LAYER_COUNT]"

definition enum_all_gralloc1_function :: "(gralloc1_function \<Rightarrow> bool) \<Rightarrow> bool" where
  "enum_all_gralloc1_function P \<longleftrightarrow> list_all P enum_class.enum"

definition enum_ex_gralloc1_function :: "(gralloc1_function \<Rightarrow> bool) \<Rightarrow> bool" where
  "enum_ex_gralloc1_function P \<longleftrightarrow> list_ex P enum_class.enum"

instance proof
  show univ: "(UNIV :: gralloc1_function set) = set enum_class.enum"
    unfolding enum_gralloc1_function_def by (auto intro: gralloc1_function.exhaust)
  show "distinct (enum_class.enum :: gralloc1_function list)"
    by (simp add: enum_gralloc1_function_def)
  show "enum_class.enum_all P \<longleftrightarrow> Ball UNIV P" for P :: "gralloc1_function \<Rightarrow> bool"
    by (simp add: enum_all_gralloc1_function_def univ list_all_iff)
  show "enum_class.enum_ex P \<longleftrightarrow> Bex UNIV P" for P :: "gralloc1_function \<Rightarrow> bool"
    by (simp add: enum_ex_gralloc1_function_def univ list_ex_iff)
qed

end

type_synonym native_handle = u64      \<comment> \<open>\<open>const native_handle_t*\<close>; 0 is \<open>nullptr\<close>\<close>
type_synonym gralloc1_desc = u64      \<comment> \<open>\<open>gralloc1_buffer_descriptor_t\<close>\<close>
type_synonym BufferDescriptor = "u32 list"

record BufferDescriptorInfo =
  bd_width :: u32
  bd_height :: u32
  bd_layerCount :: u32
  bd_format :: i32
  bd_usage :: u64

section \<open>The trace of calls across the boundaries\<close>

text \<open>Each event is one call with its arguments and what it returned; an out parameter is recorded
  with the value the caller's variable holds afterwards.\<close>

datatype gr_event =
    HwGetModule int
  | Open1 int
  | Close1
  | GetCapabilities u32
  | GetFunction gralloc1_function bool
  | Dump1 u32
  | CreateDescriptor gralloc1_error gralloc1_desc
  | DestroyDescriptor gralloc1_desc
  | SetDimensions gralloc1_desc u32 u32 gralloc1_error
  | SetFormat gralloc1_desc i32 gralloc1_error
  | SetLayerCount gralloc1_desc u32 gralloc1_error
  | SetProducerUsage gralloc1_desc u64 gralloc1_error
  | SetConsumerUsage gralloc1_desc u64 gralloc1_error
  | Allocate1 gralloc1_desc gralloc1_error native_handle
  | GetStride native_handle gralloc1_error u32
  | Release native_handle gralloc1_error
  | Open0 int
  | Close0
  | Dump0
  | Alloc0 i32 i32 i32 i32 i32 native_handle i32
  | Free0 native_handle i32
  | AllocateReply Error u32 "native_handle list"
  | DumpReply "string option"

type_synonym gr_trace = "gr_event list"

definition is_reply :: "gr_event \<Rightarrow> bool" where
  "is_reply e \<longleftrightarrow> (case e of AllocateReply _ _ _ \<Rightarrow> True | DumpReply _ \<Rightarrow> True | _ \<Rightarrow> False)"

section \<open>What the calls mean for ownership\<close>

text \<open>Buffers: a successful allocation hands out its handle (a buffer that is not shared is still a
  buffer), a release needs the handle to be outstanding, and a client is only shown outstanding
  handles.\<close>

fun own_step :: "gr_event \<Rightarrow> native_handle multiset \<Rightarrow> native_handle multiset option" where
  "own_step (Allocate1 _ e h) M =
     Some (if e = GRALLOC1_ERROR_NONE \<or> e = GRALLOC1_ERROR_NOT_SHARED then add_mset h M else M)"
| "own_step (Alloc0 _ _ _ _ r h _) M = Some (if r = 0 then add_mset h M else M)"
| "own_step (Release h _) M = (if h \<in># M then Some (M - {#h#}) else None)"
| "own_step (Free0 h _) M = (if h \<in># M then Some (M - {#h#}) else None)"
| "own_step (AllocateReply _ _ hs) M = (if mset hs \<subseteq># M then Some M else None)"
| "own_step _ M = Some M"

text \<open>Descriptors: only a live one may be configured, allocated from or destroyed.\<close>

fun desc_step :: "gr_event \<Rightarrow> gralloc1_desc multiset \<Rightarrow> gralloc1_desc multiset option" where
  "desc_step (CreateDescriptor e d) M = Some (if e = GRALLOC1_ERROR_NONE then add_mset d M else M)"
| "desc_step (DestroyDescriptor d) M = (if d \<in># M then Some (M - {#d#}) else None)"
| "desc_step (SetDimensions d _ _ _) M = (if d \<in># M then Some M else None)"
| "desc_step (SetFormat d _ _) M = (if d \<in># M then Some M else None)"
| "desc_step (SetLayerCount d _ _) M = (if d \<in># M then Some M else None)"
| "desc_step (SetProducerUsage d _ _) M = (if d \<in># M then Some M else None)"
| "desc_step (SetConsumerUsage d _ _) M = (if d \<in># M then Some M else None)"
| "desc_step (Allocate1 d _ _) M = (if d \<in># M then Some M else None)"
| "desc_step _ M = Some M"

text \<open>Devices: the number of open devices; every other device call needs an open one.\<close>

fun session_step :: "gr_event \<Rightarrow> nat \<Rightarrow> nat option" where
  "session_step (HwGetModule _) n = Some n"
| "session_step (AllocateReply _ _ _) n = Some n"
| "session_step (DumpReply _) n = Some n"
| "session_step (Open1 r) n = Some (if r = 0 then Suc n else n)"
| "session_step (Open0 r) n = Some (if r = 0 then Suc n else n)"
| "session_step Close1 n = (if 0 < n then Some (n - 1) else None)"
| "session_step Close0 n = (if 0 < n then Some (n - 1) else None)"
| "session_step _ n = (if 0 < n then Some n else None)"

abbreviation outstanding :: "gr_trace \<Rightarrow> native_handle multiset option" where
  "outstanding \<equiv> monitor own_step {#}"

abbreviation live_descs :: "gr_trace \<Rightarrow> gralloc1_desc multiset option" where
  "live_descs \<equiv> monitor desc_step {#}"

abbreviation open_devices :: "gr_trace \<Rightarrow> nat option" where
  "open_devices \<equiv> monitor session_step 0"

text \<open>A call that uses an open device and leaves it open.\<close>

definition uses_device :: "gr_event \<Rightarrow> bool" where
  "uses_device ev \<longleftrightarrow> (\<forall>n. session_step ev (Suc n) = Some (Suc n))"

section \<open>The interface of AllocatorHal.h\<close>

text \<open>The virtual methods of \<open>class AllocatorHal\<close>. \<open>allocateBuffers\<close> writes its out parameters
  exactly when it returns \<open>NONE\<close>, hence the sum. A \<open>None\<close> dump is a write outside the buffer.\<close>

record AllocatorHal =
  hal_dumpDebugInfo :: "(gr_trace, string option) state"
  hal_allocateBuffers ::
    "BufferDescriptor \<Rightarrow> u32 \<Rightarrow> (gr_trace, Error + u32 \<times> native_handle list) state"
  hal_freeBuffers :: "native_handle list \<Rightarrow> (gr_trace, unit) state"

text \<open>What a back end promises its client, for every environment \<open>e\<close> that behaves as documented
  (\<open>contract e\<close>).\<close>

locale allocator_hal =
  fixes hal :: "'e \<Rightarrow> AllocatorHal"
    and contract :: "'e \<Rightarrow> bool"
  assumes alloc_ok:
    "contract e \<Longrightarrow> run_state (hal_allocateBuffers (hal e) d n) tr = (Inr (stride, bs), tr') \<Longrightarrow>
     outstanding tr = Some M \<Longrightarrow> outstanding tr' = Some (M + mset bs)"
  and alloc_length:
    "run_state (hal_allocateBuffers (hal e) d n) tr = (Inr (stride, bs), tr') \<Longrightarrow> length bs = unat n"
  and alloc_err:
    "contract e \<Longrightarrow> run_state (hal_allocateBuffers (hal e) d n) tr = (Inl err, tr') \<Longrightarrow>
     outstanding tr = Some M \<Longrightarrow> outstanding tr' = Some M"
  and alloc_err_code:
    "run_state (hal_allocateBuffers (hal e) d n) tr = (Inl err, tr') \<Longrightarrow> err \<noteq> NONE"
  and free_ok:
    "outstanding tr = Some (M + mset bs) \<Longrightarrow> run_state (hal_freeBuffers (hal e) bs) tr = ((), tr') \<Longrightarrow>
     outstanding tr' = Some M"
  and alloc_silent: "emits (\<lambda>ev. \<not> is_reply ev) (hal_allocateBuffers (hal e) d n)"
  and free_silent: "emits (\<lambda>ev. \<not> is_reply ev) (hal_freeBuffers (hal e) bs)"
  and dump_silent: "emits (\<lambda>ev. \<not> is_reply ev) (hal_dumpDebugInfo (hal e))"
  and dump_neutral: "emits (\<lambda>ev. \<forall>M. own_step ev M = Some M) (hal_dumpDebugInfo (hal e))"
  and alloc_session: "emits uses_device (hal_allocateBuffers (hal e) d n)"
  and free_session: "emits uses_device (hal_freeBuffers (hal e) bs)"
  and dump_session: "emits uses_device (hal_dumpDebugInfo (hal e))"

end
