(* ===== verification/Gralloc1_Usage.thy ===== *)
theory Gralloc1_Usage
  imports Gralloc_Interface
begin

text \<open>
  The pure conversions of Gralloc1Hal.h: gralloc1 error codes to \<open>Error\<close> (\<open>toError\<close>), and the
  HIDL buffer usage to gralloc1 producer and consumer usage. The flag values come from headers
  outside the repository (BufferUsage of the common HIDL types, gralloc1.h), so they are the fields
  of \<open>usage_abi\<close>; \<open>usage_abi_documented\<close> states how those headers lay the bits out.
\<close>

section \<open>Definitions\<close>

record usage_abi =
  CPU_READ_MASK :: u64
  CPU_READ_RARELY :: u64
  CPU_READ_OFTEN :: u64
  CPU_WRITE_MASK :: u64
  CPU_WRITE_RARELY :: u64
  CPU_WRITE_OFTEN :: u64
  GPU_DATA_BUFFER :: u64
  SENSOR_DIRECT_DATA :: u64
  PRODUCER_USAGE_CPU_READ :: u64
  PRODUCER_USAGE_CPU_READ_OFTEN :: u64
  PRODUCER_USAGE_CPU_WRITE :: u64
  PRODUCER_USAGE_CPU_WRITE_OFTEN :: u64
  CONSUMER_USAGE_CPU_READ :: u64
  CONSUMER_USAGE_CPU_READ_OFTEN :: u64
  CONSUMER_USAGE_GPU_DATA_BUFFER :: u64

fun toError :: "gralloc1_error \<Rightarrow> Error" where
  "toError GRALLOC1_ERROR_NONE = NONE"
| "toError GRALLOC1_ERROR_BAD_DESCRIPTOR = BAD_DESCRIPTOR"
| "toError GRALLOC1_ERROR_BAD_HANDLE = BAD_BUFFER"
| "toError GRALLOC1_ERROR_BAD_VALUE = BAD_VALUE"
| "toError GRALLOC1_ERROR_NOT_SHARED = NONE"
| "toError GRALLOC1_ERROR_NO_RESOURCES = NO_RESOURCES"
| "toError GRALLOC1_ERROR_UNDEFINED = UNSUPPORTED"
| "toError GRALLOC1_ERROR_UNSUPPORTED = UNSUPPORTED"
| "toError (GRALLOC1_ERROR_other _) = UNSUPPORTED"

definition toProducerUsage :: "usage_abi \<Rightarrow> u64 \<Rightarrow> u64" where
  "toProducerUsage abi usage =
     (let producerUsage = usage AND NOT (CPU_READ_MASK abi OR CPU_WRITE_MASK abi OR GPU_DATA_BUFFER abi);
          w = usage AND CPU_WRITE_MASK abi;
          producerUsage =
            (if w = CPU_WRITE_RARELY abi then producerUsage OR PRODUCER_USAGE_CPU_WRITE abi
             else if w = CPU_WRITE_OFTEN abi then producerUsage OR PRODUCER_USAGE_CPU_WRITE_OFTEN abi
             else producerUsage);
          r = usage AND CPU_READ_MASK abi
      in if r = CPU_READ_RARELY abi then producerUsage OR PRODUCER_USAGE_CPU_READ abi
         else if r = CPU_READ_OFTEN abi then producerUsage OR PRODUCER_USAGE_CPU_READ_OFTEN abi
         else producerUsage)"

definition toConsumerUsage :: "usage_abi \<Rightarrow> u64 \<Rightarrow> u64" where
  "toConsumerUsage abi usage =
     (let consumerUsage = usage AND NOT (CPU_READ_MASK abi OR CPU_WRITE_MASK abi OR
                                         SENSOR_DIRECT_DATA abi OR GPU_DATA_BUFFER abi);
          r = usage AND CPU_READ_MASK abi;
          consumerUsage =
            (if r = CPU_READ_RARELY abi then consumerUsage OR CONSUMER_USAGE_CPU_READ abi
             else if r = CPU_READ_OFTEN abi then consumerUsage OR CONSUMER_USAGE_CPU_READ_OFTEN abi
             else consumerUsage)
      in if usage AND GPU_DATA_BUFFER abi \<noteq> 0
         then consumerUsage OR CONSUMER_USAGE_GPU_DATA_BUFFER abi else consumerUsage)"

text \<open>The bit layout the headers document: the CPU masks, the GPU bit and the sensor bit are
  disjoint fields; the gralloc1 CPU flags live inside the CPU fields, the gralloc1 GPU flag outside
  the CPU fields and the sensor bit.\<close>

definition within :: "u64 \<Rightarrow> u64 \<Rightarrow> bool" where
  "within x m \<longleftrightarrow> x AND NOT m = 0"

definition disjoint_bits :: "u64 \<Rightarrow> u64 \<Rightarrow> bool" where
  "disjoint_bits x m \<longleftrightarrow> x AND m = 0"

definition usage_abi_documented :: "usage_abi \<Rightarrow> bool" where
  "usage_abi_documented abi \<longleftrightarrow>
     disjoint_bits (CPU_READ_MASK abi) (CPU_WRITE_MASK abi) \<and>
     disjoint_bits (GPU_DATA_BUFFER abi) (CPU_READ_MASK abi) \<and>
     disjoint_bits (GPU_DATA_BUFFER abi) (CPU_WRITE_MASK abi) \<and>
     disjoint_bits (GPU_DATA_BUFFER abi) (SENSOR_DIRECT_DATA abi) \<and>
     disjoint_bits (SENSOR_DIRECT_DATA abi) (CPU_READ_MASK abi) \<and>
     disjoint_bits (SENSOR_DIRECT_DATA abi) (CPU_WRITE_MASK abi) \<and>
     within (PRODUCER_USAGE_CPU_READ abi) (CPU_READ_MASK abi) \<and>
     within (PRODUCER_USAGE_CPU_READ_OFTEN abi) (CPU_READ_MASK abi) \<and>
     within (PRODUCER_USAGE_CPU_WRITE abi) (CPU_WRITE_MASK abi) \<and>
     within (PRODUCER_USAGE_CPU_WRITE_OFTEN abi) (CPU_WRITE_MASK abi) \<and>
     within (CONSUMER_USAGE_CPU_READ abi) (CPU_READ_MASK abi) \<and>
     within (CONSUMER_USAGE_CPU_READ_OFTEN abi) (CPU_READ_MASK abi) \<and>
     disjoint_bits (CONSUMER_USAGE_GPU_DATA_BUFFER abi) (CPU_READ_MASK abi) \<and>
     disjoint_bits (CONSUMER_USAGE_GPU_DATA_BUFFER abi) (CPU_WRITE_MASK abi) \<and>
     disjoint_bits (CONSUMER_USAGE_GPU_DATA_BUFFER abi) (SENSOR_DIRECT_DATA abi)"

text \<open>What the conversions are meant to do, field by field: the CPU access asked for, translated.\<close>

definition translate_field :: "u64 \<Rightarrow> u64 \<Rightarrow> u64 \<Rightarrow> u64 \<Rightarrow> u64 \<Rightarrow> u64" where
  "translate_field field rarely often flag flag_often =
     (if field = rarely then flag else if field = often then flag_often else 0)"

text \<open>A layout that meets the documentation, for closed instances.\<close>

definition sample_abi :: usage_abi where
  "sample_abi =
     \<lparr>CPU_READ_MASK = 0xf, CPU_READ_RARELY = 2, CPU_READ_OFTEN = 3,
      CPU_WRITE_MASK = 0xf0, CPU_WRITE_RARELY = 0x20, CPU_WRITE_OFTEN = 0x30,
      GPU_DATA_BUFFER = 0x1000000, SENSOR_DIRECT_DATA = 0x800000,
      PRODUCER_USAGE_CPU_READ = 2, PRODUCER_USAGE_CPU_READ_OFTEN = 6,
      PRODUCER_USAGE_CPU_WRITE = 0x20, PRODUCER_USAGE_CPU_WRITE_OFTEN = 0x60,
      CONSUMER_USAGE_CPU_READ = 2, CONSUMER_USAGE_CPU_READ_OFTEN = 6,
      CONSUMER_USAGE_GPU_DATA_BUFFER = 0x1000000\<rparr>"

section \<open>Lemmas\<close>

lemma toError_NONE_iff:
  "toError e = NONE \<longleftrightarrow> e = GRALLOC1_ERROR_NONE \<or> e = GRALLOC1_ERROR_NOT_SHARED"
  by (cases e) auto

lemma within_bit: "within x m \<longleftrightarrow> (\<forall>n. bit x n \<longrightarrow> bit m n)"
  unfolding within_def bit_eq_iff by (auto simp: bit_simps dest: bit_u64_less)

lemma disjoint_bit: "disjoint_bits x m \<longleftrightarrow> (\<forall>n. bit x n \<longrightarrow> \<not> bit m n)"
  unfolding disjoint_bits_def bit_eq_iff by (auto simp: bit_simps dest: bit_u64_less)

lemma sample_abi_documented: "usage_abi_documented sample_abi"
  by (simp add: usage_abi_documented_def sample_abi_def within_def disjoint_bits_def)

lemma toProducerUsage_fields:
  "toProducerUsage abi u =
     (u AND NOT (CPU_READ_MASK abi OR CPU_WRITE_MASK abi OR GPU_DATA_BUFFER abi)) OR
     translate_field (u AND CPU_WRITE_MASK abi) (CPU_WRITE_RARELY abi) (CPU_WRITE_OFTEN abi)
       (PRODUCER_USAGE_CPU_WRITE abi) (PRODUCER_USAGE_CPU_WRITE_OFTEN abi) OR
     translate_field (u AND CPU_READ_MASK abi) (CPU_READ_RARELY abi) (CPU_READ_OFTEN abi)
       (PRODUCER_USAGE_CPU_READ abi) (PRODUCER_USAGE_CPU_READ_OFTEN abi)"
  by (simp add: toProducerUsage_def translate_field_def Let_def or.assoc)

lemma toConsumerUsage_fields:
  "toConsumerUsage abi u =
     (u AND NOT (CPU_READ_MASK abi OR CPU_WRITE_MASK abi OR SENSOR_DIRECT_DATA abi OR
                 GPU_DATA_BUFFER abi)) OR
     translate_field (u AND CPU_READ_MASK abi) (CPU_READ_RARELY abi) (CPU_READ_OFTEN abi)
       (CONSUMER_USAGE_CPU_READ abi) (CONSUMER_USAGE_CPU_READ_OFTEN abi) OR
     (if u AND GPU_DATA_BUFFER abi \<noteq> 0 then CONSUMER_USAGE_GPU_DATA_BUFFER abi else 0)"
  by (simp add: toConsumerUsage_def translate_field_def Let_def or.assoc)

lemma translate_field_bit:
  "bit (translate_field f r t a b) n \<Longrightarrow> within a m \<Longrightarrow> within b m \<Longrightarrow> bit m n"
  by (auto simp: translate_field_def within_bit split: if_splits)

lemma within_or: "within a m \<Longrightarrow> within b m \<Longrightarrow> within (a OR b) m"
  by (auto simp: within_bit bit_simps)

lemma within_translate_field:
  "within a m \<Longrightarrow> within b m \<Longrightarrow> within (translate_field f r t a b) m"
  by (simp add: translate_field_def within_def)

lemma documented_masks:
  assumes "usage_abi_documented abi"
  shows "disjoint_bits (CPU_READ_MASK abi) (CPU_WRITE_MASK abi)"
    "disjoint_bits (GPU_DATA_BUFFER abi) (CPU_READ_MASK abi)"
    "disjoint_bits (GPU_DATA_BUFFER abi) (CPU_WRITE_MASK abi)"
    "disjoint_bits (GPU_DATA_BUFFER abi) (SENSOR_DIRECT_DATA abi)"
    "disjoint_bits (SENSOR_DIRECT_DATA abi) (CPU_READ_MASK abi)"
    "disjoint_bits (SENSOR_DIRECT_DATA abi) (CPU_WRITE_MASK abi)"
  using assms by (simp_all add: usage_abi_documented_def)

lemma documented_translations:
  assumes "usage_abi_documented abi"
  shows "within (translate_field f r t (PRODUCER_USAGE_CPU_READ abi)
                   (PRODUCER_USAGE_CPU_READ_OFTEN abi)) (CPU_READ_MASK abi)"
    "within (translate_field f r t (PRODUCER_USAGE_CPU_WRITE abi)
                   (PRODUCER_USAGE_CPU_WRITE_OFTEN abi)) (CPU_WRITE_MASK abi)"
    "within (translate_field f r t (CONSUMER_USAGE_CPU_READ abi)
                   (CONSUMER_USAGE_CPU_READ_OFTEN abi)) (CPU_READ_MASK abi)"
    "disjoint_bits (CONSUMER_USAGE_GPU_DATA_BUFFER abi) (CPU_READ_MASK abi)"
    "disjoint_bits (CONSUMER_USAGE_GPU_DATA_BUFFER abi) (CPU_WRITE_MASK abi)"
    "disjoint_bits (CONSUMER_USAGE_GPU_DATA_BUFFER abi) (SENSOR_DIRECT_DATA abi)"
  using assms by (simp_all add: usage_abi_documented_def within_translate_field)

text \<open>The two conversions, once the field facts are known, are a matter of single bits.\<close>

lemma producer_regions:
  fixes u rm wm gpu r w :: u64
  assumes "disjoint_bits rm wm" "disjoint_bits gpu rm" "disjoint_bits gpu wm" "within r rm" "within w wm"
  defines "p \<equiv> (u AND NOT (rm OR wm OR gpu)) OR w OR r"
  shows "p AND rm = r" "p AND wm = w" "p AND gpu = 0"
    "p AND NOT (rm OR wm OR gpu) = u AND NOT (rm OR wm OR gpu)"
  using assms(1-5) unfolding p_def within_bit disjoint_bit
  by (auto simp: bit_simps dest: bit_u64_less intro!: bit_eqI) blast+

lemma consumer_regions:
  fixes u rm wm gpu sen r g cg :: u64
  assumes "disjoint_bits rm wm" "disjoint_bits gpu rm" "disjoint_bits gpu wm" "disjoint_bits gpu sen"
    "disjoint_bits sen rm" "disjoint_bits sen wm" "within r rm"
    "disjoint_bits cg rm" "disjoint_bits cg wm" "disjoint_bits cg sen" "within g cg"
  defines "p \<equiv> (u AND NOT (rm OR wm OR sen OR gpu)) OR r OR g"
  shows "p AND rm = r" "p AND wm = 0" "p AND sen = 0" "p AND gpu = g AND gpu" "p AND g = g"
    "p AND NOT (rm OR wm OR sen OR gpu OR cg) = u AND NOT (rm OR wm OR sen OR gpu OR cg)"
  using assms(1-11) unfolding p_def within_bit disjoint_bit
  by (auto simp: bit_simps dest: bit_u64_less intro!: bit_eqI) blast+

section \<open>Properties\<close>

text \<open>C31: The producer usage: the CPU read and write fields are translated value by value (never, rarely, often), \<open>GPU_DATA_BUFFER\<close> is always filtered out, and every other bit passes unchanged, for every layout of the flags that keeps the documented fields apart.\<close>

theorem producer_usage_correct:
  assumes "usage_abi_documented abi"
  shows "toProducerUsage abi u AND CPU_READ_MASK abi =
           translate_field (u AND CPU_READ_MASK abi) (CPU_READ_RARELY abi) (CPU_READ_OFTEN abi)
             (PRODUCER_USAGE_CPU_READ abi) (PRODUCER_USAGE_CPU_READ_OFTEN abi) \<and>
         toProducerUsage abi u AND CPU_WRITE_MASK abi =
           translate_field (u AND CPU_WRITE_MASK abi) (CPU_WRITE_RARELY abi) (CPU_WRITE_OFTEN abi)
             (PRODUCER_USAGE_CPU_WRITE abi) (PRODUCER_USAGE_CPU_WRITE_OFTEN abi) \<and>
         toProducerUsage abi u AND GPU_DATA_BUFFER abi = 0 \<and>
         toProducerUsage abi u AND NOT (CPU_READ_MASK abi OR CPU_WRITE_MASK abi OR GPU_DATA_BUFFER abi) =
           u AND NOT (CPU_READ_MASK abi OR CPU_WRITE_MASK abi OR GPU_DATA_BUFFER abi)"
  unfolding toProducerUsage_fields
  by (intro conjI; rule producer_regions [OF documented_masks(1-3) documented_translations(1,2),
        OF assms assms assms assms assms])

theorem producer_usage_correct_witness:
  "usage_abi_documented sample_abi \<and>
   toProducerUsage sample_abi 0x1000133 AND CPU_WRITE_MASK sample_abi = 0x60"
  using producer_usage_correct [OF sample_abi_documented, of "0x1000133"] sample_abi_documented
  by (simp add: sample_abi_def translate_field_def)

text \<open>C32: The consumer usage: the CPU read field is translated, the CPU write field and \<open>SENSOR_DIRECT_DATA\<close> are filtered out, \<open>GPU_DATA_BUFFER\<close> becomes the consumer's flag, and every other bit passes unchanged.\<close>

theorem consumer_usage_correct:
  assumes "usage_abi_documented abi"
  shows "toConsumerUsage abi u AND CPU_READ_MASK abi =
           translate_field (u AND CPU_READ_MASK abi) (CPU_READ_RARELY abi) (CPU_READ_OFTEN abi)
             (CONSUMER_USAGE_CPU_READ abi) (CONSUMER_USAGE_CPU_READ_OFTEN abi) \<and>
         toConsumerUsage abi u AND CPU_WRITE_MASK abi = 0 \<and>
         toConsumerUsage abi u AND SENSOR_DIRECT_DATA abi = 0 \<and>
         toConsumerUsage abi u AND GPU_DATA_BUFFER abi =
           (if u AND GPU_DATA_BUFFER abi = 0 then 0
            else CONSUMER_USAGE_GPU_DATA_BUFFER abi AND GPU_DATA_BUFFER abi) \<and>
         (u AND GPU_DATA_BUFFER abi \<noteq> 0 \<longrightarrow>
            toConsumerUsage abi u AND CONSUMER_USAGE_GPU_DATA_BUFFER abi =
            CONSUMER_USAGE_GPU_DATA_BUFFER abi) \<and>
         (let fields = CPU_READ_MASK abi OR CPU_WRITE_MASK abi OR SENSOR_DIRECT_DATA abi OR
                       GPU_DATA_BUFFER abi OR CONSUMER_USAGE_GPU_DATA_BUFFER abi
          in toConsumerUsage abi u AND NOT fields = u AND NOT fields)"
proof -
  let ?g = "if u AND GPU_DATA_BUFFER abi \<noteq> 0 then CONSUMER_USAGE_GPU_DATA_BUFFER abi else 0"
  have "within ?g (CONSUMER_USAGE_GPU_DATA_BUFFER abi)" by (simp add: within_def)
  note regions = consumer_regions [OF documented_masks documented_translations(3-6),
      OF assms assms assms assms assms assms assms assms assms assms this, of u]
  have "toConsumerUsage abi u AND CPU_READ_MASK abi =
           translate_field (u AND CPU_READ_MASK abi) (CPU_READ_RARELY abi) (CPU_READ_OFTEN abi)
             (CONSUMER_USAGE_CPU_READ abi) (CONSUMER_USAGE_CPU_READ_OFTEN abi)"
    "toConsumerUsage abi u AND CPU_WRITE_MASK abi = 0"
    "toConsumerUsage abi u AND SENSOR_DIRECT_DATA abi = 0"
    "toConsumerUsage abi u AND GPU_DATA_BUFFER abi = ?g AND GPU_DATA_BUFFER abi"
    "toConsumerUsage abi u AND ?g = ?g"
    "toConsumerUsage abi u AND NOT (CPU_READ_MASK abi OR CPU_WRITE_MASK abi OR SENSOR_DIRECT_DATA abi OR
       GPU_DATA_BUFFER abi OR CONSUMER_USAGE_GPU_DATA_BUFFER abi) =
     u AND NOT (CPU_READ_MASK abi OR CPU_WRITE_MASK abi OR SENSOR_DIRECT_DATA abi OR
       GPU_DATA_BUFFER abi OR CONSUMER_USAGE_GPU_DATA_BUFFER abi)"
    unfolding toConsumerUsage_fields by (rule regions)+
  then show ?thesis
    unfolding Let_def by (cases "u AND GPU_DATA_BUFFER abi = 0") simp_all
qed

theorem consumer_usage_correct_witness:
  "usage_abi_documented sample_abi \<and>
   toConsumerUsage sample_abi 0x1800132 AND CPU_READ_MASK sample_abi = 2 \<and>
   toConsumerUsage sample_abi 0x1800132 AND GPU_DATA_BUFFER sample_abi = 0x1000000"
  using consumer_usage_correct [OF sample_abi_documented, of "0x1800132"] sample_abi_documented
  by (simp add: sample_abi_def translate_field_def)

end
