(* ===== verification/Alloc_Loop.thy ===== *)
theory Alloc_Loop
  imports Gralloc_Interface
begin

text \<open>
  The allocation loop of \<open>allocateBuffers\<close>, which Gralloc0Hal.h and Gralloc1Hal.h share word for
  word: allocate \<open>count\<close> buffers one by one, stop at the first error, and insist on one stride. The
  lemmas lift what one \<open>allocateOneBuffer\<close> does to the whole loop: the buffers it leaves
  outstanding, the calls it makes, the strides it accepts, and whether it reads its locals.
\<close>

section \<open>Definitions\<close>

text \<open>The loop both back ends run over \<open>allocateOneBuffer\<close>: \<open>i\<close> is the loop counter, \<open>n\<close> the
  iterations left, \<open>alloc i\<close> one call of \<open>allocateOneBuffer\<close> with the locals of that iteration.\<close>

primrec allocLoop ::
  "(nat \<Rightarrow> (gr_trace, Error \<times> native_handle \<times> u32) state) \<Rightarrow> nat \<Rightarrow> nat \<Rightarrow> u32 \<Rightarrow>
   native_handle list \<Rightarrow> (gr_trace, Error \<times> u32 \<times> native_handle list) state" where
  "allocLoop alloc 0 i stride buffers = return (NONE, stride, buffers)"
| "allocLoop alloc (Suc n) i stride buffers =
     do {
       (error, tmpBuffer, tmpStride) \<leftarrow> alloc i;
       if error \<noteq> NONE then return (error, stride, buffers)
       else if stride = 0 then allocLoop alloc n (Suc i) tmpStride (buffers @ [tmpBuffer])
       else if stride \<noteq> tmpStride then return (UNSUPPORTED, stride, buffers @ [tmpBuffer])
       else allocLoop alloc n (Suc i) stride (buffers @ [tmpBuffer])
     }"

text \<open>Strides the loop accepts: zeros first, then one value.\<close>

fun strides_ok :: "u32 \<Rightarrow> u32 list \<Rightarrow> bool" where
  "strides_ok s [] = True"
| "strides_ok s (t # ts) = (if s = 0 then strides_ok t ts else s = t \<and> strides_ok s ts)"

definition final_stride :: "u32 \<Rightarrow> u32 list \<Rightarrow> u32" where
  "final_stride s ts = foldl (\<lambda>s t. if s = 0 then t else s) s ts"

text \<open>Two runs of \<open>allocateOneBuffer\<close> that differ at most in the out parameters a failing call
  leaves unwritten.\<close>

definition agrees_at ::
  "gr_trace \<Rightarrow> (gr_trace, Error \<times> 'a) state \<Rightarrow> (gr_trace, Error \<times> 'a) state \<Rightarrow> bool" where
  "agrees_at tr m m' \<longleftrightarrow>
     snd (run_state m tr) = snd (run_state m' tr) \<and>
     fst (fst (run_state m tr)) = fst (fst (run_state m' tr)) \<and>
     (fst (fst (run_state m tr)) = NONE \<longrightarrow> run_state m tr = run_state m' tr)"

definition agrees ::
  "(gr_trace, Error \<times> 'a) state \<Rightarrow> (gr_trace, Error \<times> 'a) state \<Rightarrow> bool" where
  "agrees m m' \<longleftrightarrow> (\<forall>tr. agrees_at tr m m')"

section \<open>Lemmas\<close>

lemma strides_ok_nonzero: "s \<noteq> 0 \<Longrightarrow> strides_ok s ts \<longleftrightarrow> (\<forall>t\<in>set ts. t = s)"
  by (induction ts) auto

lemma strides_ok_zero:
  "strides_ok 0 ts \<longleftrightarrow> (\<exists>k m s. ts = replicate k 0 @ replicate m s)"
proof (induction ts)
  case Nil
  show ?case by simp
next
  case (Cons t ts)
  show ?case
  proof (cases "t = 0")
    case True
    have "(\<exists>k m s. 0 # ts = replicate k 0 @ replicate m s) \<longleftrightarrow>
          (\<exists>k m s. ts = replicate k 0 @ replicate m (s::u32))"
    proof
      assume "\<exists>k m s. 0 # ts = replicate k 0 @ replicate m (s::u32)"
      then obtain k m s where eq: "0 # ts = replicate k 0 @ replicate m (s::u32)" by blast
      show "\<exists>k m s. ts = replicate k 0 @ replicate m (s::u32)"
      proof (cases k)
        case 0
        with eq have "ts = replicate (m - 1) 0" by (cases m) auto
        then show ?thesis by (metis append_Nil replicate_0)
      next
        case (Suc k')
        with eq show ?thesis by auto
      qed
    next
      assume "\<exists>k m s. ts = replicate k 0 @ replicate m (s::u32)"
      then show "\<exists>k m s. 0 # ts = replicate k 0 @ replicate m (s::u32)"
        by (metis append_Cons replicate_Suc)
    qed
    with True Cons.IH show ?thesis by simp
  next
    case False
    have "strides_ok t ts \<longleftrightarrow> ts = replicate (length ts) t"
      using False by (metis replicate_eqI in_set_replicate strides_ok_nonzero)
    moreover have "(\<exists>k m s. t # ts = replicate k 0 @ replicate m s) \<longleftrightarrow> ts = replicate (length ts) t"
    proof
      assume "\<exists>k m s. t # ts = replicate k 0 @ replicate m s"
      then obtain k m s where eq: "t # ts = replicate k 0 @ replicate m s" by blast
      with False have "k = 0" by (cases k) auto
      with eq show "ts = replicate (length ts) t" by (cases m) auto
    next
      assume "ts = replicate (length ts) t"
      then have "t # ts = replicate 0 0 @ replicate (Suc (length ts)) t" by simp
      then show "\<exists>k m s. t # ts = replicate k 0 @ replicate m s" by blast
    qed
    ultimately show ?thesis using False by simp
  qed
qed

lemma allocLoop_length:
  "run_state (allocLoop alloc n i stride bs) tr = ((NONE, stride', bs'), tr') \<Longrightarrow>
   length bs' = length bs + n"
  by (induction n arbitrary: i stride bs tr) (fastforce split: prod.splits if_splits)+

lemma allocLoop_owns:
  assumes step: "\<And>i tr e h t tr' M. run_state (alloc i) tr = ((e, h, t), tr') \<Longrightarrow>
      outstanding tr = Some M \<Longrightarrow> outstanding tr' = Some (if e = NONE then add_mset h M else M)"
  shows "run_state (allocLoop alloc n i stride bs) tr = ((e, stride', bs'), tr') \<Longrightarrow>
      outstanding tr = Some (M + mset bs) \<Longrightarrow> outstanding tr' = Some (M + mset bs')"
proof (induction n arbitrary: i stride bs tr)
  case 0
  then show ?case by simp
next
  case (Suc n)
  obtain e1 h t tr1 where one: "run_state (alloc i) tr = ((e1, h, t), tr1)"
    by (metis prod_cases3 surj_pair)
  from step [OF one Suc.prems(2)]
  have "outstanding tr1 = Some (if e1 = NONE then M + mset (bs @ [h]) else M + mset bs)"
    by simp
  with Suc.prems(1) one Suc.IH show ?case
    by (auto split: if_splits)
qed

lemma emits_allocLoop [emits_rules]:
  "(\<And>i. emits P (alloc i)) \<Longrightarrow> emits P (allocLoop alloc n i stride bs)"
  by (induction n arbitrary: i stride bs)
     (auto intro!: emits_rules simp del: run_state_bind split: prod.split)

lemma allocLoop_inv:
  assumes "\<And>i tr r tr'. run_state (alloc i) tr = (r, tr') \<Longrightarrow> I tr \<Longrightarrow> I tr'"
  shows "run_state (allocLoop alloc n i stride bs) tr = (r, tr') \<Longrightarrow> I tr \<Longrightarrow> I tr'"
  by (induction n arbitrary: i stride bs tr) (auto split: prod.splits if_splits dest: assms)

lemma agrees_at_bind:
  assumes "run_state m tr = run_state m' tr" and "Q (fst (run_state m tr))"
    and "\<And>x. Q x \<Longrightarrow> agrees (f x) (g x)"
  shows "agrees_at tr (m \<bind> f) (m' \<bind> g)"
proof -
  obtain x tr1 where m: "run_state m tr = (x, tr1)" by (rule run_state_obtain1)
  with assms(2) have "agrees (f x) (g x)" by (intro assms(3)) simp
  then have "agrees_at tr1 (f x) (g x)" by (simp add: agrees_def)
  then show ?thesis
    unfolding agrees_at_def run_state_bind assms(1) [symmetric] m prod.case .
qed

lemma agrees_bind:
  assumes "\<And>s. Q (fst (run_state m s))" and "\<And>x. Q x \<Longrightarrow> agrees (f x) (g x)"
  shows "agrees (m \<bind> f) (m \<bind> g)"
  unfolding agrees_def by (blast intro: agrees_at_bind assms)

lemma allocLoop_agrees:
  assumes "\<And>i. agrees (alloc i) (alloc' i)"
  shows "allocLoop alloc n i stride bs = allocLoop alloc' n i stride bs"
proof (induction n arbitrary: i stride bs)
  case 0
  show ?case by simp
next
  case (Suc n)
  show ?case
  proof (rule state_ext)
    fix tr
    obtain e h t tr1 where one: "run_state (alloc i) tr = ((e, h, t), tr1)"
      by (rule run_state_obtain3)
    obtain e' h' t' tr1' where one': "run_state (alloc' i) tr = ((e', h', t'), tr1')"
      by (rule run_state_obtain3)
    from assms [of i] one one' have "tr1' = tr1" "e' = e" "e = NONE \<longrightarrow> h' = h \<and> t' = t"
      by (auto simp: agrees_def agrees_at_def dest: spec [of _ tr])
    with one one' show "run_state (allocLoop alloc (Suc n) i stride bs) tr =
                   run_state (allocLoop alloc' (Suc n) i stride bs) tr"
      by (auto simp: Suc.IH)
  qed
qed

lemma allocLoop_strides:
  assumes step: "\<And>i tr e h t tr'. run_state (alloc i) tr = ((e, h, t), tr') \<Longrightarrow>
      strides tr' = strides tr @ (if e = NONE then [t] else [])"
  shows "run_state (allocLoop alloc n i stride bs) tr = ((e, stride', bs'), tr') \<Longrightarrow>
      \<exists>ts. strides tr' = strides tr @ ts \<and>
           (e = NONE \<longrightarrow> length ts = n \<and> strides_ok stride ts \<and> stride' = final_stride stride ts)"
proof (induction n arbitrary: i stride bs tr)
  case 0
  then show ?case by (simp add: final_stride_def)
next
  case (Suc n)
  obtain e1 h t tr1 where one: "run_state (alloc i) tr = ((e1, h, t), tr1)"
    by (metis prod_cases3 surj_pair)
  note st = step [OF one]
  show ?case
  proof (cases "e1 = NONE \<and> (stride = 0 \<or> stride = t)")
    case True
    let ?s = "if stride = 0 then t else stride"
    from True Suc.prems one
    have "run_state (allocLoop alloc n (Suc i) ?s (bs @ [h])) tr1 = ((e, stride', bs'), tr')"
      by (auto split: if_splits)
    from Suc.IH [OF this] obtain ts where
      "strides tr' = strides tr1 @ ts"
      "e = NONE \<longrightarrow> length ts = n \<and> strides_ok ?s ts \<and> stride' = final_stride ?s ts" by blast
    with True st show ?thesis
      by (intro exI [of _ "t # ts"]) (auto simp: final_stride_def)
  next
    case False
    with Suc.prems one st show ?thesis by (auto split: if_splits)
  qed
qed

lemma foldl_stride: "foldl (\<lambda>s t. if s = 0 then t else s) a (replicate m b) =
    (if a = 0 \<and> 0 < m then b else a :: u32)"
  by (induction m arbitrary: a) auto

lemma final_stride_zeros: "final_stride 0 (replicate k 0 @ replicate m s) = (if m = 0 then 0 else s)"
  by (simp add: final_stride_def foldl_stride)

end
