(* ===== verification/Gralloc1_Hal.thy ===== *)
theory Gralloc1_Hal
  imports Gralloc1_Usage Alloc_Loop
begin

text \<open>
  Gralloc1Hal.h: the back end \<open>Gralloc1HalImpl\<close> on top of a gralloc1 device. The device is
  outside the repository: \<open>gralloc1_device\<close> holds its functions, each answering from the
  calls made so far. \<open>gralloc1_env\<close> adds what else the code uses from outside (the usage
  flags, the descriptor decoder, the number of the layered-buffers capability) and the
  indeterminate initial contents of the locals the code leaves uninitialised, so that a dependence on
  them is visible. \<open>gralloc1_hal\<close> is the object's own state: the device pointer (as: not null),
  the capability flag, and which entries of the dispatch table have been filled.
\<close>

section \<open>State and environment\<close>

record gralloc1_device =
  dev_open :: "gr_trace \<Rightarrow> int"
  dev_getCapabilities :: "gr_trace \<Rightarrow> u32 \<Rightarrow> i32 list option \<Rightarrow> u32 \<times> i32 list"
  dev_getFunction :: "gr_trace \<Rightarrow> gralloc1_function \<Rightarrow> bool"
  dev_dump :: "gr_trace \<Rightarrow> u32 \<Rightarrow> string option \<Rightarrow> u32 \<times> string"
  dev_createDescriptor :: "gr_trace \<Rightarrow> gralloc1_error \<times> gralloc1_desc option"
  dev_setDimensions :: "gr_trace \<Rightarrow> gralloc1_desc \<Rightarrow> u32 \<Rightarrow> u32 \<Rightarrow> gralloc1_error"
  dev_setFormat :: "gr_trace \<Rightarrow> gralloc1_desc \<Rightarrow> i32 \<Rightarrow> gralloc1_error"
  dev_setLayerCount :: "gr_trace \<Rightarrow> gralloc1_desc \<Rightarrow> u32 \<Rightarrow> gralloc1_error"
  dev_setProducerUsage :: "gr_trace \<Rightarrow> gralloc1_desc \<Rightarrow> u64 \<Rightarrow> gralloc1_error"
  dev_setConsumerUsage :: "gr_trace \<Rightarrow> gralloc1_desc \<Rightarrow> u64 \<Rightarrow> gralloc1_error"
  dev_allocate :: "gr_trace \<Rightarrow> gralloc1_desc \<Rightarrow> gralloc1_error \<times> native_handle option"
  dev_getStride :: "gr_trace \<Rightarrow> native_handle \<Rightarrow> gralloc1_error \<times> u32 option"
  dev_release :: "gr_trace \<Rightarrow> native_handle \<Rightarrow> gralloc1_error"

text \<open>Uninitialised locals: \<open>descriptor\<close> in \<open>createDescriptor\<close>, \<open>desc\<close> in \<open>allocateBuffers\<close>,
  and \<open>tmpBuffer\<close>, \<open>tmpStride\<close> in each iteration of its loop.\<close>

record gralloc1_locals =
  loc_descriptor :: gralloc1_desc
  loc_desc :: gralloc1_desc
  loc_tmpBuffer :: "nat \<Rightarrow> native_handle"
  loc_tmpStride :: "nat \<Rightarrow> u32"

record gralloc1_env =
  env_dev :: gralloc1_device
  env_abi :: usage_abi
  env_decode :: "BufferDescriptor \<Rightarrow> BufferDescriptorInfo option"
  env_layeredBuffers :: i32
  env_locals :: gralloc1_locals

record gralloc1_hal =
  mDevice :: bool
  mCapabilities_layeredBuffers :: bool
  mDispatch :: "gralloc1_function list"

definition gralloc1_hal_new :: gralloc1_hal where
  "gralloc1_hal_new = \<lparr>mDevice = False, mCapabilities_layeredBuffers = False, mDispatch = []\<rparr>"

section \<open>The calls through the dispatch table\<close>

definition call_dump ::
  "gralloc1_env \<Rightarrow> u32 \<Rightarrow> string option \<Rightarrow> (gr_trace, u32 \<times> string option) state" where
  "call_dump env len buf =
     call (\<lambda>tr. let (len', written) = dev_dump (env_dev env) tr len buf
               in (len', case buf of None \<Rightarrow> Some [] | Some b \<Rightarrow> write_within b written))
          (\<lambda>_. Dump1 len)"

definition call_createDescriptor ::
  "gralloc1_env \<Rightarrow> gralloc1_desc \<Rightarrow> (gr_trace, gralloc1_error \<times> gralloc1_desc) state" where
  "call_createDescriptor env descriptor =
     call (\<lambda>tr. let (e, out) = dev_createDescriptor (env_dev env) tr
               in (e, case out of None \<Rightarrow> descriptor | Some d \<Rightarrow> d))
          (\<lambda>(e, d). CreateDescriptor e d)"

definition call_destroyDescriptor :: "gralloc1_desc \<Rightarrow> (gr_trace, unit) state" where
  "call_destroyDescriptor d = call (\<lambda>_. ()) (\<lambda>_. DestroyDescriptor d)"

definition call_setDimensions ::
  "gralloc1_env \<Rightarrow> gralloc1_desc \<Rightarrow> u32 \<Rightarrow> u32 \<Rightarrow> (gr_trace, gralloc1_error) state" where
  "call_setDimensions env d w h =
     call (\<lambda>tr. dev_setDimensions (env_dev env) tr d w h) (SetDimensions d w h)"

definition call_setFormat ::
  "gralloc1_env \<Rightarrow> gralloc1_desc \<Rightarrow> i32 \<Rightarrow> (gr_trace, gralloc1_error) state" where
  "call_setFormat env d f = call (\<lambda>tr. dev_setFormat (env_dev env) tr d f) (SetFormat d f)"

definition call_setLayerCount ::
  "gralloc1_env \<Rightarrow> gralloc1_desc \<Rightarrow> u32 \<Rightarrow> (gr_trace, gralloc1_error) state" where
  "call_setLayerCount env d n = call (\<lambda>tr. dev_setLayerCount (env_dev env) tr d n) (SetLayerCount d n)"

definition call_setProducerUsage ::
  "gralloc1_env \<Rightarrow> gralloc1_desc \<Rightarrow> u64 \<Rightarrow> (gr_trace, gralloc1_error) state" where
  "call_setProducerUsage env d u =
     call (\<lambda>tr. dev_setProducerUsage (env_dev env) tr d u) (SetProducerUsage d u)"

definition call_setConsumerUsage ::
  "gralloc1_env \<Rightarrow> gralloc1_desc \<Rightarrow> u64 \<Rightarrow> (gr_trace, gralloc1_error) state" where
  "call_setConsumerUsage env d u =
     call (\<lambda>tr. dev_setConsumerUsage (env_dev env) tr d u) (SetConsumerUsage d u)"

definition call_allocate ::
  "gralloc1_env \<Rightarrow> gralloc1_desc \<Rightarrow> native_handle \<Rightarrow> (gr_trace, gralloc1_error \<times> native_handle) state" where
  "call_allocate env d buffer =
     call (\<lambda>tr. let (e, out) = dev_allocate (env_dev env) tr d
               in (e, case out of None \<Rightarrow> buffer | Some h \<Rightarrow> h))
          (\<lambda>(e, h). Allocate1 d e h)"

definition call_getStride ::
  "gralloc1_env \<Rightarrow> native_handle \<Rightarrow> u32 \<Rightarrow> (gr_trace, gralloc1_error \<times> u32) state" where
  "call_getStride env h stride =
     call (\<lambda>tr. let (e, out) = dev_getStride (env_dev env) tr h
               in (e, case out of None \<Rightarrow> stride | Some s \<Rightarrow> s))
          (\<lambda>(e, s). GetStride h e s)"

definition call_release :: "gralloc1_env \<Rightarrow> native_handle \<Rightarrow> (gr_trace, gralloc1_error) state" where
  "call_release env h = call (\<lambda>tr. dev_release (env_dev env) tr h) (Release h)"

definition call_getCapabilities ::
  "gralloc1_env \<Rightarrow> u32 \<Rightarrow> i32 list option \<Rightarrow> (gr_trace, u32 \<times> i32 list) state" where
  "call_getCapabilities env cnt caps =
     call (\<lambda>tr. let (cnt', written) = dev_getCapabilities (env_dev env) tr cnt caps
               in (cnt', case caps of None \<Rightarrow> [] | Some b \<Rightarrow> overwrite b written))
          (\<lambda>_. GetCapabilities cnt)"

section \<open>Opening the device\<close>

definition initCapabilities :: "gralloc1_env \<Rightarrow> gralloc1_hal \<Rightarrow> (gr_trace, gralloc1_hal) state" where
  "initCapabilities env hal =
     do {
       (cnt, _) \<leftarrow> call_getCapabilities env 0 None;
       (cnt, capabilities) \<leftarrow> call_getCapabilities env cnt (Some (replicate (unat cnt) 0));
       return (if env_layeredBuffers env \<in> set (vec_resize 0 (unat cnt) capabilities)
               then hal\<lparr>mCapabilities_layeredBuffers := True\<rparr> else hal)
     }"

text \<open>\<open>initDispatch(desc, outPfn)\<close> for one function, and the short-circuit chain over several.\<close>

definition initDispatch1 ::
  "gralloc1_env \<Rightarrow> gralloc1_function \<Rightarrow> gralloc1_hal \<Rightarrow> (gr_trace, bool \<times> gralloc1_hal) state" where
  "initDispatch1 env desc hal =
     do {
       pfn \<leftarrow> call (\<lambda>tr. dev_getFunction (env_dev env) tr desc) (GetFunction desc);
       if pfn then return (True, hal\<lparr>mDispatch := desc # mDispatch hal\<rparr>) else return (False, hal)
     }"

primrec initDispatchAll ::
  "gralloc1_env \<Rightarrow> gralloc1_function list \<Rightarrow> gralloc1_hal \<Rightarrow> (gr_trace, bool \<times> gralloc1_hal) state" where
  "initDispatchAll env [] hal = return (True, hal)"
| "initDispatchAll env (desc # descs) hal =
     do {
       (ok, hal) \<leftarrow> initDispatch1 env desc hal;
       if ok then initDispatchAll env descs hal else return (False, hal)
     }"

definition required_functions :: "gralloc1_function list" where
  "required_functions =
     [GRALLOC1_FUNCTION_DUMP, GRALLOC1_FUNCTION_CREATE_DESCRIPTOR,
      GRALLOC1_FUNCTION_DESTROY_DESCRIPTOR, GRALLOC1_FUNCTION_SET_DIMENSIONS,
      GRALLOC1_FUNCTION_SET_FORMAT, GRALLOC1_FUNCTION_SET_CONSUMER_USAGE,
      GRALLOC1_FUNCTION_SET_PRODUCER_USAGE, GRALLOC1_FUNCTION_GET_STRIDE,
      GRALLOC1_FUNCTION_ALLOCATE, GRALLOC1_FUNCTION_RELEASE]"

definition initDispatch :: "gralloc1_env \<Rightarrow> gralloc1_hal \<Rightarrow> (gr_trace, bool \<times> gralloc1_hal) state" where
  "initDispatch env hal =
     do {
       (ok, hal) \<leftarrow> initDispatchAll env required_functions hal;
       if \<not> ok then return (False, hal)
       else if mCapabilities_layeredBuffers hal
       then initDispatch1 env GRALLOC1_FUNCTION_SET_LAYER_COUNT hal
       else return (True, hal)
     }"

definition gralloc1_close :: "(gr_trace, unit) state" where
  "gralloc1_close = call (\<lambda>_. ()) (\<lambda>_. Close1)"

definition initWithModule :: "gralloc1_env \<Rightarrow> gralloc1_hal \<Rightarrow> (gr_trace, bool \<times> gralloc1_hal) state" where
  "initWithModule env hal =
     do {
       result \<leftarrow> call (dev_open (env_dev env)) Open1;
       if result \<noteq> 0 then return (False, hal\<lparr>mDevice := False\<rparr>)
       else do {
         hal \<leftarrow> initCapabilities env (hal\<lparr>mDevice := True\<rparr>);
         (ok, hal) \<leftarrow> initDispatch env hal;
         if \<not> ok then do {
           gralloc1_close;
           return (False, hal\<lparr>mDevice := False\<rparr>)
         } else return (True, hal)
       }
     }"

definition gralloc1_destructor :: "gralloc1_hal \<Rightarrow> (gr_trace, unit) state" where
  "gralloc1_destructor hal = (if mDevice hal then gralloc1_close else return ())"

section \<open>Descriptors and buffers\<close>

definition createDescriptor ::
  "gralloc1_env \<Rightarrow> gralloc1_hal \<Rightarrow> BufferDescriptorInfo \<Rightarrow> gralloc1_desc \<Rightarrow>
   (gr_trace, Error \<times> gralloc1_desc) state" where
  "createDescriptor env hal info outDescriptor =
     do {
       (error, descriptor) \<leftarrow> call_createDescriptor env (loc_descriptor (env_locals env));
       error \<leftarrow> (if error = GRALLOC1_ERROR_NONE
                 then call_setDimensions env descriptor (bd_width info) (bd_height info)
                 else return error);
       error \<leftarrow> (if error = GRALLOC1_ERROR_NONE
                 then call_setFormat env descriptor (bd_format info) else return error);
       error \<leftarrow> (if error = GRALLOC1_ERROR_NONE
                 then if mCapabilities_layeredBuffers hal
                      then call_setLayerCount env descriptor (bd_layerCount info)
                      else if 1 < bd_layerCount info then return GRALLOC1_ERROR_UNSUPPORTED
                      else return error
                 else return error);
       error \<leftarrow> (if error = GRALLOC1_ERROR_NONE
                 then call_setProducerUsage env descriptor (toProducerUsage (env_abi env) (bd_usage info))
                 else return error);
       error \<leftarrow> (if error = GRALLOC1_ERROR_NONE
                 then call_setConsumerUsage env descriptor (toConsumerUsage (env_abi env) (bd_usage info))
                 else return error);
       if error = GRALLOC1_ERROR_NONE then return (toError error, descriptor)
       else do {
         call_destroyDescriptor descriptor;
         return (toError error, outDescriptor)
       }
     }"

definition allocateOneBuffer ::
  "gralloc1_env \<Rightarrow> gralloc1_desc \<Rightarrow> native_handle \<times> u32 \<Rightarrow>
   (gr_trace, Error \<times> native_handle \<times> u32) state" where
  "allocateOneBuffer env descriptor out =
     do {
       (error, buffer) \<leftarrow> call_allocate env descriptor 0;
       if error \<noteq> GRALLOC1_ERROR_NONE \<and> error \<noteq> GRALLOC1_ERROR_NOT_SHARED
       then return (toError error, out)
       else do {
         (error, stride) \<leftarrow> call_getStride env buffer 0;
         if error \<noteq> GRALLOC1_ERROR_NONE \<and> error \<noteq> GRALLOC1_ERROR_UNDEFINED
         then do {
           _ \<leftarrow> call_release env buffer;
           return (toError error, out)
         } else return (NONE, buffer, stride)
       }
     }"

primrec freeBuffers :: "gralloc1_env \<Rightarrow> native_handle list \<Rightarrow> (gr_trace, unit) state" where
  "freeBuffers env [] = return ()"
| "freeBuffers env (buffer # buffers) =
     do {
       _ \<leftarrow> call_release env buffer;
       freeBuffers env buffers
     }"

definition allocateBuffers ::
  "gralloc1_env \<Rightarrow> gralloc1_hal \<Rightarrow> BufferDescriptor \<Rightarrow> u32 \<Rightarrow>
   (gr_trace, Error + u32 \<times> native_handle list) state" where
  "allocateBuffers env hal descriptor cnt =
     (case env_decode env descriptor of
        None \<Rightarrow> return (Inl BAD_DESCRIPTOR)
      | Some descriptorInfo \<Rightarrow>
          do {
            (error, desc) \<leftarrow> createDescriptor env hal descriptorInfo (loc_desc (env_locals env));
            if error \<noteq> NONE then return (Inl error)
            else do {
              (error, stride, buffers) \<leftarrow>
                allocLoop (\<lambda>i. allocateOneBuffer env desc
                                (loc_tmpBuffer (env_locals env) i, loc_tmpStride (env_locals env) i))
                  (unat cnt) 0 0 [];
              call_destroyDescriptor desc;
              if error \<noteq> NONE then do {
                freeBuffers env buffers;
                return (Inl error)
              } else return (Inr (stride, buffers))
            }
          })"

text \<open>\<open>len + 1\<close> is 32-bit arithmetic; \<open>buf[len]\<close> of the resized vector is in range unless it wrapped;
  the device fills a buffer of \<open>len + 1\<close> bytes and is told \<open>len\<close>.\<close>

definition dumpDebugInfo :: "gralloc1_env \<Rightarrow> (gr_trace, string option) state" where
  "dumpDebugInfo env =
     do {
       (len, _) \<leftarrow> call_dump env 0 None;
       (len, buf) \<leftarrow> call_dump env len (Some (replicate (unat (len + 1)) NUL));
       return (case buf of
                 None \<Rightarrow> None
               | Some buf \<Rightarrow>
                   (let buf = vec_resize NUL (unat (len + 1)) buf
                    in if unat len < length buf then Some (c_str (buf[unat len := NUL])) else None))
     }"

definition gralloc1_as_hal :: "gralloc1_env \<times> gralloc1_hal \<Rightarrow> AllocatorHal" where
  "gralloc1_as_hal eh =
     \<lparr>hal_dumpDebugInfo = dumpDebugInfo (fst eh),
      hal_allocateBuffers = allocateBuffers (fst eh) (snd eh),
      hal_freeBuffers = freeBuffers (fst eh)\<rparr>"

section \<open>What the device is documented to do\<close>

text \<open>gralloc1.h lists \<open>NOT_SHARED\<close> as a result of \<open>allocate\<close> only.\<close>

definition not_shared_only_from_allocate :: "gralloc1_device \<Rightarrow> bool" where
  "not_shared_only_from_allocate dev \<longleftrightarrow>
     (\<forall>tr. fst (dev_createDescriptor dev tr) \<noteq> GRALLOC1_ERROR_NOT_SHARED) \<and>
     (\<forall>tr d w h. dev_setDimensions dev tr d w h \<noteq> GRALLOC1_ERROR_NOT_SHARED) \<and>
     (\<forall>tr d f. dev_setFormat dev tr d f \<noteq> GRALLOC1_ERROR_NOT_SHARED) \<and>
     (\<forall>tr d n. dev_setLayerCount dev tr d n \<noteq> GRALLOC1_ERROR_NOT_SHARED) \<and>
     (\<forall>tr d u. dev_setProducerUsage dev tr d u \<noteq> GRALLOC1_ERROR_NOT_SHARED) \<and>
     (\<forall>tr d u. dev_setConsumerUsage dev tr d u \<noteq> GRALLOC1_ERROR_NOT_SHARED) \<and>
     (\<forall>tr h. fst (dev_getStride dev tr h) \<noteq> GRALLOC1_ERROR_NOT_SHARED)"

text \<open>A successful \<open>createDescriptor\<close>, \<open>allocate\<close> writes its out parameter.\<close>

definition create_writes_descriptor :: "gralloc1_device \<Rightarrow> bool" where
  "create_writes_descriptor dev \<longleftrightarrow>
     (\<forall>tr. fst (dev_createDescriptor dev tr) = GRALLOC1_ERROR_NONE \<longrightarrow>
           snd (dev_createDescriptor dev tr) \<noteq> None)"

definition gralloc1_contract :: "gralloc1_env \<times> gralloc1_hal \<Rightarrow> bool" where
  "gralloc1_contract eh \<longleftrightarrow> not_shared_only_from_allocate (env_dev (fst eh))"

fun event_function :: "gr_event \<Rightarrow> gralloc1_function option" where
  "event_function (Dump1 _) = Some GRALLOC1_FUNCTION_DUMP"
| "event_function (CreateDescriptor _ _) = Some GRALLOC1_FUNCTION_CREATE_DESCRIPTOR"
| "event_function (DestroyDescriptor _) = Some GRALLOC1_FUNCTION_DESTROY_DESCRIPTOR"
| "event_function (SetDimensions _ _ _ _) = Some GRALLOC1_FUNCTION_SET_DIMENSIONS"
| "event_function (SetFormat _ _ _) = Some GRALLOC1_FUNCTION_SET_FORMAT"
| "event_function (SetLayerCount _ _ _) = Some GRALLOC1_FUNCTION_SET_LAYER_COUNT"
| "event_function (SetProducerUsage _ _ _) = Some GRALLOC1_FUNCTION_SET_PRODUCER_USAGE"
| "event_function (SetConsumerUsage _ _ _) = Some GRALLOC1_FUNCTION_SET_CONSUMER_USAGE"
| "event_function (Allocate1 _ _ _) = Some GRALLOC1_FUNCTION_ALLOCATE"
| "event_function (GetStride _ _ _) = Some GRALLOC1_FUNCTION_GET_STRIDE"
| "event_function (Release _ _) = Some GRALLOC1_FUNCTION_RELEASE"
| "event_function _ = None"

definition through_table :: "gralloc1_hal \<Rightarrow> gr_event \<Rightarrow> bool" where
  "through_table hal e \<longleftrightarrow>
     (case event_function e of None \<Rightarrow> True | Some f \<Rightarrow> f \<in> set (mDispatch hal))"

definition hal_ready :: "gralloc1_hal \<Rightarrow> bool" where
  "hal_ready hal \<longleftrightarrow> mDevice hal \<and> set required_functions \<subseteq> set (mDispatch hal) \<and>
     (mCapabilities_layeredBuffers hal \<longrightarrow> GRALLOC1_FUNCTION_SET_LAYER_COUNT \<in> set (mDispatch hal))"

section \<open>Lemmas\<close>

lemmas call_defs = call_dump_def call_createDescriptor_def call_destroyDescriptor_def
  call_setDimensions_def call_setFormat_def call_setLayerCount_def call_setProducerUsage_def
  call_setConsumerUsage_def call_allocate_def call_getStride_def call_release_def
  call_getCapabilities_def

lemma emits_calls [emits_rules]:
  "(\<And>n. P (Dump1 n)) \<Longrightarrow> emits P (call_dump env len buf)"
  "(\<And>e d. P (CreateDescriptor e d)) \<Longrightarrow> emits P (call_createDescriptor env dd)"
  "(\<And>d. P (DestroyDescriptor d)) \<Longrightarrow> emits P (call_destroyDescriptor dd)"
  "(\<And>d w h e. P (SetDimensions d w h e)) \<Longrightarrow> emits P (call_setDimensions env dd ww wh)"
  "(\<And>d f e. P (SetFormat d f e)) \<Longrightarrow> emits P (call_setFormat env dd ff)"
  "(\<And>d n e. P (SetLayerCount d n e)) \<Longrightarrow> emits P (call_setLayerCount env dd nn)"
  "(\<And>d u e. P (SetProducerUsage d u e)) \<Longrightarrow> emits P (call_setProducerUsage env dd uu)"
  "(\<And>d u e. P (SetConsumerUsage d u e)) \<Longrightarrow> emits P (call_setConsumerUsage env dd uu)"
  "(\<And>d e h. P (Allocate1 d e h)) \<Longrightarrow> emits P (call_allocate env dd hh)"
  "(\<And>h e s. P (GetStride h e s)) \<Longrightarrow> emits P (call_getStride env hh ss)"
  "(\<And>h e. P (Release h e)) \<Longrightarrow> emits P (call_release env hh)"
  "(\<And>n. P (GetCapabilities n)) \<Longrightarrow> emits P (call_getCapabilities env nn caps)"
  by (auto simp: call_defs intro!: emits_call split: prod.split)

lemma emits_createDescriptor:
  assumes "\<And>e d. P (CreateDescriptor e d)" "\<And>d. P (DestroyDescriptor d)"
    "\<And>d w h e. P (SetDimensions d w h e)" "\<And>d f e. P (SetFormat d f e)"
    "\<And>d n e. mCapabilities_layeredBuffers hal \<Longrightarrow> P (SetLayerCount d n e)"
    "\<And>d u e. P (SetProducerUsage d u e)" "\<And>d u e. P (SetConsumerUsage d u e)"
  shows "emits P (createDescriptor env hal info out)"
  unfolding createDescriptor_def
  by (auto intro!: emits_rules assms simp del: run_state_bind)

lemma emits_allocateOneBuffer:
  assumes "\<And>d e h. P (Allocate1 d e h)" "\<And>h e s. P (GetStride h e s)" "\<And>h e. P (Release h e)"
  shows "emits P (allocateOneBuffer env d out)"
  unfolding allocateOneBuffer_def by (auto intro!: emits_rules assms split: prod.split)

lemma emits_freeBuffers: "(\<And>h e. P (Release h e)) \<Longrightarrow> emits P (freeBuffers env bs)"
  by (induction bs) (auto intro!: emits_rules)

lemma emits_allocateBuffers:
  assumes "\<And>e d. P (CreateDescriptor e d)" "\<And>d. P (DestroyDescriptor d)"
    "\<And>d w h e. P (SetDimensions d w h e)" "\<And>d f e. P (SetFormat d f e)"
    "\<And>d n e. mCapabilities_layeredBuffers hal \<Longrightarrow> P (SetLayerCount d n e)"
    "\<And>d u e. P (SetProducerUsage d u e)" "\<And>d u e. P (SetConsumerUsage d u e)"
    "\<And>d e h. P (Allocate1 d e h)" "\<And>h e s. P (GetStride h e s)" "\<And>h e. P (Release h e)"
  shows "emits P (allocateBuffers env hal d n)"
  unfolding allocateBuffers_def
  by (auto intro!: emits_rules emits_createDescriptor emits_allocateOneBuffer emits_freeBuffers assms
      split: prod.split option.split)

lemma emits_dumpDebugInfo: "(\<And>n. P (Dump1 n)) \<Longrightarrow> emits P (dumpDebugInfo env)"
  unfolding dumpDebugInfo_def by (auto intro!: emits_rules simp: Let_def split: prod.split)

lemma getStride_not_shared:
  "not_shared_only_from_allocate dev \<Longrightarrow> dev_getStride dev tr h = (GRALLOC1_ERROR_NOT_SHARED, x) \<Longrightarrow> False"
  unfolding not_shared_only_from_allocate_def by (metis fst_conv)

lemma create_not_shared:
  "not_shared_only_from_allocate dev \<Longrightarrow> dev_createDescriptor dev tr = (GRALLOC1_ERROR_NOT_SHARED, x) \<Longrightarrow> False"
  unfolding not_shared_only_from_allocate_def by (metis fst_conv)

lemma allocateOneBuffer_owns:
  assumes "not_shared_only_from_allocate (env_dev env)"
    and "run_state (allocateOneBuffer env d out) tr = ((e, h, t), tr')" "outstanding tr = Some M"
  shows "outstanding tr' = Some (if e = NONE then add_mset h M else M)"
  using assms(2,3)
  by (auto simp: allocateOneBuffer_def call_defs toError_NONE_iff split: prod.splits if_splits
      dest: getStride_not_shared [OF assms(1)])

lemma createDescriptor_owns:
  "run_state (createDescriptor env hal info out) tr = (r, tr') \<Longrightarrow> outstanding tr' = outstanding tr"
  by (rule extends_by_idle, erule emits_run [rotated], rule emits_createDescriptor) auto

lemma freeBuffers_owns:
  "outstanding tr = Some (M + mset bs) \<Longrightarrow> run_state (freeBuffers env bs) tr = (r, tr') \<Longrightarrow>
   outstanding tr' = Some M"
proof (induction bs arbitrary: tr)
  case Nil
  then show ?case by simp
next
  case (Cons b bs)
  let ?tr = "tr @ [Release b (dev_release (env_dev env) tr b)]"
  have "outstanding ?tr = Some (M + mset bs)" using Cons.prems(1) by simp
  moreover have "run_state (freeBuffers env bs) ?tr = (r, tr')"
    using Cons.prems(2) by (simp add: call_release_def)
  ultimately show ?case by (rule Cons.IH)
qed

lemma freeBuffers_descs: "run_state (freeBuffers env bs) tr = (r, tr') \<Longrightarrow> live_descs tr' = live_descs tr"
  by (rule extends_by_idle, erule emits_run [rotated], rule emits_freeBuffers) auto

text \<open>\<open>createDescriptor\<close>, when the device hands out a descriptor: the descriptor is live exactly
  when the call succeeds. When the device refuses, the local that was never written is destroyed.\<close>

lemma createDescriptor_descs:
  assumes "run_state (createDescriptor env hal info out) tr = ((e, d), tr')"
    and "fst (dev_createDescriptor (env_dev env) tr) = GRALLOC1_ERROR_NONE"
    and "live_descs tr = Some M" and "not_shared_only_from_allocate (env_dev env)"
  shows "live_descs tr' = Some (if e = NONE then add_mset d M else M)"
  using assms(1-3) assms(4) [unfolded not_shared_only_from_allocate_def]
  by (auto simp: createDescriptor_def call_defs toError_NONE_iff split: prod.splits if_splits)

lemma createDescriptor_refused:
  assumes "dev_createDescriptor (env_dev env) tr = (err, x)" and "err \<noteq> GRALLOC1_ERROR_NONE"
  defines "d \<equiv> (case x of None \<Rightarrow> loc_descriptor (env_locals env) | Some d \<Rightarrow> d)"
  shows "run_state (createDescriptor env hal info out) tr =
           ((toError err, out), tr @ [CreateDescriptor err d, DestroyDescriptor d])"
  using assms by (simp add: createDescriptor_def call_defs)

lemma allocateOneBuffer_descs:
  assumes "run_state (allocateOneBuffer env d out) tr = (r, tr')"
    and "live_descs tr = Some M" and "d \<in># M"
  shows "live_descs tr' = Some M"
  using assms by (auto simp: allocateOneBuffer_def call_defs split: prod.splits if_splits)

lemma alloc_loop_descs:
  assumes "run_state (allocLoop (\<lambda>i. allocateOneBuffer env d (out i)) n i stride bs) tr = (r, tr')"
    and "live_descs tr = Some M" and "d \<in># M"
  shows "live_descs tr' = Some M"
  using assms
  by (intro allocLoop_inv [where I = "\<lambda>tr. live_descs tr = Some M", rotated, OF assms(1)])
     (auto intro: allocateOneBuffer_descs)

lemmas agrees_bind_error = agrees_bind [where Q = "\<lambda>e. e \<noteq> GRALLOC1_ERROR_NOT_SHARED"]

lemma calls_not_shared:
  assumes "not_shared_only_from_allocate (env_dev env)"
  shows "fst (fst (run_state (call_createDescriptor env d) tr)) \<noteq> GRALLOC1_ERROR_NOT_SHARED"
    "fst (run_state (call_setDimensions env d w h) tr) \<noteq> GRALLOC1_ERROR_NOT_SHARED"
    "fst (run_state (call_setFormat env d f) tr) \<noteq> GRALLOC1_ERROR_NOT_SHARED"
    "fst (run_state (call_setLayerCount env d n) tr) \<noteq> GRALLOC1_ERROR_NOT_SHARED"
    "fst (run_state (call_setProducerUsage env d u) tr) \<noteq> GRALLOC1_ERROR_NOT_SHARED"
    "fst (run_state (call_setConsumerUsage env d u) tr) \<noteq> GRALLOC1_ERROR_NOT_SHARED"
  using assms unfolding not_shared_only_from_allocate_def
  by (simp_all add: call_defs case_prod_unfold Let_def)

lemma createDescriptor_agrees:
  assumes "not_shared_only_from_allocate (env_dev env)"
    and "dev_createDescriptor (env_dev env) tr = (GRALLOC1_ERROR_NONE, Some d)"
  shows "agrees_at tr (createDescriptor env hal info out)
           (createDescriptor (env\<lparr>env_locals := locals'\<rparr>) hal info out')"
  unfolding createDescriptor_def case_prod_unfold
  by (intro agrees_at_bind [where Q = "\<lambda>x. fst x \<noteq> GRALLOC1_ERROR_NOT_SHARED"] agrees_bind_error)
     (use calls_not_shared [OF assms(1)] assms(2) in
       \<open>simp_all add: call_defs agrees_def agrees_at_def toError_NONE_iff\<close>)

lemma allocateOneBuffer_agrees:
  assumes "not_shared_only_from_allocate (env_dev env)"
  shows "agrees (allocateOneBuffer env d out) (allocateOneBuffer (env\<lparr>env_locals := locals'\<rparr>) d out')"
  by (auto simp: agrees_def agrees_at_def allocateOneBuffer_def call_defs toError_NONE_iff split: prod.splits
      dest: getStride_not_shared [OF assms])

text \<open>Strides reported by the device for the buffers a loop keeps.\<close>

fun stride_of :: "gr_event \<Rightarrow> u32 list" where
  "stride_of (GetStride _ e s) =
     (if e = GRALLOC1_ERROR_NONE \<or> e = GRALLOC1_ERROR_UNDEFINED then [s] else [])"
| "stride_of _ = []"

definition strides_reported :: "gr_trace \<Rightarrow> u32 list" where
  "strides_reported tr = concat (map stride_of tr)"

lemma allocateOneBuffer_strides:
  assumes "not_shared_only_from_allocate (env_dev env)"
    and "run_state (allocateOneBuffer env d out) tr = ((e, h, t), tr')"
  shows "strides_reported tr' = strides_reported tr @ (if e = NONE then [t] else [])"
  using assms(2)
  by (auto simp: allocateOneBuffer_def call_defs toError_NONE_iff strides_reported_def
      split: prod.splits if_splits dest: getStride_not_shared [OF assms(1)])

lemma createDescriptor_strides:
  "run_state (createDescriptor env hal info out) tr = (r, tr') \<Longrightarrow>
   strides_reported tr' = strides_reported tr"
  by (drule emits_run [OF emits_createDescriptor [where P = "\<lambda>e. stride_of e = []"], rotated -1])
     (auto simp: extends_by_def strides_reported_def list_all_iff)

text \<open>A ready HAL has loaded every function but the optional one, which it needs for layered buffers only.\<close>

lemma required_functions_complete:
  "\<forall>f. f \<in> set required_functions \<longleftrightarrow> f \<noteq> GRALLOC1_FUNCTION_SET_LAYER_COUNT"
  by code_simp

lemma hal_ready_iff:
  "hal_ready hal \<longleftrightarrow> mDevice hal \<and>
     (\<forall>f. f \<in> set (mDispatch hal) \<or> f = GRALLOC1_FUNCTION_SET_LAYER_COUNT \<and> \<not> mCapabilities_layeredBuffers hal)"
  using required_functions_complete unfolding hal_ready_def by blast

lemma hal_ready_table:
  assumes "hal_ready hal"
  shows "emits (through_table hal) (allocateBuffers env hal d n)"
    "emits (through_table hal) (freeBuffers env bs)"
    "emits (through_table hal) (dumpDebugInfo env)"
  using assms
  by (auto intro!: emits_allocateBuffers emits_freeBuffers emits_dumpDebugInfo
      simp: hal_ready_iff through_table_def)


text \<open>\<open>allocateBuffers\<close> in terms of its two phases.\<close>

lemma allocateBuffers_run:
  assumes "env_decode env d = Some info"
    and "run_state (createDescriptor env hal info (loc_desc (env_locals env))) tr = ((e, desc), tr1)"
    and "run_state (allocLoop (\<lambda>i. allocateOneBuffer env desc
           (loc_tmpBuffer (env_locals env) i, loc_tmpStride (env_locals env) i)) (unat n) 0 0 []) tr1 =
         ((e2, stride, bs), tr2)"
  defines "tr3 \<equiv> tr2 @ [DestroyDescriptor desc]"
  shows "run_state (allocateBuffers env hal d n) tr =
     (if e \<noteq> NONE then (Inl e, tr1)
      else if e2 \<noteq> NONE then (Inl e2, snd (run_state (freeBuffers env bs) tr3))
      else (Inr (stride, bs), tr3))"
  using assms by (simp add: allocateBuffers_def call_destroyDescriptor_def case_prod_unfold)

lemma allocateBuffers_cases:
  assumes "run_state (allocateBuffers env hal d n) tr = (r, tr')"
  obtains (undecodable) "env_decode env d = None" "r = Inl BAD_DESCRIPTOR" "tr' = tr"
  | (no_descriptor) info e desc where "env_decode env d = Some info" "e \<noteq> NONE" "r = Inl e"
      "run_state (createDescriptor env hal info (loc_desc (env_locals env))) tr = ((e, desc), tr')"
  | (failed) info desc tr1 e stride bs tr2 where "env_decode env d = Some info"
      "run_state (createDescriptor env hal info (loc_desc (env_locals env))) tr = ((NONE, desc), tr1)"
      "run_state (allocLoop (\<lambda>i. allocateOneBuffer env desc
           (loc_tmpBuffer (env_locals env) i, loc_tmpStride (env_locals env) i)) (unat n) 0 0 []) tr1 =
         ((e, stride, bs), tr2)"
      "e \<noteq> NONE" "r = Inl e" "run_state (freeBuffers env bs) (tr2 @ [DestroyDescriptor desc]) = ((), tr')"
  | (allocated) info desc tr1 stride bs tr2 where "env_decode env d = Some info"
      "run_state (createDescriptor env hal info (loc_desc (env_locals env))) tr = ((NONE, desc), tr1)"
      "run_state (allocLoop (\<lambda>i. allocateOneBuffer env desc
           (loc_tmpBuffer (env_locals env) i, loc_tmpStride (env_locals env) i)) (unat n) 0 0 []) tr1 =
         ((NONE, stride, bs), tr2)"
      "r = Inr (stride, bs)" "tr' = tr2 @ [DestroyDescriptor desc]"
proof (cases "env_decode env d")
  case None
  with assms undecodable show thesis by (simp add: allocateBuffers_def)
next
  case (Some info)
  obtain e desc tr1 where create:
    "run_state (createDescriptor env hal info (loc_desc (env_locals env))) tr = ((e, desc), tr1)"
    by (rule run_state_obtain2)
  obtain e2 stride bs tr2 where loop:
    "run_state (allocLoop (\<lambda>i. allocateOneBuffer env desc
       (loc_tmpBuffer (env_locals env) i, loc_tmpStride (env_locals env) i)) (unat n) 0 0 []) tr1 =
     ((e2, stride, bs), tr2)"
    by (rule run_state_obtain3)
  note run = allocateBuffers_run [OF Some create loop, unfolded assms]
  consider "e \<noteq> NONE" | "e = NONE" "e2 \<noteq> NONE" | "e = NONE" "e2 = NONE" by blast
  then show thesis
  proof cases
    case 1
    with run no_descriptor Some create show thesis by simp
  next
    case 2
    with run failed Some create loop show thesis by (simp add: prod_eq_iff)
  next
    case 3
    with run allocated Some create loop show thesis by simp
  qed
qed

lemma allocateBuffers_owns:
  assumes "not_shared_only_from_allocate (env_dev env)"
    and "run_state (allocateBuffers env hal d n) tr = (r, tr')" and "outstanding tr = Some M"
  shows "outstanding tr' = Some (case r of Inl _ \<Rightarrow> M | Inr (stride, bs) \<Rightarrow> M + mset bs)"
  using assms(2)
proof (cases rule: allocateBuffers_cases)
  case undecodable
  with assms(3) show ?thesis by simp
next
  case no_descriptor
  with assms(3) createDescriptor_owns show ?thesis by fastforce
next
  case (failed info desc tr1 e stride bs tr2)
  with assms(3) createDescriptor_owns have "outstanding tr1 = Some (M + mset [])" by fastforce
  from allocLoop_owns [OF _ failed(3) this] allocateOneBuffer_owns [OF assms(1)]
  have "outstanding (tr2 @ [DestroyDescriptor desc]) = Some (M + mset bs)" by simp
  from freeBuffers_owns [OF this failed(6)] failed(5) show ?thesis by simp
next
  case (allocated info desc tr1 stride bs tr2)
  with assms(3) createDescriptor_owns have "outstanding tr1 = Some (M + mset [])" by fastforce
  from allocLoop_owns [OF _ allocated(3) this] allocateOneBuffer_owns [OF assms(1)] allocated(4,5)
  show ?thesis by simp
qed

lemma allocateBuffers_descs:
  assumes "not_shared_only_from_allocate (env_dev env)"
    and "fst (dev_createDescriptor (env_dev env) tr) = GRALLOC1_ERROR_NONE"
    and "run_state (allocateBuffers env hal d n) tr = (r, tr')" and "live_descs tr = Some M"
  shows "live_descs tr' = Some M"
  using assms(3)
proof (cases rule: allocateBuffers_cases)
  case undecodable
  with assms(4) show ?thesis by simp
next
  case (no_descriptor info e desc)
  from createDescriptor_descs [OF no_descriptor(4) assms(2,4,1)] no_descriptor(2) show ?thesis by simp
next
  case (failed info desc tr1 e stride bs tr2)
  from createDescriptor_descs [OF failed(2) assms(2,4,1)] alloc_loop_descs [OF failed(3)]
  have "live_descs (tr2 @ [DestroyDescriptor desc]) = Some M" by simp
  with freeBuffers_descs [OF failed(6)] show ?thesis by simp
next
  case (allocated info desc tr1 stride bs tr2)
  from createDescriptor_descs [OF allocated(2) assms(2,4,1)] alloc_loop_descs [OF allocated(3)]
    allocated(5)
  show ?thesis by simp
qed

lemma allocateBuffers_length:
  "run_state (allocateBuffers env hal d n) tr = (Inr (stride, bs), tr') \<Longrightarrow> length bs = unat n"
  by (erule allocateBuffers_cases) (auto dest: allocLoop_length)

lemma allocateBuffers_err_code:
  "run_state (allocateBuffers env hal d n) tr = (Inl err, tr') \<Longrightarrow> err \<noteq> NONE"
  by (erule allocateBuffers_cases) auto

interpretation gralloc1: allocator_hal gralloc1_as_hal gralloc1_contract
proof unfold_locales
  fix eh d n tr stride bs tr' M
  assume "gralloc1_contract eh" "outstanding tr = Some M"
    "run_state (hal_allocateBuffers (gralloc1_as_hal eh) d n) tr = (Inr (stride, bs), tr')"
  then show "outstanding tr' = Some (M + mset bs)"
    by (auto simp: gralloc1_contract_def gralloc1_as_hal_def dest: allocateBuffers_owns)
next
  fix eh d n tr err tr' M
  assume "gralloc1_contract eh" "outstanding tr = Some M"
    "run_state (hal_allocateBuffers (gralloc1_as_hal eh) d n) tr = (Inl err, tr')"
  then show "outstanding tr' = Some M"
    by (auto simp: gralloc1_contract_def gralloc1_as_hal_def dest: allocateBuffers_owns)
qed (auto simp: gralloc1_as_hal_def is_reply_def uses_device_def dest: allocateBuffers_length allocateBuffers_err_code
      freeBuffers_owns intro!: emits_allocateBuffers emits_freeBuffers emits_dumpDebugInfo)

lemma emits_initCapabilities: "(\<And>n. P (GetCapabilities n)) \<Longrightarrow> emits P (initCapabilities env hal)"
  unfolding initCapabilities_def by (auto intro!: emits_rules split: prod.split)

lemma emits_initDispatch1: "(\<And>f b. P (GetFunction f b)) \<Longrightarrow> emits P (initDispatch1 env f hal)"
  unfolding initDispatch1_def by (auto intro!: emits_rules)

lemma emits_initDispatchAll: "(\<And>f b. P (GetFunction f b)) \<Longrightarrow> emits P (initDispatchAll env fs hal)"
  by (induction fs arbitrary: hal) (auto intro!: emits_rules emits_initDispatch1 split: prod.split)

lemma emits_initDispatch: "(\<And>f b. P (GetFunction f b)) \<Longrightarrow> emits P (initDispatch env hal)"
  unfolding initDispatch_def
  by (auto intro!: emits_rules emits_initDispatch1 emits_initDispatchAll split: prod.split)

lemma initCapabilities_state:
  "run_state (initCapabilities env hal) tr = (hal', tr') \<Longrightarrow>
   mDevice hal' = mDevice hal \<and> mDispatch hal' = mDispatch hal"
  by (auto simp: initCapabilities_def split: prod.splits if_splits)

lemma initDispatch1_state:
  "run_state (initDispatch1 env f hal) tr = ((ok, hal'), tr') \<Longrightarrow>
   mDevice hal' = mDevice hal \<and> mCapabilities_layeredBuffers hal' = mCapabilities_layeredBuffers hal \<and>
   set (mDispatch hal') = set (mDispatch hal) \<union> (if ok then {f} else {})"
  by (auto simp: initDispatch1_def split: if_splits)

lemma initDispatchAll_state:
  "run_state (initDispatchAll env fs hal) tr = ((ok, hal'), tr') \<Longrightarrow>
   mDevice hal' = mDevice hal \<and> mCapabilities_layeredBuffers hal' = mCapabilities_layeredBuffers hal \<and>
   set (mDispatch hal) \<subseteq> set (mDispatch hal') \<and> (ok \<longrightarrow> set fs \<subseteq> set (mDispatch hal'))"
proof (induction fs arbitrary: hal tr)
  case Nil
  then show ?case by simp
next
  case (Cons f fs)
  obtain ok1 hal1 tr1 where one: "run_state (initDispatch1 env f hal) tr = ((ok1, hal1), tr1)"
    by (rule run_state_obtain2)
  show ?case
  proof (cases ok1)
    case True
    with Cons.prems one have "run_state (initDispatchAll env fs hal1) tr1 = ((ok, hal'), tr')" by simp
    from Cons.IH [OF this] initDispatch1_state [OF one] True show ?thesis by auto
  next
    case False
    with Cons.prems one initDispatch1_state [OF one] show ?thesis by auto
  qed
qed

lemma initDispatch_state:
  assumes "run_state (initDispatch env hal) tr = ((ok, hal'), tr')"
  shows "mDevice hal' = mDevice hal"
    "ok \<Longrightarrow> set required_functions \<subseteq> set (mDispatch hal')"
    "ok \<Longrightarrow> mCapabilities_layeredBuffers hal' \<Longrightarrow> GRALLOC1_FUNCTION_SET_LAYER_COUNT \<in> set (mDispatch hal')"
proof -
  obtain ok1 hal1 tr1 where
    all: "run_state (initDispatchAll env required_functions hal) tr = ((ok1, hal1), tr1)"
    by (rule run_state_obtain2)
  note st = initDispatchAll_state [OF all]
  consider "\<not> ok1" "ok = ok1" "hal' = hal1"
    | "ok1" "\<not> mCapabilities_layeredBuffers hal1" "ok = ok1" "hal' = hal1"
    | "ok1" "mCapabilities_layeredBuffers hal1"
      "run_state (initDispatch1 env GRALLOC1_FUNCTION_SET_LAYER_COUNT hal1) tr1 = ((ok, hal'), tr')"
    using assms all by (auto simp: initDispatch_def split: if_splits)
  then have "mDevice hal' = mDevice hal \<and> (ok \<longrightarrow> set required_functions \<subseteq> set (mDispatch hal')) \<and>
    (ok \<longrightarrow> mCapabilities_layeredBuffers hal' \<longrightarrow> GRALLOC1_FUNCTION_SET_LAYER_COUNT \<in> set (mDispatch hal'))"
  proof cases
    case 3
    from initDispatch1_state [OF this(3)] st 3(1) show ?thesis by auto
  qed (use st in auto)
  then show "mDevice hal' = mDevice hal"
    "ok \<Longrightarrow> set required_functions \<subseteq> set (mDispatch hal')"
    "ok \<Longrightarrow> mCapabilities_layeredBuffers hal' \<Longrightarrow> GRALLOC1_FUNCTION_SET_LAYER_COUNT \<in> set (mDispatch hal')"
    by blast+
qed

lemma initWithModule_cases:
  assumes "run_state (initWithModule env hal) tr = ((ok, hal'), tr')"
  obtains (refused) r where "r \<noteq> 0" "\<not> ok" "hal' = hal\<lparr>mDevice := False\<rparr>" "tr' = tr @ [Open1 r]"
  | (closed) hal1 hal2 tr1 tr2 where "\<not> ok" "hal' = hal2\<lparr>mDevice := False\<rparr>" "tr' = tr2 @ [Close1]"
      "run_state (initCapabilities env (hal\<lparr>mDevice := True\<rparr>)) (tr @ [Open1 0]) = (hal1, tr1)"
      "run_state (initDispatch env hal1) tr1 = ((False, hal2), tr2)"
  | (opened) hal1 tr1 where "ok"
      "run_state (initCapabilities env (hal\<lparr>mDevice := True\<rparr>)) (tr @ [Open1 0]) = (hal1, tr1)"
      "run_state (initDispatch env hal1) tr1 = ((True, hal'), tr')"
proof (cases "dev_open (env_dev env) tr = 0")
  case False
  with assms refused show thesis by (simp add: initWithModule_def)
next
  case True
  obtain hal1 tr1 where
    caps: "run_state (initCapabilities env (hal\<lparr>mDevice := True\<rparr>)) (tr @ [Open1 0]) = (hal1, tr1)"
    by (rule run_state_obtain1)
  obtain ok2 hal2 tr2 where disp: "run_state (initDispatch env hal1) tr1 = ((ok2, hal2), tr2)"
    by (rule run_state_obtain2)
  show thesis
  proof (cases ok2)
    case True
    with assms \<open>dev_open (env_dev env) tr = 0\<close> caps disp opened show thesis
      by (simp add: initWithModule_def)
  next
    case False
    with assms \<open>dev_open (env_dev env) tr = 0\<close> caps disp
    have run: "\<not> ok" "hal' = hal2\<lparr>mDevice := False\<rparr>" "tr' = tr2 @ [Close1]"
      using False by (simp_all add: initWithModule_def gralloc1_close_def)
    from disp False have "run_state (initDispatch env hal1) tr1 = ((False, hal2), tr2)" by simp
    from closed [OF run caps this] show thesis .
  qed
qed

lemma initWithModule_ready:
  assumes "run_state (initWithModule env hal) tr = ((True, hal'), tr')"
  shows "hal_ready hal'"
  using assms
proof (cases rule: initWithModule_cases)
  case (opened hal1 tr1)
  from initDispatch_state [OF opened(3)] initCapabilities_state [OF opened(2)]
  show ?thesis by (auto simp: hal_ready_def)
qed auto

lemma initWithModule_session:
  assumes "run_state (initWithModule env hal) tr = ((ok, hal'), tr')" and "open_devices tr = Some n"
  shows "open_devices tr' = Some (if ok then Suc n else n)" and "mDevice hal' = ok"
proof -
  have init: "open_devices tr2 = Some (Suc n)"
    if "run_state (initCapabilities env (hal\<lparr>mDevice := True\<rparr>)) (tr @ [Open1 0]) = (hal1, tr1)"
      and "run_state (initDispatch env hal1) tr1 = (r, tr2)" for hal1 tr1 r tr2
  proof -
    have "open_devices (tr @ [Open1 0]) = Some (Suc n)" using assms(2) by simp
    from extends_by_idle_at [OF emits_run [OF emits_initCapabilities that(1)] this]
    have "open_devices tr1 = Some (Suc n)" by simp
    from extends_by_idle_at [OF emits_run [OF emits_initDispatch that(2)] this] show ?thesis by simp
  qed
  show "open_devices tr' = Some (if ok then Suc n else n)" and "mDevice hal' = ok"
    using assms(1)
  proof (atomize (full), cases rule: initWithModule_cases)
    case (refused r)
    with assms(2) show "open_devices tr' = Some (if ok then Suc n else n) \<and> mDevice hal' = ok" by simp
  next
    case (closed hal1 hal2 tr1 tr2)
    with init [OF closed(4,5)]
    show "open_devices tr' = Some (if ok then Suc n else n) \<and> mDevice hal' = ok" by simp
  next
    case (opened hal1 tr1)
    with init [OF opened(2,3)] initDispatch_state(1) [OF opened(3)] initCapabilities_state [OF opened(2)]
    show "open_devices tr' = Some (if ok then Suc n else n) \<and> mDevice hal' = ok" by simp
  qed
qed

end
