(* ===== verification/Gralloc0_Hal.thy ===== *)
theory Gralloc0_Hal
  imports Alloc_Loop
begin

text \<open>
  Gralloc0Hal.h: the back end \<open>Gralloc0HalImpl\<close> on top of a gralloc0 device. As for gralloc1 the
  device is outside the repository: \<open>gralloc0_device\<close> holds its functions (\<open>dump\<close> may be absent),
  \<open>gralloc0_env\<close> adds the descriptor decoder and the initial contents of the uninitialised locals.
  There is no descriptor object here: every allocation passes the whole request, narrowed to \<open>int\<close>.
\<close>

section \<open>State and environment\<close>

record gralloc0_device =
  dev0_open :: "gr_trace \<Rightarrow> int"
  dev0_dump :: "(gr_trace \<Rightarrow> string) option"
  dev0_alloc :: "gr_trace \<Rightarrow> i32 \<Rightarrow> i32 \<Rightarrow> i32 \<Rightarrow> i32 \<Rightarrow> i32 \<times> native_handle option \<times> i32 option"
  dev0_free :: "gr_trace \<Rightarrow> native_handle \<Rightarrow> i32"

record gralloc0_env =
  env0_dev :: gralloc0_device
  env0_decode :: "BufferDescriptor \<Rightarrow> BufferDescriptorInfo option"
  env0_tmpBuffer :: "nat \<Rightarrow> native_handle"
  env0_tmpStride :: "nat \<Rightarrow> u32"

text \<open>The object's state is its device pointer (as: not null).\<close>

record gralloc0_hal =
  mDevice0 :: bool

definition gralloc0_hal_new :: gralloc0_hal where
  "gralloc0_hal_new = \<lparr>mDevice0 = False\<rparr>"

text \<open>\<open>EINVAL\<close> of errno.h.\<close>

definition EINVAL :: i32 where
  "EINVAL = 22"

section \<open>The calls of the device\<close>

definition call_alloc ::
  "gralloc0_env \<Rightarrow> i32 \<Rightarrow> i32 \<Rightarrow> i32 \<Rightarrow> i32 \<Rightarrow> native_handle \<Rightarrow> i32 \<Rightarrow>
   (gr_trace, i32 \<times> native_handle \<times> i32) state" where
  "call_alloc env w h f u buffer stride =
     call (\<lambda>tr. let (r, b, s) = dev0_alloc (env0_dev env) tr w h f u
               in (r, case b of None \<Rightarrow> buffer | Some b \<Rightarrow> b, case s of None \<Rightarrow> stride | Some s \<Rightarrow> s))
          (\<lambda>(r, b, s). Alloc0 w h f u r b s)"

definition call_free :: "gralloc0_env \<Rightarrow> native_handle \<Rightarrow> (gr_trace, i32) state" where
  "call_free env h = call (\<lambda>tr. dev0_free (env0_dev env) tr h) (Free0 h)"

section \<open>Opening the device\<close>

definition gralloc_close :: "(gr_trace, unit) state" where
  "gralloc_close = call (\<lambda>_. ()) (\<lambda>_. Close0)"

definition initWithModule0 :: "gralloc0_env \<Rightarrow> gralloc0_hal \<Rightarrow> (gr_trace, bool \<times> gralloc0_hal) state" where
  "initWithModule0 env hal =
     do {
       result \<leftarrow> call (dev0_open (env0_dev env)) Open0;
       if result \<noteq> 0 then return (False, hal\<lparr>mDevice0 := False\<rparr>)
       else return (True, hal\<lparr>mDevice0 := True\<rparr>)
     }"

definition gralloc0_destructor :: "gralloc0_hal \<Rightarrow> (gr_trace, unit) state" where
  "gralloc0_destructor hal = (if mDevice0 hal then gralloc_close else return ())"

section \<open>Buffers\<close>

definition allocateOneBuffer0 ::
  "gralloc0_env \<Rightarrow> BufferDescriptorInfo \<Rightarrow> native_handle \<times> u32 \<Rightarrow>
   (gr_trace, Error \<times> native_handle \<times> u32) state" where
  "allocateOneBuffer0 env info out =
     (if 1 < bd_layerCount info \<or> drop_bit 32 (bd_usage info) \<noteq> 0 then return (BAD_VALUE, out)
      else do {
        (result, buffer, stride) \<leftarrow>
          call_alloc env (bd_width info) (bd_height info) (bd_format info) (ucast (bd_usage info)) 0 0;
        if result = 0 then return (NONE, buffer, stride)
        else if result = - EINVAL then return (BAD_VALUE, out)
        else return (NO_RESOURCES, out)
      })"

primrec freeBuffers0 :: "gralloc0_env \<Rightarrow> native_handle list \<Rightarrow> (gr_trace, unit) state" where
  "freeBuffers0 env [] = return ()"
| "freeBuffers0 env (buffer # buffers) =
     do {
       _ \<leftarrow> call_free env buffer;
       freeBuffers0 env buffers
     }"

definition allocateBuffers0 ::
  "gralloc0_env \<Rightarrow> BufferDescriptor \<Rightarrow> u32 \<Rightarrow> (gr_trace, Error + u32 \<times> native_handle list) state" where
  "allocateBuffers0 env descriptor cnt =
     (case env0_decode env descriptor of
        None \<Rightarrow> return (Inl BAD_DESCRIPTOR)
      | Some descriptorInfo \<Rightarrow>
          do {
            (error, stride, buffers) \<leftarrow>
              allocLoop (\<lambda>i. allocateOneBuffer0 env descriptorInfo (env0_tmpBuffer env i, env0_tmpStride env i))
                (unat cnt) 0 0 [];
            if error \<noteq> NONE then do {
              freeBuffers0 env buffers;
              return (Inl error)
            } else return (Inr (stride, buffers))
          })"

definition DUMP_BUFFER_SIZE :: nat where
  "DUMP_BUFFER_SIZE = 4096"

definition dumpDebugInfo0 :: "gralloc0_env \<Rightarrow> (gr_trace, string option) state" where
  "dumpDebugInfo0 env =
     (let buf = replicate DUMP_BUFFER_SIZE NUL
      in case dev0_dump (env0_dev env) of
           None \<Rightarrow> return (Some (c_str buf))
         | Some dump \<Rightarrow>
             do {
               buf \<leftarrow> call (\<lambda>tr. write_within buf (dump tr)) (\<lambda>_. Dump0);
               return (map_option (\<lambda>buf. c_str (buf[DUMP_BUFFER_SIZE - 1 := NUL])) buf)
             })"

definition gralloc0_as_hal :: "gralloc0_env \<Rightarrow> AllocatorHal" where
  "gralloc0_as_hal env =
     \<lparr>hal_dumpDebugInfo = dumpDebugInfo0 env,
      hal_allocateBuffers = allocateBuffers0 env,
      hal_freeBuffers = freeBuffers0 env\<rparr>"

text \<open>The request a call of \<open>alloc\<close> must carry: all of it, nothing lost in the narrowing of \<open>usage\<close>.\<close>

fun carries_request :: "BufferDescriptorInfo \<Rightarrow> gr_event \<Rightarrow> bool" where
  "carries_request info (Alloc0 w h f u _ _ _) \<longleftrightarrow>
     w = bd_width info \<and> h = bd_height info \<and> f = bd_format info \<and> ucast u = bd_usage info"
| "carries_request info _ \<longleftrightarrow> True"

text \<open>Strides reported with the buffers handed out.\<close>

fun stride_of0 :: "gr_event \<Rightarrow> u32 list" where
  "stride_of0 (Alloc0 _ _ _ _ r _ s) = (if r = 0 then [s] else [])"
| "stride_of0 _ = []"

definition strides_reported0 :: "gr_trace \<Rightarrow> u32 list" where
  "strides_reported0 tr = concat (map stride_of0 tr)"

section \<open>Lemmas\<close>

lemmas call0_defs = call_alloc_def call_free_def

lemma emits_allocateOneBuffer0:
  assumes "\<And>r h s. bd_layerCount info \<le> 1 \<Longrightarrow> drop_bit 32 (bd_usage info) = 0 \<Longrightarrow>
      P (Alloc0 (bd_width info) (bd_height info) (bd_format info) (ucast (bd_usage info)) r h s)"
  shows "emits P (allocateOneBuffer0 env info out)"
  unfolding allocateOneBuffer0_def call0_defs
  by (auto intro!: emits_rules assms simp: not_less split: prod.split)

lemma emits_freeBuffers0: "(\<And>h r. P (Free0 h r)) \<Longrightarrow> emits P (freeBuffers0 env bs)"
  by (induction bs) (auto intro!: emits_rules simp: call0_defs)

lemma emits_allocateBuffers0:
  assumes "\<And>info r h s. env0_decode env d = Some info \<Longrightarrow> bd_layerCount info \<le> 1 \<Longrightarrow>
      drop_bit 32 (bd_usage info) = 0 \<Longrightarrow>
      P (Alloc0 (bd_width info) (bd_height info) (bd_format info) (ucast (bd_usage info)) r h s)"
    and "\<And>h r. P (Free0 h r)"
  shows "emits P (allocateBuffers0 env d n)"
  unfolding allocateBuffers0_def
  by (auto intro!: emits_rules emits_allocateOneBuffer0 emits_freeBuffers0 assms
      split: prod.split option.split)

lemma emits_dumpDebugInfo0: "P Dump0 \<Longrightarrow> emits P (dumpDebugInfo0 env)"
  unfolding dumpDebugInfo0_def by (auto intro!: emits_rules simp: Let_def split: option.split)

lemma allocateOneBuffer0_owns:
  assumes "run_state (allocateOneBuffer0 env info out) tr = ((e, h, t), tr')" "outstanding tr = Some M"
  shows "outstanding tr' = Some (if e = NONE then add_mset h M else M)"
  using assms by (auto simp: allocateOneBuffer0_def call0_defs split: prod.splits if_splits)

lemma allocateOneBuffer0_agrees:
  "agrees (allocateOneBuffer0 env info out) (allocateOneBuffer0 env info out')"
  by (auto simp: agrees_def agrees_at_def allocateOneBuffer0_def split: prod.splits)

lemma allocateOneBuffer0_strides:
  "run_state (allocateOneBuffer0 env info out) tr = ((e, h, t), tr') \<Longrightarrow>
   strides_reported0 tr' = strides_reported0 tr @ (if e = NONE then [t] else [])"
  by (auto simp: allocateOneBuffer0_def call0_defs strides_reported0_def split: prod.splits if_splits)

lemma freeBuffers0_owns:
  "outstanding tr = Some (M + mset bs) \<Longrightarrow> run_state (freeBuffers0 env bs) tr = (r, tr') \<Longrightarrow>
   outstanding tr' = Some M"
proof (induction bs arbitrary: tr)
  case Nil
  then show ?case by simp
next
  case (Cons b bs)
  let ?tr = "tr @ [Free0 b (dev0_free (env0_dev env) tr b)]"
  have "outstanding ?tr = Some (M + mset bs)" using Cons.prems(1) by simp
  moreover have "run_state (freeBuffers0 env bs) ?tr = (r, tr')"
    using Cons.prems(2) by (simp add: call_free_def)
  ultimately show ?case by (rule Cons.IH)
qed

lemma allocateBuffers0_cases:
  assumes "run_state (allocateBuffers0 env d n) tr = (r, tr')"
  obtains (undecodable) "env0_decode env d = None" "r = Inl BAD_DESCRIPTOR" "tr' = tr"
  | (failed) info e stride bs tr1 where "env0_decode env d = Some info"
      "run_state (allocLoop (\<lambda>i. allocateOneBuffer0 env info (env0_tmpBuffer env i, env0_tmpStride env i))
         (unat n) 0 0 []) tr = ((e, stride, bs), tr1)"
      "e \<noteq> NONE" "r = Inl e" "run_state (freeBuffers0 env bs) tr1 = ((), tr')"
  | (allocated) info stride bs where "env0_decode env d = Some info"
      "run_state (allocLoop (\<lambda>i. allocateOneBuffer0 env info (env0_tmpBuffer env i, env0_tmpStride env i))
         (unat n) 0 0 []) tr = ((NONE, stride, bs), tr')"
      "r = Inr (stride, bs)"
proof (cases "env0_decode env d")
  case None
  with assms undecodable show thesis by (simp add: allocateBuffers0_def)
next
  case (Some info)
  obtain e stride bs tr1 where loop:
    "run_state (allocLoop (\<lambda>i. allocateOneBuffer0 env info (env0_tmpBuffer env i, env0_tmpStride env i))
       (unat n) 0 0 []) tr = ((e, stride, bs), tr1)"
    by (rule run_state_obtain3)
  have run: "(r, tr') = (if e \<noteq> NONE then (Inl e, snd (run_state (freeBuffers0 env bs) tr1))
      else (Inr (stride, bs), tr1))"
    using assms Some loop by (cases "e = NONE") (auto simp: allocateBuffers0_def case_prod_unfold)
  show thesis
  proof (cases "e = NONE")
    case True
    with run have "r = Inr (stride, bs)" "tr1 = tr'" by simp_all
    with allocated Some loop True show thesis by simp
  next
    case False
    with run have "r = Inl e" "run_state (freeBuffers0 env bs) tr1 = ((), tr')"
      by (simp_all add: prod_eq_iff)
    from failed [OF Some loop False this] show thesis .
  qed
qed

lemma allocateBuffers0_owns:
  assumes "run_state (allocateBuffers0 env d n) tr = (r, tr')" and "outstanding tr = Some M"
  shows "outstanding tr' = Some (case r of Inl _ \<Rightarrow> M | Inr (stride, bs) \<Rightarrow> M + mset bs)"
  using assms(1)
proof (cases rule: allocateBuffers0_cases)
  case undecodable
  with assms(2) show ?thesis by simp
next
  case (failed info e stride bs tr1)
  from assms(2) have "outstanding tr = Some (M + mset [])" by simp
  from allocLoop_owns [OF _ failed(2) this] allocateOneBuffer0_owns
  have "outstanding tr1 = Some (M + mset bs)" by blast
  from freeBuffers0_owns [OF this failed(5)] failed(4) show ?thesis by simp
next
  case (allocated info stride bs)
  from assms(2) have "outstanding tr = Some (M + mset [])" by simp
  from allocLoop_owns [OF _ allocated(2) this] allocateOneBuffer0_owns allocated(3)
  show ?thesis by simp
qed

lemma allocateBuffers0_length:
  "run_state (allocateBuffers0 env d n) tr = (Inr (stride, bs), tr') \<Longrightarrow> length bs = unat n"
  by (erule allocateBuffers0_cases) (auto dest: allocLoop_length)

lemma allocateBuffers0_err_code:
  "run_state (allocateBuffers0 env d n) tr = (Inl err, tr') \<Longrightarrow> err \<noteq> NONE"
  by (erule allocateBuffers0_cases) auto

text \<open>The gralloc0 back end keeps the interface's promises whatever the device does.\<close>

interpretation gralloc0: allocator_hal gralloc0_as_hal "\<lambda>_. True"
proof unfold_locales
  fix env d n tr stride bs tr' M
  assume "outstanding tr = Some M"
    "run_state (hal_allocateBuffers (gralloc0_as_hal env) d n) tr = (Inr (stride, bs), tr')"
  then show "outstanding tr' = Some (M + mset bs)"
    by (auto simp: gralloc0_as_hal_def dest: allocateBuffers0_owns)
next
  fix env d n tr err tr' M
  assume "outstanding tr = Some M"
    "run_state (hal_allocateBuffers (gralloc0_as_hal env) d n) tr = (Inl err, tr')"
  then show "outstanding tr' = Some M"
    by (auto simp: gralloc0_as_hal_def dest: allocateBuffers0_owns)
qed (auto simp: gralloc0_as_hal_def is_reply_def uses_device_def dest: allocateBuffers0_length
      allocateBuffers0_err_code freeBuffers0_owns
      intro!: emits_allocateBuffers0 emits_freeBuffers0 emits_dumpDebugInfo0)

lemma initWithModule0_session:
  assumes "run_state (initWithModule0 env hal) tr = ((ok, hal'), tr')" and "open_devices tr = Some n"
  shows "open_devices tr' = Some (if ok then Suc n else n)" and "mDevice0 hal' = ok"
  using assms by (auto simp: initWithModule0_def split: if_splits)

end
