(* ===== verification/Alloc_Spec.thy ===== *)
theory Alloc_Spec
  imports Gralloc1_Hal Gralloc0_Hal
begin

text \<open>
  The abstract specification of \<open>allocateBuffers\<close>, shared by both back ends. It sees of the device
  only the outcome of every single allocation, in order, and says declaratively how many there may
  be, what the call returns and which handles it frees again. Both back ends refine it: their traces
  are the blocks of calls these outcomes stand for, followed by the frees.
\<close>

section \<open>Specification\<close>

type_synonym outcome = "Error + native_handle \<times> u32"

definition handles_of :: "outcome list \<Rightarrow> native_handle list" where
  "handles_of outs = concat (map (case_sum (\<lambda>_. []) (\<lambda>(h, _). [h])) outs)"

definition strides_of :: "outcome list \<Rightarrow> u32 list" where
  "strides_of outs = concat (map (case_sum (\<lambda>_. []) (\<lambda>(_, s). [s])) outs)"

text \<open>Outcomes that leave nothing to complain about: no error, and one stride.\<close>

definition acceptable :: "u32 \<Rightarrow> outcome list \<Rightarrow> bool" where
  "acceptable s outs \<longleftrightarrow> (\<forall>out \<in> set outs. \<not> isl out) \<and> strides_ok s (strides_of outs)"

definition failure_of :: "outcome \<Rightarrow> Error" where
  "failure_of out = (case out of Inl e \<Rightarrow> e | Inr _ \<Rightarrow> UNSUPPORTED)"

text \<open>A request for \<open>n\<close> buffers: all are allocated and returned; or the first outcome that cannot be accepted
  ends the call with its error, and every handle obtained by then is freed.\<close>

definition alloc_spec ::
  "nat \<Rightarrow> outcome list \<Rightarrow> Error + u32 \<times> native_handle list \<Rightarrow> native_handle list \<Rightarrow> bool" where
  "alloc_spec n outs result freed \<longleftrightarrow>
     (if acceptable 0 outs
      then length outs = n \<and> result = Inr (final_stride 0 (strides_of outs), handles_of outs) \<and> freed = []
      else length outs \<le> n \<and> acceptable 0 (butlast outs) \<and>
           result = Inl (failure_of (last outs)) \<and> freed = handles_of outs)"

text \<open>One action \<open>alloc\<close> of a back end, described by blocks of calls \<open>block\<close> with outcomes \<open>outc\<close>.\<close>

definition described ::
  "(gr_trace, Error \<times> native_handle \<times> u32) state \<Rightarrow> ('x \<Rightarrow> gr_event list) \<Rightarrow> ('x \<Rightarrow> outcome) \<Rightarrow> bool" where
  "described alloc block outc \<longleftrightarrow>
     (\<forall>tr e h t tr1. run_state alloc tr = ((e, h, t), tr1) \<longrightarrow>
        (\<exists>x. tr1 = tr @ block x \<and> outc x = (if e = NONE then Inr (h, t) else Inl e)))"

section \<open>Lemmas\<close>

lemma handles_of_simps [simp]:
  "handles_of [] = []" "handles_of (Inl e # outs) = handles_of outs"
  "handles_of (Inr (h, s) # outs) = h # handles_of outs"
  by (simp_all add: handles_of_def)

lemma strides_of_simps [simp]:
  "strides_of [] = []" "strides_of (Inl e # outs) = strides_of outs"
  "strides_of (Inr (h, s) # outs) = s # strides_of outs"
  by (simp_all add: strides_of_def)

lemma acceptable_simps [simp]:
  "acceptable s []" "\<not> acceptable s (Inl e # outs)"
  "acceptable s (Inr (h, t) # outs) \<longleftrightarrow> (if s = 0 then acceptable t outs else s = t \<and> acceptable s outs)"
  by (auto simp: acceptable_def)

lemma describedI:
  "(\<And>tr e h t tr1. run_state alloc tr = ((e, h, t), tr1) \<Longrightarrow>
      \<exists>x. tr1 = tr @ block x \<and> outc x = (if e = NONE then Inr (h, t) else Inl e)) \<Longrightarrow>
   described alloc block outc"
  by (simp add: described_def)

lemma describedD:
  assumes "described alloc block outc" and "run_state alloc tr = ((e, h, t), tr1)"
  obtains x where "tr1 = tr @ block x" "outc x = (if e = NONE then Inr (h, t) else Inl e)"
  using assms unfolding described_def by blast

lemma allocLoop_refines:
  assumes step: "\<And>i. described (alloc i) block outc"
  shows "run_state (allocLoop alloc n i s bs) tr = ((e, s', bs'), tr') \<Longrightarrow>
    \<exists>xs. tr' = tr @ concat (map block xs) \<and> bs' = bs @ handles_of (map outc xs) \<and>
      (if acceptable s (map outc xs)
       then e = NONE \<and> length xs = n \<and> s' = final_stride s (strides_of (map outc xs))
       else e \<noteq> NONE \<and> length xs \<le> n \<and> acceptable s (butlast (map outc xs)) \<and>
            e = failure_of (last (map outc xs)))"
proof (induction n arbitrary: i s bs tr)
  case 0
  then show ?case by (intro exI [of _ "[]"]) (simp add: final_stride_def)
next
  case (Suc n)
  obtain e1 h t tr1 where one: "run_state (alloc i) tr = ((e1, h, t), tr1)" by (rule run_state_obtain3)
  from describedD [OF step one] obtain x where x: "tr1 = tr @ block x"
    "outc x = (if e1 = NONE then Inr (h, t) else Inl e1)" .
  consider (fail) "e1 \<noteq> NONE" | (mixed) "e1 = NONE" "s \<noteq> 0" "s \<noteq> t" | (go) "e1 = NONE" "s = 0 \<or> s = t"
    by blast
  then show ?case
  proof cases
    case fail
    with Suc.prems one x show ?thesis by (intro exI [of _ "[x]"]) (auto simp: failure_of_def)
  next
    case mixed
    with Suc.prems one x show ?thesis by (intro exI [of _ "[x]"]) (auto simp: failure_of_def)
  next
    case go
    let ?s = "if s = 0 then t else s"
    from go Suc.prems one have
      "run_state (allocLoop alloc n (Suc i) ?s (bs @ [h])) tr1 = ((e, s', bs'), tr')"
      by (auto split: if_splits)
    from Suc.IH [OF this] obtain xs where xs: "tr' = tr1 @ concat (map block xs)"
      "bs' = (bs @ [h]) @ handles_of (map outc xs)"
      "if acceptable ?s (map outc xs)
       then e = NONE \<and> length xs = n \<and> s' = final_stride ?s (strides_of (map outc xs))
       else e \<noteq> NONE \<and> length xs \<le> n \<and> acceptable ?s (butlast (map outc xs)) \<and>
            e = failure_of (last (map outc xs))" by blast
    with go x show ?thesis
      by (intro exI [of _ "x # xs"]) (auto simp: final_stride_def)
  qed
qed

text \<open>Started with no stride and no buffers, the loop ends as the specification says.\<close>

lemma allocLoop_meets_spec:
  assumes "\<And>i. described (alloc i) block outc"
    and "run_state (allocLoop alloc n 0 0 []) tr = ((e, stride, bs), tr')"
  obtains xs where "tr' = tr @ concat (map block xs)"
    "alloc_spec n (map outc xs) (if e = NONE then Inr (stride, bs) else Inl e) (if e = NONE then [] else bs)"
proof -
  from allocLoop_refines [OF assms] obtain xs where
    "tr' = tr @ concat (map block xs)" "bs = [] @ handles_of (map outc xs)"
    "if acceptable 0 (map outc xs)
     then e = NONE \<and> length xs = n \<and> stride = final_stride 0 (strides_of (map outc xs))
     else e \<noteq> NONE \<and> length xs \<le> n \<and> acceptable 0 (butlast (map outc xs)) \<and>
          e = failure_of (last (map outc xs))" by blast
  then show thesis by (intro that [of xs]) (auto simp: alloc_spec_def split: if_splits)
qed

section \<open>The gralloc0 back end\<close>

type_synonym alloc0_answer = "i32 \<times> native_handle \<times> i32"

fun block0 :: "BufferDescriptorInfo \<Rightarrow> alloc0_answer \<Rightarrow> gr_event list" where
  "block0 info (r, h, s) =
     [Alloc0 (bd_width info) (bd_height info) (bd_format info) (ucast (bd_usage info)) r h s]"

fun outcome0 :: "alloc0_answer \<Rightarrow> outcome" where
  "outcome0 (r, h, s) =
     (if r = 0 then Inr (h, s) else if r = - EINVAL then Inl BAD_VALUE else Inl NO_RESOURCES)"

lemma allocateOneBuffer0_described:
  assumes "bd_layerCount info \<le> 1" "drop_bit 32 (bd_usage info) = 0"
  shows "described (allocateOneBuffer0 env info out) (block0 info) outcome0"
proof (rule describedI)
  fix tr e h t tr1
  assume run: "run_state (allocateOneBuffer0 env info out) tr = ((e, h, t), tr1)"
  obtain r b s where ans: "run_state (call_alloc env (bd_width info) (bd_height info) (bd_format info)
      (ucast (bd_usage info)) 0 0) tr = ((r, b, s), tr @ block0 info (r, b, s))"
    by (cases "dev0_alloc (env0_dev env) tr (bd_width info) (bd_height info) (bd_format info)
          (ucast (bd_usage info))") (simp add: call_alloc_def)
  with assms run show "\<exists>x. tr1 = tr @ block0 info x \<and> outcome0 x = (if e = NONE then Inr (h, t) else Inl e)"
    by (intro exI [of _ "(r, b, s)"]) (auto simp: allocateOneBuffer0_def not_less split: if_splits)
qed

lemma freeBuffers0_trace:
  "\<exists>rs. length rs = length bs \<and> run_state (freeBuffers0 env bs) tr = ((), tr @ map2 Free0 bs rs)"
proof (induction bs arbitrary: tr)
  case Nil
  show ?case by simp
next
  case (Cons b bs)
  let ?r = "dev0_free (env0_dev env) tr b"
  from Cons.IH [of "tr @ [Free0 b ?r]"] obtain rs where "length rs = length bs"
    "run_state (freeBuffers0 env bs) (tr @ [Free0 b ?r]) = ((), (tr @ [Free0 b ?r]) @ map2 Free0 bs rs)"
    by blast
  then show ?case by (intro exI [of _ "?r # rs"]) (simp add: call_free_def)
qed

section \<open>The gralloc1 back end\<close>

text \<open>What the device answers to one \<open>allocateOneBuffer\<close>: the code and handle of \<open>allocate\<close>, the code and
  stride of \<open>getStride\<close>, and the code of \<open>release\<close>, as far as these are called.\<close>

type_synonym alloc1_answer = "gralloc1_error \<times> native_handle \<times> gralloc1_error \<times> u32 \<times> gralloc1_error"

definition has_buffer :: "gralloc1_error \<Rightarrow> bool" where
  "has_buffer e \<longleftrightarrow> e = GRALLOC1_ERROR_NONE \<or> e = GRALLOC1_ERROR_NOT_SHARED"

definition has_stride :: "gralloc1_error \<Rightarrow> bool" where
  "has_stride e \<longleftrightarrow> e = GRALLOC1_ERROR_NONE \<or> e = GRALLOC1_ERROR_UNDEFINED"

fun block1 :: "gralloc1_desc \<Rightarrow> alloc1_answer \<Rightarrow> gr_event list" where
  "block1 d (ae, h, se, s, re) =
     Allocate1 d ae h # (if has_buffer ae
        then GetStride h se s # (if has_stride se then [] else [Release h re]) else [])"

fun outcome1 :: "alloc1_answer \<Rightarrow> outcome" where
  "outcome1 (ae, h, se, s, re) =
     (if \<not> has_buffer ae then Inl (toError ae)
      else if \<not> has_stride se then Inl (toError se) else Inr (h, s))"

lemma allocateOneBuffer_described:
  assumes "not_shared_only_from_allocate (env_dev env)"
  shows "described (allocateOneBuffer env d out) (block1 d) outcome1"
proof (rule describedI)
  fix tr e h t tr1
  assume run: "run_state (allocateOneBuffer env d out) tr = ((e, h, t), tr1)"
  obtain ae b where a: "run_state (call_allocate env d 0) tr = ((ae, b), tr @ [Allocate1 d ae b])"
    by (cases "dev_allocate (env_dev env) tr d") (simp add: call_allocate_def)
  let ?tr = "tr @ [Allocate1 d ae b]"
  obtain se s where g: "run_state (call_getStride env b 0) ?tr = ((se, s), ?tr @ [GetStride b se s])"
    and ge: "fst (dev_getStride (env_dev env) ?tr b) = se"
    by (cases "dev_getStride (env_dev env) (tr @ [Allocate1 d ae b]) b") (simp add: call_getStride_def)
  have ns: "se \<noteq> GRALLOC1_ERROR_NOT_SHARED"
    using assms ge by (auto simp: not_shared_only_from_allocate_def)
  let ?re = "dev_release (env_dev env) (?tr @ [GetStride b se s]) b"
  show "\<exists>x. tr1 = tr @ block1 d x \<and> outcome1 x = (if e = NONE then Inr (h, t) else Inl e)"
    using run a g ns
    by (intro exI [of _ "(ae, b, se, s, ?re)"])
       (auto simp: allocateOneBuffer_def call_release_def has_buffer_def has_stride_def toError_NONE_iff
         split: if_splits)
qed

lemma freeBuffers_trace:
  "\<exists>rs. length rs = length bs \<and> run_state (freeBuffers env bs) tr = ((), tr @ map2 Release bs rs)"
proof (induction bs arbitrary: tr)
  case Nil
  show ?case by simp
next
  case (Cons b bs)
  let ?r = "dev_release (env_dev env) tr b"
  from Cons.IH [of "tr @ [Release b ?r]"] obtain rs where "length rs = length bs"
    "run_state (freeBuffers env bs) (tr @ [Release b ?r]) = ((), (tr @ [Release b ?r]) @ map2 Release bs rs)"
    by blast
  then show ?case by (intro exI [of _ "?r # rs"]) (simp add: call_release_def)
qed

end
