(* ===== verification/Gralloc1_Properties.thy ===== *)
theory Gralloc1_Properties
  imports Gralloc1_Hal
begin

text \<open>
  What the gralloc1 back end (Gralloc1Hal.h) guarantees, and under which documented behaviour of the
  device: ownership of buffers, the configuration a descriptor receives, strides,
  the dispatch table, uninitialised locals and the debug dump. \<open>sample_env\<close> is a concrete device
  for the closed instances.
\<close>

section \<open>A device that behaves as documented, for closed instances\<close>

definition sample_device :: gralloc1_device where
  "sample_device =
     \<lparr>dev_open = (\<lambda>_. 0),
      dev_getCapabilities = (\<lambda>_ _ caps. (1, [5])),
      dev_getFunction = (\<lambda>_ _. True),
      dev_dump = (\<lambda>_ _ _. (3, ''abc'')),
      dev_createDescriptor = (\<lambda>_. (GRALLOC1_ERROR_NONE, Some 7)),
      dev_setDimensions = (\<lambda>_ _ _ _. GRALLOC1_ERROR_NONE),
      dev_setFormat = (\<lambda>_ _ _. GRALLOC1_ERROR_NONE),
      dev_setLayerCount = (\<lambda>_ _ _. GRALLOC1_ERROR_NONE),
      dev_setProducerUsage = (\<lambda>_ _ _. GRALLOC1_ERROR_NONE),
      dev_setConsumerUsage = (\<lambda>_ _ _. GRALLOC1_ERROR_NONE),
      dev_allocate = (\<lambda>tr _. (GRALLOC1_ERROR_NONE, Some (100 + of_nat (length tr)))),
      dev_getStride = (\<lambda>_ _. (GRALLOC1_ERROR_NONE, Some 64)),
      dev_release = (\<lambda>_ _. GRALLOC1_ERROR_NONE)\<rparr>"

definition sample_env :: gralloc1_env where
  "sample_env =
     \<lparr>env_dev = sample_device, env_abi = sample_abi,
      env_decode = (\<lambda>d. if d = [] then None
        else Some \<lparr>bd_width = 64, bd_height = 32, bd_layerCount = 1, bd_format = 1, bd_usage = 0x133\<rparr>),
      env_layeredBuffers = 5,
      env_locals = \<lparr>loc_descriptor = 0xdead, loc_desc = 0xdead,
        loc_tmpBuffer = (\<lambda>_. 0xdead), loc_tmpStride = (\<lambda>_. 0xdead)\<rparr>\<rparr>"

definition sample_hal :: gralloc1_hal where
  "sample_hal = \<lparr>mDevice = True, mCapabilities_layeredBuffers = True,
     mDispatch = GRALLOC1_FUNCTION_SET_LAYER_COUNT # rev required_functions\<rparr>"

lemmas sample_defs = sample_device_def sample_env_def sample_hal_def

lemma sample_documented:
  "not_shared_only_from_allocate (env_dev sample_env)" "create_writes_descriptor (env_dev sample_env)"
  by (simp_all add: not_shared_only_from_allocate_def create_writes_descriptor_def sample_defs)

lemma sample_create: "fst (dev_createDescriptor (env_dev sample_env) tr) = GRALLOC1_ERROR_NONE"
  by (simp add: sample_defs)

lemma sample_run:
  "fst (run_state (allocateBuffers sample_env sample_hal [1] 2) []) = Inr (64, [106, 108])"
  by code_simp

section \<open>Properties\<close>

text \<open>C6: Ownership in the gralloc1 back end. From any trace whose outstanding buffers are \<open>M\<close>, \<open>allocateBuffers\<close> never releases a buffer that is not outstanding; when it fails, exactly \<open>M\<close> is outstanding again, whatever it had allocated before the error; when it succeeds it returns \<open>count\<close> buffers, and exactly those have been added.\<close>

theorem gralloc1_allocate_ownership:
  assumes "not_shared_only_from_allocate (env_dev env)" and "outstanding tr = Some M"
    and "run_state (allocateBuffers env hal d n) tr = (r, tr')"
  shows "case r of
           Inl err \<Rightarrow> err \<noteq> NONE \<and> outstanding tr' = Some M
         | Inr (stride, bs) \<Rightarrow> length bs = unat n \<and> outstanding tr' = Some (M + mset bs)"
  using allocateBuffers_owns [OF assms(1,3,2)] assms(3)
  by (auto dest: allocateBuffers_length allocateBuffers_err_code split: sum.split)

theorem gralloc1_allocate_ownership_witness:
  "not_shared_only_from_allocate (env_dev sample_env) \<and>
   outstanding (snd (run_state (allocateBuffers sample_env sample_hal [1] 2) [])) = Some {#106, 108#}"
  using gralloc1_allocate_ownership [OF sample_documented(1), of "[]" "{#}" sample_hal "[1]" 2]
    sample_run sample_documented(1)
  by (cases "run_state (allocateBuffers sample_env sample_hal [1] 2) []") simp

text \<open>C36: When the device refuses to create a descriptor and leaves the out parameter alone, \<open>createDescriptor\<close> still destroys \<open>descriptor\<close>, a local that was never written: the call is the last of the trace, and it names a descriptor that is not live. The error returned is right all the same.\<close>

theorem gralloc1_refused_descriptor_destroyed:
  assumes "env_decode env d = Some info"
    and "dev_createDescriptor (env_dev env) tr = (err, None)"
    and "err \<noteq> GRALLOC1_ERROR_NONE" "err \<noteq> GRALLOC1_ERROR_NOT_SHARED"
    and "live_descs tr = Some M" "loc_descriptor (env_locals env) \<notin># M"
  shows "\<exists>tr'. run_state (allocateBuffers env hal d n) tr = (Inl (toError err), tr') \<and>
           last tr' = DestroyDescriptor (loc_descriptor (env_locals env)) \<and> live_descs tr' = None"
  using createDescriptor_refused [OF assms(2,3)] assms
  by (simp add: allocateBuffers_def toError_NONE_iff)

text \<open>No call through a null entry of the dispatch table. Once \<open>initWithModule\<close> has returned true, every gralloc1 function that \<open>allocateBuffers\<close>, \<open>freeBuffers\<close> and \<open>dumpDebugInfo\<close> call has been loaded; in particular \<open>setLayerCount\<close>, which is loaded only with the layered-buffers capability.\<close>

theorem gralloc1_no_null_function:
  assumes "run_state (initWithModule env gralloc1_hal_new) tr = ((True, hal), tr')"
  shows "emits (through_table hal) (allocateBuffers env' hal d n) \<and>
         emits (through_table hal) (freeBuffers env' bs) \<and>
         emits (through_table hal) (dumpDebugInfo env')"
  using hal_ready_table [OF initWithModule_ready [OF assms]] by blast

text \<open>The stride returned. On success the device has reported one stride per buffer, and these are zeros followed by the returned stride: no other mixture is accepted. (Leading zeros are, although the code's comment speaks of uniform strides.)\<close>

theorem gralloc1_uniform_strides:
  assumes "not_shared_only_from_allocate (env_dev env)"
    and "run_state (allocateBuffers env hal d n) tr = (Inr (stride, bs), tr')"
  shows "\<exists>k m. strides_reported tr' = strides_reported tr @ replicate k 0 @ replicate m stride \<and>
               k + m = unat n"
  using assms(2)
proof (cases rule: allocateBuffers_cases)
  case (allocated info desc tr1 stride' bs' tr2)
  have "\<exists>ts. strides_reported tr2 = strides_reported tr1 @ ts \<and>
      (NONE = NONE \<longrightarrow> length ts = unat n \<and> strides_ok 0 ts \<and> stride' = final_stride 0 ts)"
    by (rule allocLoop_strides [OF _ allocated(3)]) (rule allocateOneBuffer_strides [OF assms(1)])
  then obtain ts where ts: "strides_reported tr2 = strides_reported tr1 @ ts" "length ts = unat n"
    "strides_ok 0 ts" "stride' = final_stride 0 ts" by blast
  then obtain k m s where s: "ts = replicate k 0 @ replicate m s" by (auto simp: strides_ok_zero)
  with ts allocated(4) have "stride = (if m = 0 then 0 else s)" by (simp add: final_stride_zeros)
  then have "replicate m stride = replicate m s" by simp
  with ts s createDescriptor_strides [OF allocated(2)] allocated(5) show ?thesis
    by (intro exI [of _ k] exI [of _ m]) (auto simp: strides_reported_def)
qed auto


theorem gralloc1_uniform_strides_witness:
  "\<exists>k m. strides_reported (snd (run_state (allocateBuffers sample_env sample_hal [1] 2) [])) =
         replicate k 0 @ replicate m 64 \<and> k + m = 2"
  using gralloc1_uniform_strides [OF sample_documented(1), of sample_hal "[1]" 2 "[]" 64 "[106, 108]"] sample_run
  by (cases "run_state (allocateBuffers sample_env sample_hal [1] 2) []") (simp add: strides_reported_def)

theorem gralloc1_no_null_function_witness:
  "fst (run_state (initWithModule sample_env gralloc1_hal_new) []) = (True, sample_hal) \<and>
   emits (through_table sample_hal) (allocateBuffers sample_env sample_hal [1] 2)"
proof -
  have init: "fst (run_state (initWithModule sample_env gralloc1_hal_new) []) = (True, sample_hal)"
    by code_simp
  then obtain tr' where "run_state (initWithModule sample_env gralloc1_hal_new) [] = ((True, sample_hal), tr')"
    by (metis prod.collapse)
  from gralloc1_no_null_function [OF this] init show ?thesis by blast
qed

text \<open>The same device, out of descriptors.\<close>

definition refusing_env :: gralloc1_env where
  "refusing_env = sample_env\<lparr>env_dev := sample_device
     \<lparr>dev_createDescriptor := \<lambda>_. (GRALLOC1_ERROR_NO_RESOURCES, None)\<rparr>\<rparr>"

theorem gralloc1_refused_descriptor_destroyed_witness:
  "\<exists>tr'. run_state (allocateBuffers refusing_env sample_hal [1] 1) [] = (Inl NO_RESOURCES, tr') \<and>
         last tr' = DestroyDescriptor 0xdead \<and> live_descs tr' = None"
  using gralloc1_refused_descriptor_destroyed [of refusing_env "[1]" _ "[]" GRALLOC1_ERROR_NO_RESOURCES "{#}" sample_hal 1]
  by (simp add: refusing_env_def sample_defs)

text \<open>C33: Uninitialised locals are never read into a result. The result of \<open>allocateBuffers\<close> does not depend on the initial contents of \<open>desc\<close>, \<open>descriptor\<close>, \<open>tmpBuffer\<close>, \<open>tmpStride\<close>; when the device hands out a descriptor, neither does any call it makes.\<close>

theorem gralloc1_locals_unread:
  assumes "not_shared_only_from_allocate (env_dev env)" and "create_writes_descriptor (env_dev env)"
  shows "fst (run_state (allocateBuffers (env\<lparr>env_locals := locals'\<rparr>) hal d n) tr) =
           fst (run_state (allocateBuffers env hal d n) tr) \<and>
         (fst (dev_createDescriptor (env_dev env) tr) = GRALLOC1_ERROR_NONE \<longrightarrow>
           run_state (allocateBuffers (env\<lparr>env_locals := locals'\<rparr>) hal d n) tr =
           run_state (allocateBuffers env hal d n) tr)"
proof (cases "env_decode env d")
  case None
  then show ?thesis by (simp add: allocateBuffers_def)
next
  case (Some info)
  obtain err x where create: "dev_createDescriptor (env_dev env) tr = (err, x)" by (rule prod.exhaust)
  show ?thesis
  proof (cases "err = GRALLOC1_ERROR_NONE")
    case False
    with create assms(1) have "toError err \<noteq> NONE"
      by (auto simp: toError_NONE_iff not_shared_only_from_allocate_def) (metis fst_conv)
    with Some False createDescriptor_refused [OF create False]
      createDescriptor_refused [of "env\<lparr>env_locals := locals'\<rparr>", simplified, OF create False] create
    show ?thesis by (simp add: allocateBuffers_def)
  next
    case True
    with assms(2) create obtain dd where dd: "dev_createDescriptor (env_dev env) tr = (GRALLOC1_ERROR_NONE, Some dd)"
      unfolding create_writes_descriptor_def by (metis fst_conv option.exhaust snd_conv)
    have loops: "allocLoop (\<lambda>i. allocateOneBuffer (env\<lparr>env_locals := locals'\<rparr>) desc (out' i)) k i s bs =
        allocLoop (\<lambda>i. allocateOneBuffer env desc (out i)) k i s bs" for desc out out' k i s bs
      by (rule allocLoop_agrees [symmetric]) (rule allocateOneBuffer_agrees [OF assms(1)])
    have free: "freeBuffers (env\<lparr>env_locals := locals'\<rparr>) bs = freeBuffers env bs" for bs
      by (induction bs) (simp_all add: call_release_def)
    obtain e desc tr1 e' desc' tr1' where
      c: "run_state (createDescriptor env hal info (loc_desc (env_locals env))) tr = ((e, desc), tr1)"
      and c': "run_state (createDescriptor (env\<lparr>env_locals := locals'\<rparr>) hal info (loc_desc locals')) tr =
             ((e', desc'), tr1')"
      using run_state_obtain2 by metis
    with createDescriptor_agrees [OF assms(1) dd, of hal info "loc_desc (env_locals env)" locals' "loc_desc locals'"]
    have "tr1' = tr1" "e' = e" "e = NONE \<longrightarrow> desc' = desc"
      by (auto simp: agrees_at_def)
    with Some c c' show ?thesis
      by (simp add: allocateBuffers_def loops [where out = "\<lambda>i. (loc_tmpBuffer (env_locals env) i, loc_tmpStride (env_locals env) i)"] free
          case_prod_unfold)
  qed
qed


theorem gralloc1_locals_unread_witness:
  "fst (run_state (allocateBuffers (sample_env\<lparr>env_locals := \<lparr>loc_descriptor = 1, loc_desc = 2,
      loc_tmpBuffer = (\<lambda>_. 3), loc_tmpStride = (\<lambda>_. 4)\<rparr>\<rparr>) sample_hal [1] 2) []) = Inr (64, [106, 108])"
  using gralloc1_locals_unread [OF sample_documented] sample_run by simp

text \<open>C28: What a successful \<open>createDescriptor\<close> has done: exactly the calls that set dimensions, format, layer count (with the capability only), producer and consumer usage, in this order, with the fields of the request and the converted usages; without the capability the request has at most one layer.\<close>

theorem gralloc1_descriptor_configured:
  assumes "not_shared_only_from_allocate (env_dev env)"
    and "run_state (createDescriptor env hal info out) tr = ((NONE, d), tr')"
  shows "tr' = tr @
      [CreateDescriptor GRALLOC1_ERROR_NONE d,
       SetDimensions d (bd_width info) (bd_height info) GRALLOC1_ERROR_NONE,
       SetFormat d (bd_format info) GRALLOC1_ERROR_NONE] @
      (if mCapabilities_layeredBuffers hal
       then [SetLayerCount d (bd_layerCount info) GRALLOC1_ERROR_NONE] else []) @
      [SetProducerUsage d (toProducerUsage (env_abi env) (bd_usage info)) GRALLOC1_ERROR_NONE,
       SetConsumerUsage d (toConsumerUsage (env_abi env) (bd_usage info)) GRALLOC1_ERROR_NONE] \<and>
    (mCapabilities_layeredBuffers hal \<or> bd_layerCount info \<le> 1)"
  using assms(2) assms(1) [unfolded not_shared_only_from_allocate_def]
  by (auto simp: createDescriptor_def call_defs toError_NONE_iff not_less split: prod.splits if_splits
      dest: create_not_shared [OF assms(1)])

theorem gralloc1_descriptor_configured_witness:
  "\<exists>tr'. run_state (createDescriptor sample_env sample_hal
     \<lparr>bd_width = 64, bd_height = 32, bd_layerCount = 1, bd_format = 1, bd_usage = 0x133\<rparr> 0) [] = ((NONE, 7), tr') \<and>
     SetProducerUsage 7 0x166 GRALLOC1_ERROR_NONE \<in> set tr'"
proof -
  let ?info = "\<lparr>bd_width = 64, bd_height = 32, bd_layerCount = 1, bd_format = 1, bd_usage = 0x133\<rparr>"
  have "fst (run_state (createDescriptor sample_env sample_hal ?info 0) []) = (NONE, 7)" by code_simp
  then obtain tr' where run: "run_state (createDescriptor sample_env sample_hal ?info 0) [] = ((NONE, 7), tr')"
    by (metis prod.collapse)
  have "toProducerUsage (env_abi sample_env) 0x133 = 0x166" by code_simp
  with gralloc1_descriptor_configured [OF sample_documented(1) run] run show ?thesis by simp
qed

text \<open>The error a device could smuggle through \<open>toError\<close>: if \<open>getStride\<close> answers \<open>NOT_SHARED\<close>, \<open>allocateOneBuffer\<close> releases the buffer and yet reports \<open>NONE\<close>, its out parameters unwritten.\<close>

theorem gralloc1_stride_not_shared:
  assumes "dev_allocate (env_dev env) tr d = (GRALLOC1_ERROR_NONE, Some h)"
    and "dev_getStride (env_dev env) (tr @ [Allocate1 d GRALLOC1_ERROR_NONE h]) h = (GRALLOC1_ERROR_NOT_SHARED, s)"
  shows "\<exists>r. run_state (allocateOneBuffer env d out) tr =
     ((NONE, out), tr @ [Allocate1 d GRALLOC1_ERROR_NONE h, GetStride h GRALLOC1_ERROR_NOT_SHARED
         (case s of None \<Rightarrow> 0 | Some x \<Rightarrow> x), Release h r])"
  using assms by (simp add: allocateOneBuffer_def call_defs)

text \<open>C35: The debug dump of gralloc1, from a device that writes no more than it is told there is room for. Unless a reported length is \<open>UINT32_MAX\<close>, the terminating NUL is written inside the vector, and the text is the dump cut at its first NUL and at the length reported by the second call. With \<open>UINT32_MAX\<close> the \<open>len + 1\<close> of the code wraps to 0: if the first call reports it, the device is handed an empty buffer as one of \<open>UINT32_MAX\<close> bytes, and overflows it with its first byte; if the second does, the NUL is written out of bounds.\<close>

theorem gralloc1_dump_within_buffer:
  assumes "dev_dump (env_dev env) tr 0 None = (len1, w1)"
    and "dev_dump (env_dev env) (tr @ [Dump1 0]) len1 (Some (replicate (unat (len1 + 1)) NUL)) = (len2, w2)"
    and "length w2 \<le> unat len1"
  shows "case fst (run_state (dumpDebugInfo env) tr) of
           None \<Rightarrow> len2 = - 1 \<or> len1 = - 1 \<and> w2 \<noteq> []
         | Some s \<Rightarrow> len2 \<noteq> - 1 \<and> (len1 = - 1 \<longrightarrow> w2 = []) \<and> length s \<le> unat len2 \<and> NUL \<notin> set s \<and>
             s = c_str (take (unat len2) (vec_resize NUL (unat (len2 + 1))
                         (overwrite (replicate (unat (len1 + 1)) NUL) w2)))"
proof -
  have room: "unat (len + 1) = (if len = - 1 then 0 else Suc (unat len))" for len :: u32
  proof (cases "len + 1 = 0")
    case True
    then show ?thesis by (simp add: eq_neg_iff_add_eq_0)
  next
    case False
    then show ?thesis
      using unatSuc [of len] by (simp add: eq_neg_iff_add_eq_0 add.commute)
  qed
  show ?thesis using assms
    by (simp add: dumpDebugInfo_def call_defs Let_def write_within_def room c_str_update c_str_take c_str_no_NUL)
qed

theorem gralloc1_dump_within_buffer_witness:
  "fst (run_state (dumpDebugInfo sample_env) []) = Some ''abc''"
proof -
  have "fst (run_state (dumpDebugInfo sample_env) []) \<noteq> None"
    using gralloc1_dump_within_buffer [of sample_env "[]" 3 "''abc''" 3 "''abc''"]
    by (auto simp: sample_defs split: option.splits)
  moreover have "c_str (take 3 (vec_resize NUL 4 (overwrite (replicate 4 NUL) ''abc''))) = ''abc''"
    by code_simp
  ultimately show ?thesis
    using gralloc1_dump_within_buffer [of sample_env "[]" 3 "''abc''" 3 "''abc''"]
    by (auto simp: sample_defs)
qed

theorem gralloc1_stride_not_shared_witness:
  "fst (run_state (allocateOneBuffer (sample_env\<lparr>env_dev := sample_device
     \<lparr>dev_getStride := \<lambda>_ _. (GRALLOC1_ERROR_NOT_SHARED, None)\<rparr>\<rparr>) 7 (0xdead, 0xdead)) []) = (NONE, 0xdead, 0xdead)"
  using gralloc1_stride_not_shared [of "sample_env\<lparr>env_dev := sample_device
     \<lparr>dev_getStride := \<lambda>_ _. (GRALLOC1_ERROR_NOT_SHARED, None)\<rparr>\<rparr>" "[]" 7 100 None "(0xdead, 0xdead)"]
  by (auto simp: sample_defs)

end
