(* ===== verification/Allocator.thy ===== *)
theory Allocator
  imports Gralloc_Interface
begin

text \<open>
  Allocator.h and Allocator.cpp: \<open>AllocatorImpl\<close>, the HIDL service on top of an \<open>AllocatorHal\<close>.
  Answering the client's callback is an event of the trace. The HIDL runtime, which calls one
  method per incoming request, is represented by the list of requests it delivers. The client's
  lemmas are proved once, against the interface \<open>allocator_hal\<close>, for every back end.
\<close>

section \<open>Definitions\<close>

definition hidl_cb_allocate :: "Error \<Rightarrow> u32 \<Rightarrow> native_handle list \<Rightarrow> (gr_trace, unit) state" where
  "hidl_cb_allocate error stride buffers = call (\<lambda>_. ()) (\<lambda>_. AllocateReply error stride buffers)"

definition Allocator_allocate :: "AllocatorHal \<Rightarrow> BufferDescriptor \<Rightarrow> u32 \<Rightarrow> (gr_trace, unit) state" where
  "Allocator_allocate mHal descriptor cnt =
     do {
       result \<leftarrow> hal_allocateBuffers mHal descriptor cnt;
       case result of
         Inl error \<Rightarrow> hidl_cb_allocate error 0 []
       | Inr (stride, buffers) \<Rightarrow>
           do {
             hidl_cb_allocate NONE stride buffers;
             hal_freeBuffers mHal buffers
           }
     }"

definition Allocator_dumpDebugInfo :: "AllocatorHal \<Rightarrow> (gr_trace, unit) state" where
  "Allocator_dumpDebugInfo mHal =
     do {
       info \<leftarrow> hal_dumpDebugInfo mHal;
       call (\<lambda>_. ()) (\<lambda>_. DumpReply info)
     }"

datatype request = Allocate BufferDescriptor u32 | DumpDebugInfo

primrec handle_request :: "AllocatorHal \<Rightarrow> request \<Rightarrow> (gr_trace, unit) state" where
  "handle_request mHal (Allocate d n) = Allocator_allocate mHal d n"
| "handle_request mHal DumpDebugInfo = Allocator_dumpDebugInfo mHal"

primrec serve :: "AllocatorHal \<Rightarrow> request list \<Rightarrow> (gr_trace, unit) state" where
  "serve mHal [] = return ()"
| "serve mHal (r # rs) =
     do {
       handle_request mHal r;
       serve mHal rs
     }"

definition replies :: "gr_trace \<Rightarrow> gr_event list" where
  "replies tr = filter is_reply tr"

section \<open>Lemmas\<close>

lemma silent_replies: "extends_by (\<lambda>ev. \<not> is_reply ev) tr tr' \<Longrightarrow> replies tr' = replies tr"
  by (auto simp: extends_by_def replies_def list_all_iff filter_empty_conv)

lemma uses_device_session:
  "extends_by uses_device tr tr' \<Longrightarrow> open_devices tr = Some (Suc n) \<Longrightarrow> open_devices tr' = Some (Suc n)"
  by (rule extends_by_idle_at) (auto elim: extends_by_mono simp: uses_device_def)

lemma emits_hidl_cb: "P (AllocateReply err s bs) \<Longrightarrow> emits P (hidl_cb_allocate err s bs)"
  unfolding hidl_cb_allocate_def by (rule emits_call)

text \<open>What a request may answer: success carries the number of handles asked for, a failure none.\<close>

fun answers :: "request \<Rightarrow> gr_event \<Rightarrow> bool" where
  "answers (Allocate d n) (AllocateReply e stride bs) \<longleftrightarrow>
     (if e = NONE then length bs = unat n else stride = 0 \<and> bs = [])"
| "answers DumpDebugInfo (DumpReply _) \<longleftrightarrow> True"
| "answers _ _ \<longleftrightarrow> False"

context allocator_hal begin

lemma allocate_cases:
  assumes "run_state (Allocator_allocate (hal e) d n) tr = (u, tr')"
  obtains (error) err tr1 where "run_state (hal_allocateBuffers (hal e) d n) tr = (Inl err, tr1)"
      "tr' = tr1 @ [AllocateReply err 0 []]"
  | (success) stride bs tr1 where
      "run_state (hal_allocateBuffers (hal e) d n) tr = (Inr (stride, bs), tr1)"
      "run_state (hal_freeBuffers (hal e) bs) (tr1 @ [AllocateReply NONE stride bs]) = ((), tr')"
proof -
  obtain r tr1 where alloc: "run_state (hal_allocateBuffers (hal e) d n) tr = (r, tr1)"
    by (rule run_state_obtain1)
  show thesis
  proof (cases r)
    case (Inl err)
    with assms alloc error show thesis
      by (simp add: Allocator_allocate_def hidl_cb_allocate_def)
  next
    case (Inr sb)
    obtain stride bs where "sb = (stride, bs)" by (rule prod.exhaust)
    with assms alloc Inr success show thesis
      by (simp add: Allocator_allocate_def hidl_cb_allocate_def)
  qed
qed

lemma allocate_owns:
  assumes "contract e" and "outstanding tr = Some M"
    and "run_state (Allocator_allocate (hal e) d n) tr = (u, tr')"
  shows "outstanding tr' = Some M"
  using assms(3)
proof (cases rule: allocate_cases)
  case (error err tr1)
  from alloc_err [OF assms(1) error(1) assms(2)] error(2) show ?thesis by simp
next
  case (success stride bs tr1)
  from alloc_ok [OF assms(1) success(1) assms(2)]
  have "outstanding (tr1 @ [AllocateReply NONE stride bs]) = Some (M + mset bs)" by simp
  from free_ok [OF this success(2)] show ?thesis .
qed

lemma allocate_answers:
  assumes "run_state (Allocator_allocate (hal e) d n) tr = (u, tr')"
  shows "\<exists>ev. replies tr' = replies tr @ [ev] \<and> answers (Allocate d n) ev"
  using assms
proof (cases rule: allocate_cases)
  case (error err tr1)
  from silent_replies [OF emits_run [OF alloc_silent error(1)]] error(2) alloc_err_code [OF error(1)]
  show ?thesis by (simp add: replies_def is_reply_def)
next
  case (success stride bs tr1)
  from silent_replies [OF emits_run [OF alloc_silent success(1)]]
    silent_replies [OF emits_run [OF free_silent success(2)]] alloc_length [OF success(1)]
  show ?thesis by (simp add: replies_def is_reply_def)
qed

lemma dump_owns:
  assumes "outstanding tr = Some M" and "run_state (Allocator_dumpDebugInfo (hal e)) tr = (u, tr')"
  shows "outstanding tr' = Some M"
proof -
  obtain info tr1 where dump: "run_state (hal_dumpDebugInfo (hal e)) tr = (info, tr1)"
    by (rule run_state_obtain1)
  from extends_by_idle [OF emits_run [OF dump_neutral dump]] assms(1)
  have "outstanding tr1 = Some M" by simp
  with assms(2) dump show ?thesis by (auto simp: Allocator_dumpDebugInfo_def)
qed

lemma dump_answers:
  assumes "run_state (Allocator_dumpDebugInfo (hal e)) tr = (u, tr')"
  shows "\<exists>ev. replies tr' = replies tr @ [ev] \<and> answers DumpDebugInfo ev"
proof -
  obtain info tr1 where dump: "run_state (hal_dumpDebugInfo (hal e)) tr = (info, tr1)"
    by (rule run_state_obtain1)
  from silent_replies [OF emits_run [OF dump_silent dump]] assms dump
  show ?thesis by (auto simp: Allocator_dumpDebugInfo_def replies_def is_reply_def)
qed

lemma request_owns:
  "contract e \<Longrightarrow> outstanding tr = Some M \<Longrightarrow> run_state (handle_request (hal e) r) tr = (u, tr') \<Longrightarrow>
   outstanding tr' = Some M"
  by (cases r) (auto dest: allocate_owns dump_owns)

lemma request_answers:
  "run_state (handle_request (hal e) r) tr = (u, tr') \<Longrightarrow>
   \<exists>ev. replies tr' = replies tr @ [ev] \<and> answers r ev"
  by (cases r) (auto dest: allocate_answers dump_answers)

lemma serve_owns:
  "contract e \<Longrightarrow> outstanding tr = Some M \<Longrightarrow> run_state (serve (hal e) rs) tr = (u, tr') \<Longrightarrow>
   outstanding tr' = Some M"
proof (induction rs arbitrary: tr)
  case Nil
  then show ?case by simp
next
  case (Cons r rs)
  obtain tr1 where one: "run_state (handle_request (hal e) r) tr = ((), tr1)"
    by (cases "run_state (handle_request (hal e) r) tr") simp
  with Cons.prems(3) have "run_state (serve (hal e) rs) tr1 = (u, tr')" by simp
  from Cons.IH [OF Cons.prems(1) request_owns [OF Cons.prems(1,2) one] this] show ?case .
qed

lemma serve_answers:
  "run_state (serve (hal e) rs) tr = (u, tr') \<Longrightarrow>
   \<exists>evs. replies tr' = replies tr @ evs \<and> list_all2 answers rs evs"
proof (induction rs arbitrary: tr)
  case Nil
  then show ?case by simp
next
  case (Cons r rs)
  obtain tr1 where one: "run_state (handle_request (hal e) r) tr = ((), tr1)"
    by (cases "run_state (handle_request (hal e) r) tr") simp
  with Cons.prems have "run_state (serve (hal e) rs) tr1 = (u, tr')" by simp
  from Cons.IH [OF this] request_answers [OF one] show ?case by fastforce
qed

lemma request_session: "emits uses_device (handle_request (hal e) r)"
  by (cases r)
     (auto simp: Allocator_allocate_def Allocator_dumpDebugInfo_def uses_device_def
       intro!: emits_rules emits_hidl_cb alloc_session free_session dump_session
       split: sum.split prod.split)

lemma serve_session: "emits uses_device (serve (hal e) rs)"
  by (induction rs) (auto intro!: emits_rules request_session)

end

end
