(* ===== verification/Gralloc_Loader.thy ===== *)
theory Gralloc_Loader
  imports Gralloc1_Hal Gralloc0_Hal Allocator
begin

text \<open>
  GrallocLoader.h: find the gralloc module, choose the back end by the major version of its API,
  open the device and wrap it in an \<open>Allocator\<close>; and \<open>HIDL_FETCH_IAllocator\<close> of Allocator.cpp,
  which does just that. \<open>hw_get_module\<close> is outside the repository: it answers with an error code
  and a module, or null, of which the code reads the 16-bit API version only.
\<close>

section \<open>Definitions\<close>

record loader_env =
  ld_get_module :: "gr_trace \<Rightarrow> int \<times> u16 option"
  ld_gralloc1 :: gralloc1_env
  ld_gralloc0 :: gralloc0_env

datatype hal_object = Gralloc1Hal gralloc1_hal | Gralloc0Hal gralloc0_hal

record Allocator_object =
  mHal :: hal_object

definition loadModule :: "loader_env \<Rightarrow> (gr_trace, u16 option) state" where
  "loadModule env =
     do {
       (error, module) \<leftarrow> call (ld_get_module env) (\<lambda>(error, _). HwGetModule error);
       return (if error \<noteq> 0 then None else module)
     }"

definition getModuleMajorApiVersion :: "u16 \<Rightarrow> int" where
  "getModuleMajorApiVersion version = uint (drop_bit 8 version AND 0xff)"

definition createHal :: "loader_env \<Rightarrow> u16 \<Rightarrow> (gr_trace, hal_object option) state" where
  "createHal env module =
     (let major = getModuleMajorApiVersion module
      in if major = 1 then
           do {
             (ok, hal) \<leftarrow> initWithModule (ld_gralloc1 env) gralloc1_hal_new;
             if ok then return (Some (Gralloc1Hal hal))
             else do {
               gralloc1_destructor hal;
               return None
             }
           }
         else if major = 0 then
           do {
             (ok, hal) \<leftarrow> initWithModule0 (ld_gralloc0 env) gralloc0_hal_new;
             if ok then return (Some (Gralloc0Hal hal))
             else do {
               gralloc0_destructor hal;
               return None
             }
           }
         else return None)"

text \<open>\<open>init\<close> moves the HAL into the allocator and always returns true.\<close>

definition Allocator_init :: "hal_object \<Rightarrow> bool \<times> Allocator_object" where
  "Allocator_init hal = (True, \<lparr>mHal = hal\<rparr>)"

definition createAllocator :: "hal_object \<Rightarrow> Allocator_object option" where
  "createAllocator hal = (let (ok, allocator) = Allocator_init hal in if ok then Some allocator else None)"

definition load :: "loader_env \<Rightarrow> (gr_trace, Allocator_object option) state" where
  "load env =
     do {
       module \<leftarrow> loadModule env;
       case module of
         None \<Rightarrow> return None
       | Some module \<Rightarrow>
           do {
             hal \<leftarrow> createHal env module;
             case hal of None \<Rightarrow> return None | Some hal \<Rightarrow> return (createAllocator hal)
           }
     }"

definition HIDL_FETCH_IAllocator :: "loader_env \<Rightarrow> (gr_trace, Allocator_object option) state" where
  "HIDL_FETCH_IAllocator env = load env"

text \<open>The virtual methods of the HAL an allocator holds, and its destruction.\<close>

definition object_hal :: "loader_env \<Rightarrow> Allocator_object \<Rightarrow> AllocatorHal" where
  "object_hal env allocator =
     (case mHal allocator of
        Gralloc1Hal hal \<Rightarrow> gralloc1_as_hal (ld_gralloc1 env, hal)
      | Gralloc0Hal hal \<Rightarrow> gralloc0_as_hal (ld_gralloc0 env))"

definition Allocator_destructor :: "Allocator_object \<Rightarrow> (gr_trace, unit) state" where
  "Allocator_destructor allocator =
     (case mHal allocator of
        Gralloc1Hal hal \<Rightarrow> gralloc1_destructor hal
      | Gralloc0Hal hal \<Rightarrow> gralloc0_destructor hal)"

definition loader_contract :: "loader_env \<times> Allocator_object \<Rightarrow> bool" where
  "loader_contract ea \<longleftrightarrow> not_shared_only_from_allocate (env_dev (ld_gralloc1 (fst ea)))"

definition object_open :: "Allocator_object \<Rightarrow> bool" where
  "object_open allocator \<longleftrightarrow>
     (case mHal allocator of Gralloc1Hal hal \<Rightarrow> mDevice hal | Gralloc0Hal hal \<Rightarrow> mDevice0 hal)"

section \<open>Lemmas\<close>

text \<open>Whatever back end was chosen, the service sees one \<open>allocator_hal\<close>.\<close>

interpretation loaded: allocator_hal "\<lambda>(env, allocator). object_hal env allocator" loader_contract
proof (unfold_locales, goal_cases)
  case (1 e d n tr stride bs tr' M)
  then show ?case
    using gralloc1.alloc_ok gralloc0.alloc_ok
    by (cases e; cases "mHal (snd e)")
       (auto simp: object_hal_def loader_contract_def gralloc1_contract_def)
next
  case (2 e d n tr stride bs tr')
  then show ?case
    using gralloc1.alloc_length gralloc0.alloc_length
    by (cases e; cases "mHal (snd e)") (auto simp: object_hal_def)
next
  case (3 e d n tr err tr' M)
  then show ?case
    using gralloc1.alloc_err gralloc0.alloc_err
    by (cases e; cases "mHal (snd e)")
       (auto simp: object_hal_def loader_contract_def gralloc1_contract_def)
next
  case (4 e d n tr err tr')
  then show ?case
    using gralloc1.alloc_err_code gralloc0.alloc_err_code
    by (cases e; cases "mHal (snd e)") (auto simp: object_hal_def)
next
  case (5 tr M bs e tr')
  obtain env a where e: "e = (env, a)" by (rule prod.exhaust)
  show ?case
  proof (cases "mHal a")
    case (Gralloc1Hal hal)
    with 5(2) e have "run_state (hal_freeBuffers (gralloc1_as_hal (ld_gralloc1 env, hal)) bs) tr = ((), tr')"
      by (simp add: object_hal_def)
    from gralloc1.free_ok [OF 5(1) this] show ?thesis .
  next
    case (Gralloc0Hal hal)
    with 5(2) e have "run_state (hal_freeBuffers (gralloc0_as_hal (ld_gralloc0 env)) bs) tr = ((), tr')"
      by (simp add: object_hal_def)
    from gralloc0.free_ok [OF 5(1) this] show ?thesis .
  qed
next
  case (6 e d n)
  show ?case
    by (cases e; cases "mHal (snd e)") (simp_all add: object_hal_def gralloc1.alloc_silent gralloc0.alloc_silent)
next
  case (7 e bs)
  show ?case
    by (cases e; cases "mHal (snd e)") (simp_all add: object_hal_def gralloc1.free_silent gralloc0.free_silent)
next
  case (8 e)
  show ?case
    by (cases e; cases "mHal (snd e)") (simp_all add: object_hal_def gralloc1.dump_silent gralloc0.dump_silent)
next
  case (9 e)
  show ?case
    by (cases e; cases "mHal (snd e)") (simp_all add: object_hal_def gralloc1.dump_neutral gralloc0.dump_neutral)
next
  case (10 e d n)
  show ?case
    by (cases e; cases "mHal (snd e)") (simp_all add: object_hal_def gralloc1.alloc_session gralloc0.alloc_session)
next
  case (11 e bs)
  show ?case
    by (cases e; cases "mHal (snd e)") (simp_all add: object_hal_def gralloc1.free_session gralloc0.free_session)
next
  case (12 e)
  show ?case
    by (cases e; cases "mHal (snd e)") (simp_all add: object_hal_def gralloc1.dump_session gralloc0.dump_session)
qed

lemma createHal_session:
  assumes "run_state (createHal env module) tr = (r, tr')" and "open_devices tr = Some n"
  shows "case r of
           None \<Rightarrow> open_devices tr' = Some n
         | Some hal \<Rightarrow> open_devices tr' = Some (Suc n) \<and> object_open \<lparr>mHal = hal\<rparr>"
proof -
  obtain ok1 hal1 tr1 where
    one: "run_state (initWithModule (ld_gralloc1 env) gralloc1_hal_new) tr = ((ok1, hal1), tr1)"
    by (rule run_state_obtain2)
  obtain ok0 hal0 tr0 where
    zero: "run_state (initWithModule0 (ld_gralloc0 env) gralloc0_hal_new) tr = ((ok0, hal0), tr0)"
    by (rule run_state_obtain2)
  note s1 = initWithModule_session [OF one assms(2)] and s0 = initWithModule0_session [OF zero assms(2)]
  show ?thesis
    using assms one zero s1 s0
    by (cases ok0; cases ok1)
       (auto simp: createHal_def Let_def object_open_def gralloc1_destructor_def gralloc0_destructor_def
         split: if_splits)
qed

lemma load_cases:
  assumes "run_state (load env) tr = (r, tr')"
  obtains (no_module) err where "r = None" "tr' = tr @ [HwGetModule err]"
  | (no_hal) module where "r = None"
      "run_state (createHal env module) (tr @ [HwGetModule 0]) = (None, tr')"
  | (loaded) module hal where "r = Some \<lparr>mHal = hal\<rparr>"
      "run_state (createHal env module) (tr @ [HwGetModule 0]) = (Some hal, tr')"
proof -
  obtain err found where mod: "ld_get_module env tr = (err, found)" by (rule prod.exhaust)
  show thesis
  proof (cases "err = 0 \<and> found \<noteq> None")
    case False
    with assms mod no_module show thesis by (auto simp: load_def loadModule_def)
  next
    case True
    then obtain module where found: "err = 0" "found = Some module" by blast
    obtain h tr1 where create: "run_state (createHal env module) (tr @ [HwGetModule 0]) = (h, tr1)"
      by (rule run_state_obtain1)
    show thesis
    proof (cases h)
      case None
      with assms mod found create no_hal show thesis by (simp add: load_def loadModule_def)
    next
      case (Some hal)
      with assms mod found create have "r = Some \<lparr>mHal = hal\<rparr>" "tr1 = tr'"
        by (simp_all add: load_def loadModule_def createAllocator_def Allocator_init_def)
      with loaded create Some show thesis by blast
    qed
  qed
qed

lemma load_session:
  assumes "run_state (load env) tr = (r, tr')" and "open_devices tr = Some n"
  shows "case r of
           None \<Rightarrow> open_devices tr' = Some n
         | Some allocator \<Rightarrow> open_devices tr' = Some (Suc n) \<and> object_open allocator"
  using assms(1)
proof (cases rule: load_cases)
  case (no_module err)
  with assms(2) show ?thesis by simp
next
  case (no_hal module)
  from createHal_session [OF no_hal(2)] assms(2) no_hal(1) show ?thesis by simp
next
  case (loaded module hal)
  from createHal_session [OF loaded(2)] assms(2) loaded(1) show ?thesis by simp
qed

lemma emits_createHal:
  assumes "\<And>r. P (Open1 r)" "P Close1" "\<And>r. P (Open0 r)" "P Close0" "\<And>n. P (GetCapabilities n)"
    "\<And>f b. P (GetFunction f b)"
  shows "emits P (createHal env module)"
  unfolding createHal_def Let_def initWithModule_def initWithModule0_def gralloc1_destructor_def
    gralloc0_destructor_def gralloc1_close_def gralloc_close_def
  by (auto intro!: emits_rules emits_initCapabilities emits_initDispatch assms split: prod.split)

lemma load_owns:
  assumes "run_state (load env) tr = (r, tr')"
  shows "outstanding tr' = outstanding tr"
proof (rule extends_by_idle)
  have "emits (\<lambda>e. \<forall>m. own_step e m = Some m) (load env)"
    unfolding load_def loadModule_def
    by (auto intro!: emits_rules emits_createHal split: prod.split option.split)
  with assms show "extends_by (\<lambda>e. \<forall>m. own_step e m = Some m) tr tr'"
    by (simp add: emits_run)
qed

lemma createHal_ready:
  "run_state (createHal env module) tr = (Some (Gralloc1Hal hal), tr') \<Longrightarrow> hal_ready hal"
  by (auto simp: createHal_def Let_def dest: initWithModule_ready split: prod.splits if_splits)

lemma createHal_unknown:
  "getModuleMajorApiVersion module \<noteq> 0 \<Longrightarrow> getModuleMajorApiVersion module \<noteq> 1 \<Longrightarrow>
   run_state (createHal env module) tr = (None, tr)"
  by (simp add: createHal_def Let_def)

lemma destructor_session:
  "object_open allocator \<Longrightarrow> open_devices tr = Some (Suc n) \<Longrightarrow>
   run_state (Allocator_destructor allocator) tr = (u, tr') \<Longrightarrow> open_devices tr' = Some n"
  by (auto simp: object_open_def Allocator_destructor_def gralloc1_destructor_def
      gralloc0_destructor_def gralloc1_close_def gralloc_close_def split: hal_object.splits)

end
