(* ===== verification/Allocator_Properties.thy ===== *)
theory Allocator_Properties
  imports Gralloc_Loader Gralloc1_Properties
begin

text \<open>
  What the allocator service guarantees as a whole (Allocator.cpp on a back end found by
  GrallocLoader.h), what the gralloc0 back end guarantees (Gralloc0Hal.h), and where the two back
  ends differ.
\<close>

section \<open>The life of the service, and closed instances\<close>

text \<open>The process: fetch the implementation once, then answer the requests the HIDL runtime brings.\<close>

definition service_run :: "loader_env \<Rightarrow> request list \<Rightarrow> (gr_trace, bool) state" where
  "service_run env rs =
     do {
       allocator \<leftarrow> HIDL_FETCH_IAllocator env;
       case allocator of
         None \<Rightarrow> return False
       | Some allocator \<Rightarrow> do { serve (object_hal env allocator) rs; return True }
     }"

definition sample_g0 :: gralloc0_env where
  "sample_g0 =
     \<lparr>env0_dev = \<lparr>dev0_open = (\<lambda>_. 0), dev0_dump = Some (\<lambda>_. ''dump''),
        dev0_alloc = (\<lambda>tr _ _ _ _. (0, Some (200 + of_nat (length tr)), Some 128)),
        dev0_free = (\<lambda>_ _. 0)\<rparr>,
      env0_decode = (\<lambda>d. if d = [] then None
        else Some \<lparr>bd_width = 64, bd_height = 32, bd_layerCount = hd d, bd_format = 1, bd_usage = 0x133\<rparr>),
      env0_tmpBuffer = (\<lambda>_. 0xdead), env0_tmpStride = (\<lambda>_. 0xdead)\<rparr>"

definition sample_loader :: "u16 \<Rightarrow> loader_env" where
  "sample_loader v = \<lparr>ld_get_module = (\<lambda>_. (0, Some v)), ld_gralloc1 = sample_env, ld_gralloc0 = sample_g0\<rparr>"

lemma run_obtain:
  assumes "fst (run_state m s) = x"
  obtains s' where "run_state m s = (x, s')"
  using assms by (cases "run_state m s") auto

lemma sample_loader_contract:
  "not_shared_only_from_allocate (env_dev (ld_gralloc1 (sample_loader v)))"
  by (simp add: sample_loader_def sample_documented)

section \<open>Properties of the service\<close>

text \<open>C1: The service keeps nothing. Whatever module is found and whatever requests arrive, in any
  order and number, no buffer is ever released twice or shown to a client after its release, and
  afterwards no buffer is outstanding; one device is open if the service came up, none otherwise, and
  no call ever reached a device that was not open.\<close>

theorem allocator_service_never_leaks:
  assumes "not_shared_only_from_allocate (env_dev (ld_gralloc1 env))"
    and "run_state (service_run env rs) [] = (up, tr)"
  shows "outstanding tr = Some {#} \<and> open_devices tr = Some (if up then 1 else 0)"
proof -
  obtain r tr1 where load: "run_state (load env) [] = (r, tr1)" by (rule run_state_obtain1)
  have own: "outstanding tr1 = Some {#}" using load_owns [OF load] by simp
  have sess: "case r of None \<Rightarrow> open_devices tr1 = Some 0
      | Some allocator \<Rightarrow> open_devices tr1 = Some (Suc 0) \<and> object_open allocator"
    by (rule load_session [OF load]) simp
  show ?thesis
  proof (cases r)
    case None
    with assms(2) load own sess show ?thesis
      by (simp add: service_run_def HIDL_FETCH_IAllocator_def)
  next
    case (Some allocator)
    have up: "up" and serve: "run_state (serve (object_hal env allocator) rs) tr1 = ((), tr)"
      using assms(2) load Some
      by (auto simp: service_run_def HIDL_FETCH_IAllocator_def split: prod.splits)
    have "loader_contract (env, allocator)" using assms(1) by (simp add: loader_contract_def)
    from loaded.serve_owns [OF this own] serve have "outstanding tr = Some {#}" by auto
    moreover have "emits uses_device (serve (object_hal env allocator) rs)"
      using loaded.serve_session [of "(env, allocator)" rs] by simp
    from uses_device_session [OF emits_run [OF this serve]] sess Some
    have "open_devices tr = Some (Suc 0)" by simp
    ultimately show ?thesis using up by simp
  qed
qed

theorem allocator_service_never_leaks_witness:
  "fst (run_state (service_run (sample_loader 0x100) [Allocate [1] 2, DumpDebugInfo]) []) \<and>
   outstanding (snd (run_state (service_run (sample_loader 0x100) [Allocate [1] 2, DumpDebugInfo]) [])) = Some {#}"
proof -
  have up: "fst (run_state (service_run (sample_loader 0x100) [Allocate [1] 2, DumpDebugInfo]) []) = True"
    by code_simp
  then obtain tr where
    run: "run_state (service_run (sample_loader 0x100) [Allocate [1] 2, DumpDebugInfo]) [] = (True, tr)"
    by (rule run_obtain)
  from allocator_service_never_leaks [OF sample_loader_contract run] run show ?thesis by simp
qed

text \<open>Every request is answered, once and in order. A successful allocation answers with as
  many handles as were asked for, a failed one with stride 0 and no handles.\<close>

theorem allocator_answers_every_request:
  assumes "run_state (serve (object_hal env allocator) rs) tr = (u, tr')"
  shows "\<exists>evs. replies tr' = replies tr @ evs \<and> list_all2 answers rs evs"
  using loaded.serve_answers [of "(env, allocator)" rs tr u tr'] assms by simp

theorem allocator_answers_every_request_witness:
  "\<exists>evs. replies (snd (run_state (serve (object_hal (sample_loader 0) \<lparr>mHal = Gralloc0Hal \<lparr>mDevice0 = True\<rparr>\<rparr>)
       [Allocate [1] 1, Allocate [] 3]) [])) = evs \<and>
     list_all2 answers [Allocate [1] 1, Allocate [] 3] evs"
proof -
  obtain u tr where "run_state (serve (object_hal (sample_loader 0) \<lparr>mHal = Gralloc0Hal \<lparr>mDevice0 = True\<rparr>\<rparr>)
      [Allocate [1] 1, Allocate [] 3]) [] = (u, tr)"
    by (rule run_state_obtain1)
  from allocator_answers_every_request [OF this] this show ?thesis by (simp add: replies_def)
qed

text \<open>C18: The order inside one allocation. The client is answered while all the handles it is given
  are outstanding, and only then are the local handles freed, all of them.\<close>

theorem allocator_lends_live_handles:
  assumes "loader_contract (env, allocator)" and "outstanding tr = Some M"
    and "run_state (Allocator_allocate (object_hal env allocator) d n) tr = (u, tr')"
  shows "\<exists>tr1 err stride bs frees.
           tr' = tr1 @ AllocateReply err stride bs # frees \<and>
           outstanding tr1 = Some (M + mset bs) \<and> outstanding tr' = Some M \<and>
           list_all (\<lambda>ev. \<not> is_reply ev) frees \<and> (err \<noteq> NONE \<longrightarrow> bs = [] \<and> frees = [])"
proof -
  have run: "run_state (Allocator_allocate (case (env, allocator) of (env, a) \<Rightarrow> object_hal env a) d n) tr = (u, tr')"
    using assms(3) by simp
  note owns = loaded.allocate_owns [OF assms(1,2) run]
  from run show ?thesis
  proof (cases rule: loaded.allocate_cases)
    case (error err tr1)
    from loaded.alloc_err [OF assms(1) error(1) assms(2)] loaded.alloc_err_code [OF error(1)] owns error(2)
    show ?thesis by (intro exI [of _ tr1] exI [of _ err] exI [of _ 0] exI [of _ "[]"]) simp
  next
    case (success stride bs tr1)
    obtain frees where "tr' = (tr1 @ [AllocateReply NONE stride bs]) @ frees"
      "list_all (\<lambda>ev. \<not> is_reply ev) frees"
      using emits_run [OF loaded.free_silent success(2)] by (auto simp: extends_by_def)
    with loaded.alloc_ok [OF assms(1) success(1) assms(2)] owns show ?thesis
      by (intro exI [of _ tr1] exI [of _ NONE] exI [of _ stride] exI [of _ bs] exI [of _ frees]) simp
  qed
qed

theorem allocator_lends_live_handles_witness:
  "\<exists>tr1 err stride bs frees.
     snd (run_state (Allocator_allocate (object_hal (sample_loader 0x100) \<lparr>mHal = Gralloc1Hal sample_hal\<rparr>) [1] 2) []) =
       tr1 @ AllocateReply err stride bs # frees \<and> outstanding tr1 = Some (mset bs)"
proof -
  let ?alloc = "Allocator_allocate (object_hal (sample_loader 0x100) \<lparr>mHal = Gralloc1Hal sample_hal\<rparr>) [1] 2"
  obtain u tr where run: "run_state ?alloc [] = (u, tr)" by (rule run_state_obtain1)
  have "loader_contract (sample_loader 0x100, \<lparr>mHal = Gralloc1Hal sample_hal\<rparr>)"
    by (simp add: loader_contract_def sample_loader_contract)
  from allocator_lends_live_handles [OF this _ run, of "{#}"] run show ?thesis by fastforce
qed

end
