(* ===== verification/Gralloc0_Properties.thy ===== *)
theory Gralloc0_Properties
  imports Allocator_Properties
begin

text \<open>
  What the gralloc0 back end (Gralloc0Hal.h) guarantees, and what the loader (GrallocLoader.h) guarantees
  about the device it opens. Nothing is assumed of the gralloc0
  device: every answer it can give is covered.
\<close>

section \<open>Properties of the gralloc0 back end\<close>

text \<open>C37: Ownership in the gralloc0 back end, whatever the device answers: a failed \<open>allocateBuffers\<close> leaves exactly the buffers outstanding that were before, a successful one adds exactly the \<open>count\<close> handles it returns, and no buffer is freed that is not outstanding.\<close>

theorem gralloc0_allocate_ownership:
  assumes "outstanding tr = Some M" and "run_state (allocateBuffers0 env d n) tr = (r, tr')"
  shows "case r of
           Inl err \<Rightarrow> err \<noteq> NONE \<and> outstanding tr' = Some M
         | Inr (stride, bs) \<Rightarrow> length bs = unat n \<and> outstanding tr' = Some (M + mset bs)"
  using allocateBuffers0_owns [OF assms(2,1)] assms(2)
  by (auto dest: allocateBuffers0_length allocateBuffers0_err_code split: sum.split)

lemma sample_g0_run: "fst (run_state (allocateBuffers0 sample_g0 [1] 2) []) = Inr (128, [200, 201])"
  by code_simp

theorem gralloc0_allocate_ownership_witness:
  "outstanding (snd (run_state (allocateBuffers0 sample_g0 [1] 2) [])) = Some {#200, 201#}"
  using gralloc0_allocate_ownership [of "[]" "{#}" sample_g0 "[1]" 2] sample_g0_run
  by (cases "run_state (allocateBuffers0 sample_g0 [1] 2) []") simp

text \<open>C30: A request gralloc0 cannot express, with several layers or with usage bits above bit 31, never reaches the device: with a positive count it is refused with \<open>BAD_VALUE\<close>. With count 0 the check is never run and the call succeeds.\<close>

theorem gralloc0_rejects_wide_request:
  assumes "env0_decode env d = Some info"
    and "1 < bd_layerCount info \<or> 2 ^ 32 \<le> uint (bd_usage info)"
  shows "run_state (allocateBuffers0 env d n) tr = (if n = 0 then Inr (0, []) else Inl BAD_VALUE, tr)"
proof -
  have "drop_bit 32 (bd_usage info) \<noteq> 0 \<longleftrightarrow> 2 ^ 32 \<le> uint (bd_usage info)"
  proof -
    have "uint (drop_bit 32 (bd_usage info)) = uint (bd_usage info) div 2 ^ 32"
      by (simp add: drop_bit_eq_div uint_div_distrib)
    moreover have "drop_bit 32 (bd_usage info) = 0 \<longleftrightarrow> uint (drop_bit 32 (bd_usage info)) = 0"
      by (rule unsigned_eq_0_iff [symmetric])
    ultimately show ?thesis
      by (simp add: zdiv_eq_0_iff not_less)
  qed
  with assms(2) have bad: "1 < bd_layerCount info \<or> drop_bit 32 (bd_usage info) \<noteq> 0" by blast
  show ?thesis
  proof (cases "unat n")
    case 0
    then have "n = 0" by (simp add: unat_eq_0)
    with assms(1) show ?thesis by (simp add: allocateBuffers0_def)
  next
    case (Suc k)
    then have "n \<noteq> 0" by auto
    with bad Suc assms(1) show ?thesis by (simp add: allocateBuffers0_def allocateOneBuffer0_def)
  qed
qed

theorem gralloc0_rejects_wide_request_witness:
  "run_state (allocateBuffers0 sample_g0 [2] 3) [] = (Inl BAD_VALUE, [])"
  using gralloc0_rejects_wide_request [of sample_g0 "[2]" _ 3 "[]"] by (simp add: sample_g0_def)

text \<open>C29: Nothing is lost in the narrowing to the device's \<open>int\<close> parameters: every allocation asks for the width, height, format and the whole usage of the decoded request.\<close>

theorem gralloc0_carries_request:
  assumes "env0_decode env d = Some info"
  shows "emits (carries_request info) (allocateBuffers0 env d n)"
proof (rule emits_allocateBuffers0)
  fix info' r h s
  assume "env0_decode env d = Some info'" and "drop_bit 32 (bd_usage info') = 0"
  with assms have eq: "info' = info" and high: "drop_bit 32 (bd_usage info) = 0" by simp_all
  have "ucast (ucast (bd_usage info) :: i32) = take_bit 32 (bd_usage info)"
    by (rule bit_word_eqI) (auto simp: bit_simps)
  also have "\<dots> = bd_usage info"
    using high bits_ident [of 32 "bd_usage info"] by simp
  finally show "carries_request info (Alloc0 (bd_width info') (bd_height info') (bd_format info')
      (ucast (bd_usage info')) r h s)"
    using eq by simp
qed simp

theorem gralloc0_carries_request_witness:
  "emits (carries_request \<lparr>bd_width = 64, bd_height = 32, bd_layerCount = 1, bd_format = 1, bd_usage = 0x133\<rparr>)
     (allocateBuffers0 sample_g0 [1] 2)"
  using gralloc0_carries_request [of sample_g0 "[1]" _ 2] by (simp add: sample_g0_def)

text \<open>The uninitialised locals \<open>tmpBuffer\<close> and \<open>tmpStride\<close> influence neither the result of \<open>allocateBuffers\<close> nor any call it makes.\<close>

theorem gralloc0_locals_unread:
  "allocateBuffers0 (env\<lparr>env0_tmpBuffer := b, env0_tmpStride := s\<rparr>) d n = allocateBuffers0 env d n"
proof -
  have "allocLoop (\<lambda>i. allocateOneBuffer0 (env\<lparr>env0_tmpBuffer := b, env0_tmpStride := s\<rparr>) info (b i, s i)) k i t bs =
        allocLoop (\<lambda>i. allocateOneBuffer0 env info (env0_tmpBuffer env i, env0_tmpStride env i)) k i t bs"
    for info k i t bs
  proof (rule allocLoop_agrees)
    show "agrees (allocateOneBuffer0 (env\<lparr>env0_tmpBuffer := b, env0_tmpStride := s\<rparr>) info (b i, s i))
        (allocateOneBuffer0 env info (env0_tmpBuffer env i, env0_tmpStride env i))" for i
      by (auto simp: agrees_def agrees_at_def allocateOneBuffer0_def call_alloc_def split: prod.splits)
  qed
  moreover have "freeBuffers0 (env\<lparr>env0_tmpBuffer := b, env0_tmpStride := s\<rparr>) bs = freeBuffers0 env bs" for bs
    by (induction bs) (simp_all add: call_free_def)
  ultimately show ?thesis by (simp add: allocateBuffers0_def cong: option.case_cong if_cong)
qed

text \<open>The stride returned. On success the device has reported one stride per buffer: zeros followed by the returned stride, no other mixture.\<close>

theorem gralloc0_uniform_strides:
  assumes "run_state (allocateBuffers0 env d n) tr = (Inr (stride, bs), tr')"
  shows "\<exists>k m. strides_reported0 tr' = strides_reported0 tr @ replicate k 0 @ replicate m stride \<and>
               k + m = unat n"
  using assms
proof (cases rule: allocateBuffers0_cases)
  case (allocated info stride' bs')
  have "\<exists>ts. strides_reported0 tr' = strides_reported0 tr @ ts \<and>
      (NONE = NONE \<longrightarrow> length ts = unat n \<and> strides_ok 0 ts \<and> stride' = final_stride 0 ts)"
    by (rule allocLoop_strides [OF _ allocated(2)]) (rule allocateOneBuffer0_strides)
  then obtain ts where ts: "strides_reported0 tr' = strides_reported0 tr @ ts" "length ts = unat n"
    "strides_ok 0 ts" "stride' = final_stride 0 ts" by blast
  then obtain k m s where s: "ts = replicate k 0 @ replicate m s" by (auto simp: strides_ok_zero)
  with ts allocated(3) have "stride = (if m = 0 then 0 else s)" by (simp add: final_stride_zeros)
  then have "replicate m stride = replicate m s" by simp
  with ts s show ?thesis by (intro exI [of _ k] exI [of _ m]) auto
qed auto

theorem gralloc0_uniform_strides_witness:
  "\<exists>k m. strides_reported0 (snd (run_state (allocateBuffers0 sample_g0 [1] 2) [])) =
         replicate k 0 @ replicate m 128 \<and> k + m = 2"
  using gralloc0_uniform_strides [of sample_g0 "[1]" 2 "[]" 128 "[200, 201]"] sample_g0_run
  by (cases "run_state (allocateBuffers0 sample_g0 [1] 2) []") (simp add: strides_reported0_def)

lemma c_str_overwrite: "n \<le> m \<Longrightarrow> c_str (take n (overwrite (replicate m NUL) w)) = c_str (take n w)"
proof (cases "n \<le> length w")
  case True
  assume "n \<le> m"
  with True show ?thesis by (simp add: overwrite_def min_def)
next
  case False
  assume "n \<le> m"
  moreover have "c_str (w @ replicate k NUL) = c_str w" for k
    by (cases k) (simp_all add: c_str_def takeWhile_tail)
  ultimately show ?thesis using False by (simp add: overwrite_def min_def)
qed

text \<open>C39: The debug dump of gralloc0. From a device that writes no more than the 4096 bytes it is told there are, the returned text is what it wrote, cut at its first NUL and at 4095 characters, and empty for a device without a \<open>dump\<close>: reading it never runs past the buffer, even when the device leaves no NUL in it.\<close>

theorem gralloc0_dump_bounded:
  assumes "\<And>dump. dev0_dump (env0_dev env) = Some dump \<Longrightarrow> length (dump tr) \<le> 4096"
  shows "fst (run_state (dumpDebugInfo0 env) tr) =
     Some (case dev0_dump (env0_dev env) of None \<Rightarrow> [] | Some dump \<Rightarrow> c_str (take 4095 (dump tr)))"
proof -
  have "c_str (replicate k NUL) = []" for k by (cases k) (simp_all add: c_str_def)
  with assms show ?thesis
    by (simp add: dumpDebugInfo0_def DUMP_BUFFER_SIZE_def write_within_def c_str_update c_str_overwrite
        split: option.split)
qed

theorem gralloc0_dump_bounded_witness:
  "fst (run_state (dumpDebugInfo0 sample_g0) []) = Some ''dump''"
  using gralloc0_dump_bounded [of sample_g0 "[]"] by (simp add: sample_g0_def c_str_def NUL_def)

section \<open>Properties of the loader\<close>

lemma bit_u8_less: "bit (x :: u8) n \<Longrightarrow> n < 8"
  using bit_imp_le_length [of x n] by simp

text \<open>The version that selects the back end. A module whose API version is \<open>major << 8 | minor\<close> is driven by gralloc1 for major 1, by gralloc0 for major 0, and refused for every other major without a single call.\<close>

theorem loader_selects_by_major_version:
  fixes major minor :: u8
  defines "version \<equiv> push_bit 8 (ucast major) OR (ucast minor :: u16)"
  assumes "run_state (createHal env version) tr = (r, tr')"
  shows "(\<forall>hal. r = Some (Gralloc1Hal hal) \<longrightarrow> major = 1) \<and> (\<forall>hal. r = Some (Gralloc0Hal hal) \<longrightarrow> major = 0) \<and>
         (1 < major \<longrightarrow> r = None \<and> tr' = tr)"
proof -
  have "(0xff :: u16) = mask 8" by (simp add: mask_eq_exp_minus_1)
  moreover have "drop_bit 8 version AND mask 8 = ucast major"
    by (rule bit_word_eqI) (auto simp: version_def bit_simps dest: bit_u8_less)
  ultimately have "drop_bit 8 version AND 0xff = ucast major" by simp
  moreover have "uint (ucast major :: u16) = uint major"
    using uint_lt2p [of major] by (simp add: unsigned_ucast_eq take_bit_int_eq_self)
  ultimately have major: "getModuleMajorApiVersion version = uint major"
    by (simp add: getModuleMajorApiVersion_def)
  have small: "uint major = 1 \<longleftrightarrow> major = 1" "uint major = 0 \<longleftrightarrow> major = 0"
    by (simp_all add: word_uint_eq_iff)
  show ?thesis
    using assms(2) by (auto simp: createHal_def Let_def major small split: if_splits prod.splits)
qed

text \<open>C21: The loader and the allocator's destructor balance. Whatever \<open>hw_get_module\<close> and the device answer, \<open>load\<close> leaves one more device open exactly if it returns an allocator, none if it returns null (a device opened and then found unusable is closed), and destroying the allocator closes it again.\<close>

theorem loader_device_balance:
  assumes "open_devices tr = Some n" and "run_state (load env) tr = (r, tr1)"
  shows "case r of
           None \<Rightarrow> open_devices tr1 = Some n
         | Some allocator \<Rightarrow> open_devices tr1 = Some (Suc n) \<and>
             open_devices (snd (run_state (Allocator_destructor allocator) tr1)) = Some n"
proof (cases r)
  case None
  with load_session [OF assms(2,1)] show ?thesis by simp
next
  case (Some allocator)
  with load_session [OF assms(2,1)] have "object_open allocator" "open_devices tr1 = Some (Suc n)" by simp_all
  with destructor_session [of allocator tr1 n] Some show ?thesis
    by (cases "run_state (Allocator_destructor allocator) tr1") simp
qed

theorem loader_selects_by_major_version_witness:
  "fst (run_state (createHal (sample_loader 0x102) 0x102) []) = Some (Gralloc1Hal sample_hal) \<and>
   run_state (createHal (sample_loader 0x203) 0x203) [] = (None, [])"
proof -
  have "push_bit 8 (ucast (2 :: u8)) OR ucast (3 :: u8) = (0x203 :: u16)" by code_simp
  with loader_selects_by_major_version [of "sample_loader 0x203" 2 3 "[]"]
  have "run_state (createHal (sample_loader 0x203) 0x203) [] = (None, [])"
    by (cases "run_state (createHal (sample_loader 0x203) 0x203) []") simp
  moreover have "fst (run_state (createHal (sample_loader 0x102) 0x102) []) = Some (Gralloc1Hal sample_hal)"
    by code_simp
  ultimately show ?thesis by simp
qed

theorem loader_device_balance_witness:
  "open_devices (snd (run_state (load (sample_loader 0x100)) [])) = Some 1"
proof -
  have up: "fst (run_state (load (sample_loader 0x100)) []) = Some \<lparr>mHal = Gralloc1Hal sample_hal\<rparr>"
    by code_simp
  then obtain tr where
    run: "run_state (load (sample_loader 0x100)) [] = (Some \<lparr>mHal = Gralloc1Hal sample_hal\<rparr>, tr)"
    by (rule run_obtain)
  from loader_device_balance [OF _ run, of 0] run show ?thesis by simp
qed

end
