(* ===== verification/Alloc_Refinement.thy ===== *)
theory Alloc_Refinement
  imports Alloc_Spec Gralloc1_Properties Gralloc0_Properties
begin

text \<open>
  Both back ends refine \<open>alloc_spec\<close>: every run of \<open>allocateBuffers\<close> on a decodable request is a
  sequence of single allocations, as the specification allows, and the frees it demands.
\<close>

text \<open>C15: The gralloc0 back end implements the abstract specification of \<open>allocateBuffers\<close>. For a decodable request of one layer whose usage fits 32 bits, the calls it makes are one \<open>alloc\<close> per answer of the device and then one \<open>free\<close> per handle the specification wants freed; and result, number of allocations and freed handles are what \<open>alloc_spec\<close> says for these answers: all \<open>count\<close> buffers with their stride, or the error of the first answer that failed or mixed strides, with everything obtained by then freed.\<close>

theorem gralloc0_refines_spec:
  assumes "env0_decode env d = Some info" "bd_layerCount info \<le> 1" "drop_bit 32 (bd_usage info) = 0"
    and "run_state (allocateBuffers0 env d n) tr = (r, tr')"
  shows "\<exists>answers freed rs. length rs = length freed \<and>
     tr' = tr @ concat (map (block0 info) answers) @ map2 Free0 freed rs \<and>
     alloc_spec (unat n) (map outcome0 answers) r freed"
  using assms(4)
proof (cases rule: allocateBuffers0_cases)
  case undecodable
  with assms(1) show ?thesis by simp
next
  case (failed info' e stride bs tr1)
  with assms(1) have "info' = info" by simp
  from allocLoop_meets_spec [OF allocateOneBuffer0_described [OF assms(2,3)] failed(2) [unfolded this]]
  obtain xs where xs: "tr1 = tr @ concat (map (block0 info) xs)"
    "alloc_spec (unat n) (map outcome0 xs) (Inl e) bs" using failed(3) by auto
  from freeBuffers0_trace [of bs env tr1] failed(5) obtain rs where
    "length rs = length bs" "tr' = tr1 @ map2 Free0 bs rs" by auto
  with xs failed(4) show ?thesis by auto
next
  case (allocated info' stride bs)
  with assms(1) have "info' = info" by simp
  from allocLoop_meets_spec [OF allocateOneBuffer0_described [OF assms(2,3)] allocated(2) [unfolded this]]
  obtain xs where "tr' = tr @ concat (map (block0 info) xs)"
    "alloc_spec (unat n) (map outcome0 xs) (Inr (stride, bs)) []" by auto
  with allocated(3) show ?thesis by (intro exI [of _ xs] exI [of _ "[]"]) simp
qed

theorem gralloc0_refines_spec_witness:
  "\<exists>answers. length answers = 2 \<and> handles_of (map outcome0 answers) = [200, 201] \<and>
     alloc_spec 2 (map outcome0 answers) (Inr (128, [200, 201])) []"
proof -
  obtain tr' where run: "run_state (allocateBuffers0 sample_g0 [1] 2) [] = (Inr (128, [200, 201]), tr')"
    using sample_g0_run by (metis prod.collapse)
  let ?info = "the (env0_decode sample_g0 [1])"
  have "env0_decode sample_g0 [1] = Some ?info" "bd_layerCount ?info \<le> 1" "drop_bit 32 (bd_usage ?info) = 0"
    by (simp_all add: sample_g0_def)
  from gralloc0_refines_spec [OF this run] obtain answers freed where
    "alloc_spec 2 (map outcome0 answers) (Inr (128, [200, 201])) freed" by auto
  then show ?thesis by (intro exI [of _ answers]) (auto simp: alloc_spec_def split: if_splits)
qed

text \<open>C5: The gralloc1 back end implements the same specification. For a decodable request, once the descriptor is configured, the calls it makes are one \<open>allocate\<close>, with \<open>getStride\<close> and, where the stride cannot be had, \<open>release\<close>, per answer of the device; then the descriptor is destroyed; then one \<open>release\<close> per handle the specification wants freed.\<close>

theorem gralloc1_refines_spec:
  assumes "not_shared_only_from_allocate (env_dev env)" "env_decode env d = Some info"
    and "run_state (createDescriptor env hal info (loc_desc (env_locals env))) tr = ((NONE, desc), tr1)"
    and "run_state (allocateBuffers env hal d n) tr = (r, tr')"
  shows "\<exists>answers freed rs. length rs = length freed \<and>
     tr' = tr1 @ concat (map (block1 desc) answers) @ DestroyDescriptor desc # map2 Release freed rs \<and>
     alloc_spec (unat n) (map outcome1 answers) r freed"
  using assms(4)
proof (cases rule: allocateBuffers_cases)
  case undecodable
  with assms(2) show ?thesis by simp
next
  case (no_descriptor info' e desc')
  with assms(2,3) show ?thesis by simp
next
  case (failed info' desc' tr1' e stride bs tr2)
  with assms(2,3) have "desc' = desc" "tr1' = tr1" by simp_all
  from allocLoop_meets_spec [OF allocateOneBuffer_described [OF assms(1)] failed(3) [unfolded this]]
  obtain xs where xs: "tr2 = tr1 @ concat (map (block1 desc) xs)"
    "alloc_spec (unat n) (map outcome1 xs) (Inl e) bs" using failed(4) by auto
  from freeBuffers_trace [of bs env "tr2 @ [DestroyDescriptor desc]"] failed(6) \<open>desc' = desc\<close>
  obtain rs where "length rs = length bs" "tr' = (tr2 @ [DestroyDescriptor desc]) @ map2 Release bs rs"
    by auto
  with xs failed(5) show ?thesis by auto
next
  case (allocated info' desc' tr1' stride bs tr2)
  with assms(2,3) have "desc' = desc" "tr1' = tr1" by simp_all
  from allocLoop_meets_spec [OF allocateOneBuffer_described [OF assms(1)] allocated(3) [unfolded this]]
  obtain xs where "tr2 = tr1 @ concat (map (block1 desc) xs)"
    "alloc_spec (unat n) (map outcome1 xs) (Inr (stride, bs)) []" by auto
  with allocated(4,5) \<open>desc' = desc\<close> show ?thesis by (intro exI [of _ xs] exI [of _ "[]"]) simp
qed

theorem gralloc1_refines_spec_witness:
  "\<exists>answers. length answers = 2 \<and> handles_of (map outcome1 answers) = [106, 108] \<and>
     alloc_spec 2 (map outcome1 answers) (Inr (64, [106, 108])) []"
proof -
  let ?info = "the (env_decode sample_env [1])"
  let ?create = "run_state (createDescriptor sample_env sample_hal ?info (loc_desc (env_locals sample_env))) []"
  have "fst ?create = (NONE, 7)" by code_simp
  then obtain tr1 where create: "?create = ((NONE, 7), tr1)" by (metis prod.collapse)
  obtain tr' where run: "run_state (allocateBuffers sample_env sample_hal [1] 2) [] = (Inr (64, [106, 108]), tr')"
    using sample_run by (metis prod.collapse)
  have "env_decode sample_env [1] = Some ?info" by (simp add: sample_env_def)
  from gralloc1_refines_spec [OF sample_documented(1) this create run] obtain answers freed where
    "alloc_spec 2 (map outcome1 answers) (Inr (64, [106, 108])) freed" by auto
  then show ?thesis by (intro exI [of _ answers]) (auto simp: alloc_spec_def split: if_splits)
qed

end
