(* ===== verification/Thread_Pool.thy ===== *)
theory Thread_Pool
  imports Prelude
begin

text \<open>
  Threads that share the outside world: the small-step counterpart of the actions of \<^theory_text>\<open>Prelude\<close>.
  A program is a finite tree of calls; between two calls of one thread any number of calls of other
  threads may happen, so the reply to a call depends on the trace of all threads. A pool is a list of
  such programs with a log that records who made each call. Programs are reasoned about on the
  calls of their own thread alone (\<open>ends\<close>); the lemmas of the last section bring the threads together.
\<close>

section \<open>Programs\<close>

text \<open>\<open>Call ev k\<close>: the event a call leaves, and the rest of the program, both depending on the trace
  (of all threads) at the moment of the call.\<close>

datatype ('e, 'a) prog = Done 'a | Call "'e list \<Rightarrow> 'e" "'e list \<Rightarrow> ('e, 'a) prog"

primrec bindP :: "('e, 'a) prog \<Rightarrow> ('a \<Rightarrow> ('e, 'b) prog) \<Rightarrow> ('e, 'b) prog" where
  "bindP (Done a) f = f a"
| "bindP (Call ev k) f = Call ev (\<lambda>tr. bindP (k tr) f)"

definition callP :: "('e list \<Rightarrow> 'r) \<Rightarrow> ('r \<Rightarrow> 'e) \<Rightarrow> ('e, 'r) prog" where
  "callP reply ev = Call (\<lambda>tr. ev (reply tr)) (\<lambda>tr. Done (reply tr))"

text \<open>A program that runs alone.\<close>

primrec runP :: "('e, 'a) prog \<Rightarrow> 'e list \<Rightarrow> 'a \<times> 'e list" where
  "runP (Done a) tr = (a, tr)"
| "runP (Call ev k) tr = runP (k tr) (tr @ [ev tr])"

text \<open>However the other threads interfere, the program ends with a result and own calls that satisfy
  \<open>Q\<close>, when its own calls so far are \<open>L\<close>.\<close>

primrec ends :: "('a \<Rightarrow> 'e list \<Rightarrow> bool) \<Rightarrow> ('e, 'a) prog \<Rightarrow> 'e list \<Rightarrow> bool" where
  "ends Q (Done a) L = Q a L"
| "ends Q (Call ev k) L = (\<forall>tr. ends Q (k tr) (L @ [ev tr]))"

section \<open>Pools\<close>

type_synonym ('e, 'a) pool = "('e, 'a) prog list \<times> (nat \<times> 'e) list"

text \<open>One call by one of the threads; \<open>base\<close> is the trace before the threads were started.\<close>

inductive pool_step :: "'e list \<Rightarrow> ('e, 'a) pool \<Rightarrow> ('e, 'a) pool \<Rightarrow> bool" for base where
  step: "i < length ts \<Longrightarrow> ts ! i = Call ev k \<Longrightarrow> tr = base @ map snd log \<Longrightarrow>
    pool_step base (ts, log) (ts[i := k tr], log @ [(i, ev tr)])"

inductive_cases pool_stepE: "pool_step base (ts, log) p"

definition calls_of :: "nat \<Rightarrow> (nat \<times> 'e) list \<Rightarrow> 'e list" where
  "calls_of i log = map snd (filter (\<lambda>(j, _). j = i) log)"

fun is_done :: "('e, 'a) prog \<Rightarrow> bool" where
  "is_done (Done _) = True"
| "is_done (Call _ _) = False"

section \<open>Lemmas: programs\<close>

lemma runP_callP [simp]: "runP (callP reply ev) tr = run_state (call reply ev) tr"
  by (simp add: callP_def)

lemma runP_bindP [simp]: "runP (bindP m f) tr = (case runP m tr of (a, tr') \<Rightarrow> runP (f a) tr')"
  by (induction m arbitrary: tr) auto

text \<open>A program and an action that do the same when nobody interferes.\<close>

definition runs :: "('e, 'a) prog \<Rightarrow> ('e list, 'a) state \<Rightarrow> bool" where
  "runs p m \<longleftrightarrow> (\<forall>tr. runP p tr = run_state m tr)"

named_theorems runs_rules \<open>compositional rules for programs that run alone\<close>

lemma runs_Done [runs_rules]: "runs (Done a) (return a)"
  by (simp add: runs_def)

lemma runs_callP [runs_rules]: "reply = reply' \<Longrightarrow> runs (callP reply ev) (call reply' ev)"
  by (simp add: runs_def)

lemma runs_bindP [runs_rules]: "runs p m \<Longrightarrow> (\<And>a. runs (f a) (g a)) \<Longrightarrow> runs (bindP p f) (m \<bind> g)"
  by (simp add: runs_def)

lemma runs_if [runs_rules]:
  "runs p m \<Longrightarrow> runs q n \<Longrightarrow> runs (if b then p else q) (if b then m else n)"
  by simp

lemma runs_prod [runs_rules]:
  "(\<And>a b. runs (f a b) (g a b)) \<Longrightarrow> runs (case x of (a, b) \<Rightarrow> f a b) (case x of (a, b) \<Rightarrow> g a b)"
  by (cases x) simp

lemma runs_option [runs_rules]:
  "runs p m \<Longrightarrow> (\<And>a. runs (f a) (g a)) \<Longrightarrow>
   runs (case x of None \<Rightarrow> p | Some a \<Rightarrow> f a) (case x of None \<Rightarrow> m | Some a \<Rightarrow> g a)"
  by (cases x) simp_all

lemma runs_sum [runs_rules]:
  "(\<And>a. runs (f a) (g a)) \<Longrightarrow> (\<And>b. runs (f' b) (g' b)) \<Longrightarrow>
   runs (case x of Inl a \<Rightarrow> f a | Inr b \<Rightarrow> f' b) (case x of Inl a \<Rightarrow> g a | Inr b \<Rightarrow> g' b)"
  by (cases x) simp_all

named_theorems ends_rules \<open>compositional rules for programs\<close>

lemma ends_Done [ends_rules]: "Q a L \<Longrightarrow> ends Q (Done a) L"
  by simp

lemma ends_callP [ends_rules]: "(\<And>tr. Q (reply tr) (L @ [ev (reply tr)])) \<Longrightarrow> ends Q (callP reply ev) L"
  by (simp add: callP_def)

lemma ends_bindP:
  "ends R m L \<Longrightarrow> (\<And>a L'. R a L' \<Longrightarrow> ends Q (f a) L') \<Longrightarrow> ends Q (bindP m f) L"
  by (induction m arbitrary: L) auto

lemma ends_bindP_iff: "ends Q (bindP m f) L \<longleftrightarrow> ends (\<lambda>a. ends Q (f a)) m L"
  by (induction m arbitrary: L) auto

lemma ends_bindP_Done [simp]: "ends Q (bindP m (\<lambda>a. Done (g a))) L \<longleftrightarrow> ends (\<lambda>a. Q (g a)) m L"
  by (induction m arbitrary: L) auto

lemma ends_weaken: "ends Q p L \<Longrightarrow> (\<And>a L'. Q a L' \<Longrightarrow> Q' a L') \<Longrightarrow> ends Q' p L"
  by (induction p arbitrary: L) auto

lemma ends_conj: "ends Q p L \<Longrightarrow> ends Q' p L \<Longrightarrow> ends (\<lambda>a L. Q a L \<and> Q' a L) p L"
  by (induction p arbitrary: L) auto

lemma ends_prefix:
  assumes "ends Q p L"
  obtains a new where "Q a (L @ new)"
proof -
  have "\<exists>a new. Q a (L @ new)" using assms
  proof (induction p arbitrary: L)
    case (Done a)
    then show ?case by (intro exI [of _ a] exI [of _ "[]"]) simp
  next
    case (Call ev k)
    from Call.prems have "ends Q (k []) (L @ [ev []])" by simp
    from Call.IH [OF rangeI this] show ?case by auto
  qed
  with that show thesis by blast
qed

section \<open>Lemmas: pools\<close>

lemma calls_of_simps [simp]:
  "calls_of i [] = []" "calls_of i (log @ log') = calls_of i log @ calls_of i log'"
  "calls_of i ((j, e) # log) = (if j = i then e # calls_of i log else calls_of i log)"
  by (simp_all add: calls_of_def)

text \<open>What every thread will end with stays true, step by step, whatever the schedule.\<close>

definition pool_inv ::
  "(nat \<Rightarrow> 'a \<Rightarrow> 'e list \<Rightarrow> bool) \<Rightarrow> nat \<Rightarrow> ('e, 'a) pool \<Rightarrow> bool" where
  "pool_inv Q n p \<longleftrightarrow> length (fst p) = n \<and> (\<forall>(i, _) \<in> set (snd p). i < n) \<and>
     (\<forall>i < n. ends (Q i) (fst p ! i) (calls_of i (snd p)))"

lemma pool_inv_step: "pool_step base p p' \<Longrightarrow> pool_inv Q n p \<Longrightarrow> pool_inv Q n p'"
proof (induction rule: pool_step.induct)
  case (step i ts ev k tr log)
  have "ends (Q i) (k tr) (calls_of i log @ [ev tr])"
    using step.prems step.hyps(1,2) by (auto simp: pool_inv_def dest: spec [of _ i])
  with step.prems step.hyps(1) show ?case
    by (auto simp: pool_inv_def nth_list_update)
qed

lemma pool_inv_reachable: "(pool_step base)\<^sup>*\<^sup>* p p' \<Longrightarrow> pool_inv Q n p \<Longrightarrow> pool_inv Q n p'"
  by (induction rule: rtranclp_induct) (auto intro: pool_inv_step)

lemma pool_inv_start:
  "(\<And>i. i < length ts \<Longrightarrow> ends (Q i) (ts ! i) []) \<Longrightarrow> pool_inv Q (length ts) (ts, [])"
  by (simp add: pool_inv_def)

lemma pool_inv_now:
  assumes "pool_inv Q n (ts, log)" and "i < n"
  obtains a new where "Q i a (calls_of i log @ new)"
  using assms ends_prefix unfolding pool_inv_def by (metis fst_conv snd_conv)

lemma pool_inv_done:
  assumes "pool_inv Q n (ts, log)" and "i < n" and "is_done (ts ! i)"
  obtains a where "Q i a (calls_of i log)"
  using assms by (cases "ts ! i") (auto simp: pool_inv_def)

text \<open>A pool is never stuck while a thread has calls to make.\<close>

lemma pool_progress:
  assumes "\<not> (\<exists>p'. pool_step base (ts, log) p')" and "i < length ts"
  shows "is_done (ts ! i)"
proof (cases "ts ! i")
  case (Call ev k)
  with assms(2) have "pool_step base (ts, log) (ts[i := k (base @ map snd log)],
      log @ [(i, ev (base @ map snd log))])" by (intro pool_step.step) auto
  with assms(1) show ?thesis by blast
qed simp

lemma pool_log_length: "(pool_step base ^^ m) p p' \<Longrightarrow> length (snd p') = length (snd p) + m"
  by (induction m arbitrary: p') (auto elim!: pool_step.cases)

text \<open>The log counts the calls of all threads.\<close>

lemma length_calls_of:
  "\<forall>(i, _) \<in> set log. i < n \<Longrightarrow> length log = (\<Sum>i<n. length (calls_of i log))"
proof (induction log)
  case Nil
  show ?case by simp
next
  case (Cons e log)
  obtain j ev where e: "e = (j, ev)" by (rule prod.exhaust)
  have "(\<Sum>i<n. length (calls_of i (e # log))) =
      (\<Sum>i<n. length (calls_of i log) + (if i = j then 1 else 0))"
    using e by (intro sum.cong) auto
  also have "\<dots> = (\<Sum>i<n. length (calls_of i log)) + (\<Sum>i<n. if i = j then 1 else 0)"
    by (rule sum.distrib)
  also have "(\<Sum>i<n. if i = j then 1 else 0) = (1 :: nat)"
    using Cons.prems e by simp
  finally show ?case using Cons by simp
qed

section \<open>Resources held by threads\<close>

text \<open>A monitor whose state is the multiset of resources held obeys the frame law: resources held by
  others neither enable nor disturb a step. Then the threads may be checked one by one: what the
  pool holds is the sum of what its threads hold.\<close>

locale frame_monitor =
  fixes step :: "'e \<Rightarrow> 'r multiset \<Rightarrow> 'r multiset option"
  assumes frame: "step e M = Some M' \<Longrightarrow> step e (M + F) = Some (M' + F)"
begin

lemma threads_sum:
  assumes "\<forall>(i, _) \<in> set log. i < n"
    and "\<And>i. i < n \<Longrightarrow> monitor step {#} (calls_of i log) = Some (held i)"
  shows "monitor step {#} (map snd log) = Some (\<Sum>i<n. held i)"
  using assms
proof (induction log arbitrary: held rule: rev_induct)
  case Nil
  then show ?case by simp
next
  case (snoc e log)
  obtain j ev where e: "e = (j, ev)" by (rule prod.exhaust)
  with snoc.prems(1) have j: "j < n" by simp
  have before: "\<exists>M. monitor step {#} (calls_of i log) = Some M" if "i < n" for i
    using snoc.prems(2) [OF that] e by (cases "j = i"; cases "monitor step {#} (calls_of i log)") auto
  then obtain held' where held': "\<And>i. i < n \<Longrightarrow> monitor step {#} (calls_of i log) = Some (held' i)"
    by metis
  have "monitor step {#} (map snd log) = Some (\<Sum>i<n. held' i)"
    using snoc.prems(1) held' by (intro snoc.IH) auto
  moreover have "step ev (held' j) = Some (held j)"
    using snoc.prems(2) [OF j] held' [OF j] e by (auto split: option.splits)
  moreover have "held' i = held i" if "i < n" "i \<noteq> j" for i
    using snoc.prems(2) [OF that(1)] held' [OF that(1)] e that(2) by auto
  then have "(\<Sum>i\<in>{..<n} - {j}. held' i) = (\<Sum>i\<in>{..<n} - {j}. held i)"
    by (intro sum.cong) auto
  ultimately show ?case
    using e j frame [of ev "held' j" "held j" "\<Sum>i\<in>{..<n} - {j}. held i"]
    by (simp add: sum.remove [of "{..<n}" j])
qed

end

end
