(* ===== verification/Allocator_Threads.thy ===== *)
theory Allocator_Threads
  imports Gralloc_Loader Thread_Pool
begin

text \<open>
  The allocator service call by call: the methods of \<^theory_text>\<open>Gralloc1_Hal\<close>, \<^theory_text>\<open>Gralloc0_Hal\<close> and
  \<^theory_text>\<open>Allocator\<close> as programs of \<^theory_text>\<open>Thread_Pool\<close>, so that several of them can run at once. The
  lemmas show that each program, run alone, is the action of the same name without \<open>_th\<close>.
\<close>

section \<open>The gralloc1 back end\<close>

definition createDescriptor_th ::
  "gralloc1_env \<Rightarrow> gralloc1_hal \<Rightarrow> BufferDescriptorInfo \<Rightarrow> gralloc1_desc \<Rightarrow>
   (gr_event, Error \<times> gralloc1_desc) prog" where
  "createDescriptor_th env hal info outDescriptor =
     bindP (callP (\<lambda>tr. case dev_createDescriptor (env_dev env) tr of (e, out) \<Rightarrow>
                      (e, case out of None \<Rightarrow> loc_descriptor (env_locals env) | Some d \<Rightarrow> d))
                  (\<lambda>(e, d). CreateDescriptor e d)) (\<lambda>(error, d).
     bindP (if error = GRALLOC1_ERROR_NONE
            then callP (\<lambda>tr. dev_setDimensions (env_dev env) tr d (bd_width info) (bd_height info))
                       (SetDimensions d (bd_width info) (bd_height info))
            else Done error) (\<lambda>error.
     bindP (if error = GRALLOC1_ERROR_NONE
            then callP (\<lambda>tr. dev_setFormat (env_dev env) tr d (bd_format info)) (SetFormat d (bd_format info))
            else Done error) (\<lambda>error.
     bindP (if error = GRALLOC1_ERROR_NONE
            then if mCapabilities_layeredBuffers hal
                 then callP (\<lambda>tr. dev_setLayerCount (env_dev env) tr d (bd_layerCount info))
                            (SetLayerCount d (bd_layerCount info))
                 else if 1 < bd_layerCount info then Done GRALLOC1_ERROR_UNSUPPORTED else Done error
            else Done error) (\<lambda>error.
     bindP (if error = GRALLOC1_ERROR_NONE
            then callP (\<lambda>tr. dev_setProducerUsage (env_dev env) tr d (toProducerUsage (env_abi env) (bd_usage info)))
                       (SetProducerUsage d (toProducerUsage (env_abi env) (bd_usage info)))
            else Done error) (\<lambda>error.
     bindP (if error = GRALLOC1_ERROR_NONE
            then callP (\<lambda>tr. dev_setConsumerUsage (env_dev env) tr d (toConsumerUsage (env_abi env) (bd_usage info)))
                       (SetConsumerUsage d (toConsumerUsage (env_abi env) (bd_usage info)))
            else Done error) (\<lambda>error.
     if error = GRALLOC1_ERROR_NONE then Done (toError error, d)
     else bindP (callP (\<lambda>_. ()) (\<lambda>_. DestroyDescriptor d)) (\<lambda>_. Done (toError error, outDescriptor))))))))"

definition allocateOneBuffer_th ::
  "gralloc1_env \<Rightarrow> gralloc1_desc \<Rightarrow> native_handle \<times> u32 \<Rightarrow> (gr_event, Error \<times> native_handle \<times> u32) prog" where
  "allocateOneBuffer_th env descriptor out =
     bindP (callP (\<lambda>tr. case dev_allocate (env_dev env) tr descriptor of (e, h) \<Rightarrow>
                      (e, case h of None \<Rightarrow> 0 | Some h \<Rightarrow> h))
                  (\<lambda>(e, h). Allocate1 descriptor e h)) (\<lambda>(error, buffer).
     if error \<noteq> GRALLOC1_ERROR_NONE \<and> error \<noteq> GRALLOC1_ERROR_NOT_SHARED then Done (toError error, out)
     else
       bindP (callP (\<lambda>tr. case dev_getStride (env_dev env) tr buffer of (e, s) \<Rightarrow>
                        (e, case s of None \<Rightarrow> 0 | Some s \<Rightarrow> s))
                    (\<lambda>(e, s). GetStride buffer e s)) (\<lambda>(error, stride).
       if error \<noteq> GRALLOC1_ERROR_NONE \<and> error \<noteq> GRALLOC1_ERROR_UNDEFINED
       then bindP (callP (\<lambda>tr. dev_release (env_dev env) tr buffer) (Release buffer))
                  (\<lambda>_. Done (toError error, out))
       else Done (NONE, buffer, stride)))"

primrec allocLoop_th ::
  "(nat \<Rightarrow> (gr_event, Error \<times> native_handle \<times> u32) prog) \<Rightarrow> nat \<Rightarrow> nat \<Rightarrow> u32 \<Rightarrow> native_handle list \<Rightarrow>
   (gr_event, Error \<times> u32 \<times> native_handle list) prog" where
  "allocLoop_th alloc 0 i stride buffers = Done (NONE, stride, buffers)"
| "allocLoop_th alloc (Suc n) i stride buffers =
     bindP (alloc i) (\<lambda>(error, tmpBuffer, tmpStride).
     if error \<noteq> NONE then Done (error, stride, buffers)
     else if stride = 0 then allocLoop_th alloc n (Suc i) tmpStride (buffers @ [tmpBuffer])
     else if stride \<noteq> tmpStride then Done (UNSUPPORTED, stride, buffers @ [tmpBuffer])
     else allocLoop_th alloc n (Suc i) stride (buffers @ [tmpBuffer]))"

primrec freeBuffers_th :: "gralloc1_env \<Rightarrow> native_handle list \<Rightarrow> (gr_event, unit) prog" where
  "freeBuffers_th env [] = Done ()"
| "freeBuffers_th env (buffer # buffers) =
     bindP (callP (\<lambda>tr. dev_release (env_dev env) tr buffer) (Release buffer)) (\<lambda>_.
     freeBuffers_th env buffers)"

definition allocateBuffers_th ::
  "gralloc1_env \<Rightarrow> gralloc1_hal \<Rightarrow> BufferDescriptor \<Rightarrow> u32 \<Rightarrow>
   (gr_event, Error + u32 \<times> native_handle list) prog" where
  "allocateBuffers_th env hal descriptor cnt =
     (case env_decode env descriptor of
        None \<Rightarrow> Done (Inl BAD_DESCRIPTOR)
      | Some descriptorInfo \<Rightarrow>
          bindP (createDescriptor_th env hal descriptorInfo (loc_desc (env_locals env))) (\<lambda>(error, desc).
          if error \<noteq> NONE then Done (Inl error)
          else
            bindP (allocLoop_th (\<lambda>i. allocateOneBuffer_th env desc
                                    (loc_tmpBuffer (env_locals env) i, loc_tmpStride (env_locals env) i))
                     (unat cnt) 0 0 []) (\<lambda>(error, stride, buffers).
            bindP (callP (\<lambda>_. ()) (\<lambda>_. DestroyDescriptor desc)) (\<lambda>_.
            if error \<noteq> NONE then bindP (freeBuffers_th env buffers) (\<lambda>_. Done (Inl error))
            else Done (Inr (stride, buffers))))))"

definition dumpDebugInfo_th :: "gralloc1_env \<Rightarrow> (gr_event, string option) prog" where
  "dumpDebugInfo_th env =
     bindP (callP (\<lambda>tr. fst (dev_dump (env_dev env) tr 0 None)) (\<lambda>_. Dump1 0)) (\<lambda>len.
     bindP (callP (\<lambda>tr. case dev_dump (env_dev env) tr len (Some (replicate (unat (len + 1)) NUL)) of
                      (len', written) \<Rightarrow> (len', write_within (replicate (unat (len + 1)) NUL) written))
                  (\<lambda>_. Dump1 len)) (\<lambda>(len, buf).
     Done (case buf of
             None \<Rightarrow> None
           | Some buf \<Rightarrow>
               (let buf = vec_resize NUL (unat (len + 1)) buf
                in if unat len < length buf then Some (c_str (buf[unat len := NUL])) else None))))"

section \<open>The gralloc0 back end\<close>

definition allocateOneBuffer0_th ::
  "gralloc0_env \<Rightarrow> BufferDescriptorInfo \<Rightarrow> native_handle \<times> u32 \<Rightarrow>
   (gr_event, Error \<times> native_handle \<times> u32) prog" where
  "allocateOneBuffer0_th env info out =
     (if 1 < bd_layerCount info \<or> drop_bit 32 (bd_usage info) \<noteq> 0 then Done (BAD_VALUE, out)
      else
        bindP (callP (\<lambda>tr. case dev0_alloc (env0_dev env) tr (bd_width info) (bd_height info)
                              (bd_format info) (ucast (bd_usage info)) of (r, b, s) \<Rightarrow>
                         (r, case b of None \<Rightarrow> 0 | Some b \<Rightarrow> b, case s of None \<Rightarrow> 0 | Some s \<Rightarrow> s))
                     (\<lambda>(r, b, s). Alloc0 (bd_width info) (bd_height info) (bd_format info)
                         (ucast (bd_usage info)) r b s)) (\<lambda>(result, buffer, stride).
        if result = 0 then Done (NONE, buffer, stride)
        else if result = - EINVAL then Done (BAD_VALUE, out)
        else Done (NO_RESOURCES, out)))"

primrec freeBuffers0_th :: "gralloc0_env \<Rightarrow> native_handle list \<Rightarrow> (gr_event, unit) prog" where
  "freeBuffers0_th env [] = Done ()"
| "freeBuffers0_th env (buffer # buffers) =
     bindP (callP (\<lambda>tr. dev0_free (env0_dev env) tr buffer) (Free0 buffer)) (\<lambda>_.
     freeBuffers0_th env buffers)"

definition allocateBuffers0_th ::
  "gralloc0_env \<Rightarrow> BufferDescriptor \<Rightarrow> u32 \<Rightarrow> (gr_event, Error + u32 \<times> native_handle list) prog" where
  "allocateBuffers0_th env descriptor cnt =
     (case env0_decode env descriptor of
        None \<Rightarrow> Done (Inl BAD_DESCRIPTOR)
      | Some descriptorInfo \<Rightarrow>
          bindP (allocLoop_th (\<lambda>i. allocateOneBuffer0_th env descriptorInfo
                                  (env0_tmpBuffer env i, env0_tmpStride env i))
                   (unat cnt) 0 0 []) (\<lambda>(error, stride, buffers).
          if error \<noteq> NONE then bindP (freeBuffers0_th env buffers) (\<lambda>_. Done (Inl error))
          else Done (Inr (stride, buffers))))"

definition dumpDebugInfo0_th :: "gralloc0_env \<Rightarrow> (gr_event, string option) prog" where
  "dumpDebugInfo0_th env =
     (let buf = replicate DUMP_BUFFER_SIZE NUL
      in case dev0_dump (env0_dev env) of
           None \<Rightarrow> Done (Some (c_str buf))
         | Some dump \<Rightarrow>
             bindP (callP (\<lambda>tr. write_within buf (dump tr)) (\<lambda>_. Dump0)) (\<lambda>buf.
             Done (map_option (\<lambda>buf. c_str (buf[DUMP_BUFFER_SIZE - 1 := NUL])) buf)))"

section \<open>The service\<close>

text \<open>\<open>AllocatorHal\<close> and the methods of \<open>AllocatorImpl\<close>.\<close>

record AllocatorHal_th =
  th_dumpDebugInfo :: "(gr_event, string option) prog"
  th_allocateBuffers :: "BufferDescriptor \<Rightarrow> u32 \<Rightarrow> (gr_event, Error + u32 \<times> native_handle list) prog"
  th_freeBuffers :: "native_handle list \<Rightarrow> (gr_event, unit) prog"

definition gralloc1_as_hal_th :: "gralloc1_env \<times> gralloc1_hal \<Rightarrow> AllocatorHal_th" where
  "gralloc1_as_hal_th eh =
     \<lparr>th_dumpDebugInfo = dumpDebugInfo_th (fst eh),
      th_allocateBuffers = allocateBuffers_th (fst eh) (snd eh),
      th_freeBuffers = freeBuffers_th (fst eh)\<rparr>"

definition gralloc0_as_hal_th :: "gralloc0_env \<Rightarrow> AllocatorHal_th" where
  "gralloc0_as_hal_th env =
     \<lparr>th_dumpDebugInfo = dumpDebugInfo0_th env,
      th_allocateBuffers = allocateBuffers0_th env,
      th_freeBuffers = freeBuffers0_th env\<rparr>"

definition object_hal_th :: "loader_env \<Rightarrow> Allocator_object \<Rightarrow> AllocatorHal_th" where
  "object_hal_th env allocator =
     (case mHal allocator of
        Gralloc1Hal hal \<Rightarrow> gralloc1_as_hal_th (ld_gralloc1 env, hal)
      | Gralloc0Hal hal \<Rightarrow> gralloc0_as_hal_th (ld_gralloc0 env))"

definition Allocator_allocate_th :: "AllocatorHal_th \<Rightarrow> BufferDescriptor \<Rightarrow> u32 \<Rightarrow> (gr_event, unit) prog" where
  "Allocator_allocate_th th descriptor cnt =
     bindP (th_allocateBuffers th descriptor cnt) (\<lambda>result.
     case result of
       Inl error \<Rightarrow> callP (\<lambda>_. ()) (\<lambda>_. AllocateReply error 0 [])
     | Inr (stride, buffers) \<Rightarrow>
         bindP (callP (\<lambda>_. ()) (\<lambda>_. AllocateReply NONE stride buffers)) (\<lambda>_.
         th_freeBuffers th buffers))"

definition Allocator_dumpDebugInfo_th :: "AllocatorHal_th \<Rightarrow> (gr_event, unit) prog" where
  "Allocator_dumpDebugInfo_th th =
     bindP (th_dumpDebugInfo th) (\<lambda>info. callP (\<lambda>_. ()) (\<lambda>_. DumpReply info))"

primrec handle_request_th :: "AllocatorHal_th \<Rightarrow> request \<Rightarrow> (gr_event, unit) prog" where
  "handle_request_th th (Allocate d n) = Allocator_allocate_th th d n"
| "handle_request_th th DumpDebugInfo = Allocator_dumpDebugInfo_th th"

text \<open>A thread of the pool: the requests the HIDL runtime hands to it, one after the other.\<close>

primrec serve_th :: "AllocatorHal_th \<Rightarrow> request list \<Rightarrow> (gr_event, unit) prog" where
  "serve_th th [] = Done ()"
| "serve_th th (r # rs) = bindP (handle_request_th th r) (\<lambda>_. serve_th th rs)"

text \<open>\<open>main\<close> of service.cpp: \<open>defaultPassthroughServiceImplementation<IAllocator>(4)\<close> fetches the
  implementation once and then serves it from a pool of four threads, the main thread among them;
  \<open>reqs ! i\<close> are the requests the runtime hands to thread \<open>i\<close>. Without an implementation there is
  nothing to serve.\<close>

definition maxThreads :: nat where
  "maxThreads = 4"

definition allocator_main ::
  "loader_env \<Rightarrow> (nat \<Rightarrow> request list) \<Rightarrow> (gr_trace, (gr_event, unit) pool option) state" where
  "allocator_main env reqs =
     do {
       allocator \<leftarrow> HIDL_FETCH_IAllocator env;
       return (map_option (\<lambda>allocator.
         (map (\<lambda>i. serve_th (object_hal_th env allocator) (reqs i)) [0..<maxThreads], [])) allocator)
     }"

section \<open>Lemmas: a thread that runs alone\<close>

lemma runs_createDescriptor_th [runs_rules]:
  "runs (createDescriptor_th env hal info out) (createDescriptor env hal info out)"
  unfolding createDescriptor_th_def createDescriptor_def call_defs Let_def
  by (intro runs_rules refl)

lemma runs_allocateOneBuffer_th [runs_rules]:
  "runs (allocateOneBuffer_th env d out) (allocateOneBuffer env d out)"
  unfolding allocateOneBuffer_th_def allocateOneBuffer_def call_defs Let_def
  by (intro runs_rules refl)

lemma runs_allocLoop_th [runs_rules]:
  "(\<And>i. runs (alloc' i) (alloc i)) \<Longrightarrow>
   runs (allocLoop_th alloc' n i stride bs) (allocLoop alloc n i stride bs)"
  by (induction n arbitrary: i stride bs) (auto intro!: runs_rules)

lemma runs_freeBuffers_th [runs_rules]: "runs (freeBuffers_th env bs) (freeBuffers env bs)"
  by (induction bs) (auto simp: call_release_def intro!: runs_rules)

lemma runs_allocateBuffers_th:
  "runs (allocateBuffers_th env hal d n) (allocateBuffers env hal d n)"
  unfolding allocateBuffers_th_def allocateBuffers_def call_destroyDescriptor_def
  by (intro runs_rules refl)

lemma runs_dumpDebugInfo_th: "runs (dumpDebugInfo_th env) (dumpDebugInfo env)"
  by (simp add: runs_def dumpDebugInfo_th_def dumpDebugInfo_def call_dump_def Let_def split: prod.split)

lemma runs_allocateOneBuffer0_th [runs_rules]:
  "runs (allocateOneBuffer0_th env info out) (allocateOneBuffer0 env info out)"
  unfolding allocateOneBuffer0_th_def allocateOneBuffer0_def call0_defs Let_def
  by (intro runs_rules refl)

lemma runs_freeBuffers0_th [runs_rules]: "runs (freeBuffers0_th env bs) (freeBuffers0 env bs)"
  by (induction bs) (auto simp: call_free_def intro!: runs_rules)

lemma runs_allocateBuffers0_th: "runs (allocateBuffers0_th env d n) (allocateBuffers0 env d n)"
  unfolding allocateBuffers0_th_def allocateBuffers0_def by (intro runs_rules)

lemma runs_dumpDebugInfo0_th: "runs (dumpDebugInfo0_th env) (dumpDebugInfo0 env)"
  unfolding dumpDebugInfo0_th_def dumpDebugInfo0_def Let_def by (intro runs_rules refl)

text \<open>The thread's view of a back end is the back end.\<close>

definition same_hal :: "AllocatorHal_th \<Rightarrow> AllocatorHal \<Rightarrow> bool" where
  "same_hal th hal \<longleftrightarrow>
     runs (th_dumpDebugInfo th) (hal_dumpDebugInfo hal) \<and>
     (\<forall>d n. runs (th_allocateBuffers th d n) (hal_allocateBuffers hal d n)) \<and>
     (\<forall>bs. runs (th_freeBuffers th bs) (hal_freeBuffers hal bs))"

lemma same_object_hal: "same_hal (object_hal_th env allocator) (object_hal env allocator)"
  by (simp add: same_hal_def object_hal_th_def object_hal_def gralloc1_as_hal_th_def gralloc1_as_hal_def
      gralloc0_as_hal_th_def gralloc0_as_hal_def runs_allocateBuffers_th runs_freeBuffers_th
      runs_dumpDebugInfo_th runs_allocateBuffers0_th runs_freeBuffers0_th runs_dumpDebugInfo0_th
      split: hal_object.split)

lemma runs_handle_request_th:
  assumes "same_hal th hal"
  shows "runs (handle_request_th th r) (handle_request hal r)"
  using assms
  by (cases r)
     (auto simp: same_hal_def Allocator_allocate_th_def Allocator_allocate_def hidl_cb_allocate_def
       Allocator_dumpDebugInfo_th_def Allocator_dumpDebugInfo_def intro!: runs_rules)

lemma runs_serve_th: "same_hal th hal \<Longrightarrow> runs (serve_th th rs) (serve hal rs)"
  by (induction rs) (auto intro!: runs_rules runs_handle_request_th)

end
