(* ===== verification/Threaded_Hal.thy ===== *)
theory Threaded_Hal
  imports Allocator_Threads
begin

text \<open>
  What a back end promises when other threads interfere (\<open>threaded_hal\<close>), for its client
  \<open>AllocatorImpl\<close>; both back ends, and the one the loader chose, keep the promise. Every law speaks
  of the calls of one thread only, with every reply of the device allowed at every call.
\<close>

section \<open>The interface\<close>

text \<open>At most \<open>k\<close> further calls, all of an open device, none of them a reply to a client.\<close>

definition grows :: "nat \<Rightarrow> gr_trace \<Rightarrow> gr_trace \<Rightarrow> bool" where
  "grows k L L' \<longleftrightarrow>
     (\<exists>new. L' = L @ new \<and> length new \<le> k \<and> list_all (\<lambda>e. uses_device e \<and> \<not> is_reply e) new)"

locale threaded_hal =
  fixes hal :: "'e \<Rightarrow> AllocatorHal_th"
    and contract :: "'e \<Rightarrow> bool"
  assumes alloc_owns:
    "contract e \<Longrightarrow> outstanding L = Some M \<Longrightarrow>
     ends (\<lambda>r L'. case r of
        Inl err \<Rightarrow> err \<noteq> NONE \<and> outstanding L' = Some M
      | Inr (stride, bs) \<Rightarrow> length bs = unat n \<and> outstanding L' = Some (M + mset bs))
      (th_allocateBuffers (hal e) d n) L"
  and alloc_grows:
    "contract e \<Longrightarrow>
     ends (\<lambda>r L'. grows (case r of Inl _ \<Rightarrow> 3 * unat n + 7 | Inr _ \<Rightarrow> 2 * unat n + 7) L L')
      (th_allocateBuffers (hal e) d n) L"
  and free_owns:
    "outstanding L = Some (M + mset bs) \<Longrightarrow>
     ends (\<lambda>_ L'. outstanding L' = Some M) (th_freeBuffers (hal e) bs) L"
  and free_grows: "ends (\<lambda>_ L'. grows (length bs) L L') (th_freeBuffers (hal e) bs) L"
  and dump_owns:
    "ends (\<lambda>_ L'. outstanding L' = outstanding L) (th_dumpDebugInfo (hal e)) L"
  and dump_grows: "ends (\<lambda>_ L'. grows 2 L L') (th_dumpDebugInfo (hal e)) L"

section \<open>The client\<close>

primrec request_cost :: "request \<Rightarrow> nat" where
  "request_cost (Allocate d n) = 3 * unat n + 8"
| "request_cost DumpDebugInfo = 3"

text \<open>What a thread has done, on top of the calls \<open>L\<close>, when it has served the requests \<open>rs\<close>.\<close>

definition served :: "request list \<Rightarrow> gr_trace \<Rightarrow> gr_trace \<Rightarrow> bool" where
  "served rs L L' \<longleftrightarrow>
     outstanding L' = outstanding L \<and>
     (\<exists>new. L' = L @ new \<and> length new \<le> sum_list (map request_cost rs) \<and> list_all uses_device new \<and>
            list_all2 answers rs (replies new))"

lemma grows_append [simp]:
  "grows k L (L @ new) \<longleftrightarrow> length new \<le> k \<and> list_all (\<lambda>e. uses_device e \<and> \<not> is_reply e) new"
  by (auto simp: grows_def)

lemma grows_refl [simp]: "grows k L L"
  using grows_append [of k L "[]"] by simp

lemma grows_trans: "grows k L L' \<Longrightarrow> grows k' L' L'' \<Longrightarrow> k + k' \<le> n \<Longrightarrow> grows n L L''"
  by (fastforce simp: grows_def)

lemma grows_mono: "grows k L L' \<Longrightarrow> k \<le> n \<Longrightarrow> grows n L L'"
  by (fastforce simp: grows_def)

lemma replies_append [simp]: "replies (xs @ ys) = replies xs @ replies ys"
  by (simp add: replies_def)

lemma grows_replies:
  assumes "grows k L L'"
  obtains new where "L' = L @ new" "length new \<le> k" "list_all uses_device new" "replies new = []"
  using assms by (auto simp: grows_def replies_def list_all_iff filter_empty_conv)

lemma served_Nil [simp]: "served [] L L"
  by (simp add: served_def replies_def)

lemma served_Cons:
  assumes "served [r] L L1" and "served rs L1 L2"
  shows "served (r # rs) L L2"
proof -
  obtain new1 new2 where 1: "L1 = L @ new1" "length new1 \<le> request_cost r" "list_all uses_device new1"
      "list_all2 answers [r] (replies new1)"
    and 2: "L2 = L1 @ new2" "length new2 \<le> sum_list (map request_cost rs)" "list_all uses_device new2"
      "list_all2 answers rs (replies new2)"
    using assms by (auto simp: served_def)
  then have "list_all2 answers ([r] @ rs) (replies (new1 @ new2))"
    by (simp only: replies_append list_all2_appendI)
  with 1 2 assms show ?thesis by (auto simp: served_def)
qed

context threaded_hal begin

lemma allocate_served:
  assumes "contract e" and "outstanding L = Some M"
  shows "ends (\<lambda>_. served [Allocate d n] L) (Allocator_allocate_th (hal e) d n) L"
  unfolding Allocator_allocate_th_def
proof (rule ends_bindP [OF ends_conj [OF alloc_owns [OF assms] alloc_grows [OF assms(1)]]])
  fix r :: "Error + u32 \<times> native_handle list" and L1
  assume r: "(case r of
        Inl err \<Rightarrow> err \<noteq> NONE \<and> outstanding L1 = Some M
      | Inr (stride, bs) \<Rightarrow> length bs = unat n \<and> outstanding L1 = Some (M + mset bs)) \<and>
    grows (case r of Inl _ \<Rightarrow> 3 * unat n + 7 | Inr _ \<Rightarrow> 2 * unat n + 7) L L1"
  then obtain new where new: "L1 = L @ new"
    "length new \<le> (case r of Inl _ \<Rightarrow> 3 * unat n + 7 | Inr _ \<Rightarrow> 2 * unat n + 7)"
    "list_all uses_device new" "replies new = []"
    using grows_replies by blast
  show "ends (\<lambda>_. served [Allocate d n] L)
     (case r of Inl error \<Rightarrow> callP (\<lambda>_. ()) (\<lambda>_. AllocateReply error 0 [])
      | Inr (stride, buffers) \<Rightarrow> bindP (callP (\<lambda>_. ()) (\<lambda>_. AllocateReply NONE stride buffers))
          (\<lambda>_. th_freeBuffers (hal e) buffers)) L1"
  proof (cases r)
    case (Inl err)
    with r new assms(2) show ?thesis
      by (auto simp: callP_def served_def uses_device_def replies_def is_reply_def)
  next
    case (Inr sb)
    obtain stride bs where sb: "sb = (stride, bs)" by (rule prod.exhaust)
    let ?L = "L1 @ [AllocateReply NONE stride bs]"
    have own: "outstanding ?L = Some (M + mset bs)" using r Inr sb by simp
    have "ends (\<lambda>_. served [Allocate d n] L) (th_freeBuffers (hal e) bs) ?L"
    proof (rule ends_weaken [OF ends_conj [OF free_owns [OF own] free_grows]])
      fix a L2
      assume "outstanding L2 = Some M \<and> grows (length bs) ?L L2"
      then obtain new2 where "outstanding L2 = Some M" "L2 = ?L @ new2" "length new2 \<le> length bs"
        "list_all uses_device new2" "replies new2 = []" using grows_replies by blast
      with r new Inr sb assms(2) show "served [Allocate d n] L L2"
        by (auto simp: served_def uses_device_def replies_def is_reply_def)
    qed
    with Inr sb show ?thesis by (simp add: callP_def)
  qed
qed

lemma dump_served:
  "ends (\<lambda>_. served [DumpDebugInfo] L) (Allocator_dumpDebugInfo_th (hal e)) L"
  unfolding Allocator_dumpDebugInfo_th_def
proof (rule ends_bindP [OF ends_conj [OF dump_owns dump_grows]])
  fix info L1
  assume L1: "outstanding L1 = outstanding L \<and> grows 2 L L1"
  then obtain new where "L1 = L @ new" "length new \<le> 2" "list_all uses_device new" "replies new = []"
    using grows_replies by blast
  with L1 show "ends (\<lambda>_. served [DumpDebugInfo] L) (callP (\<lambda>_. ()) (\<lambda>_. DumpReply info)) L1"
    by (cases "outstanding L") (auto simp: callP_def served_def uses_device_def replies_def is_reply_def)
qed

lemma serve_served:
  "contract e \<Longrightarrow> outstanding L = Some M \<Longrightarrow> ends (\<lambda>_. served rs L) (serve_th (hal e) rs) L"
proof (induction rs arbitrary: L)
  case Nil
  then show ?case by simp
next
  case (Cons r rs)
  have "ends (\<lambda>_. served [r] L) (handle_request_th (hal e) r) L"
    using allocate_served [OF Cons.prems] dump_served by (cases r) auto
  then show ?case unfolding serve_th.simps
  proof (rule ends_bindP)
    fix a L1
    assume one: "served [r] L L1"
    with Cons.prems(2) have "outstanding L1 = Some M" by (simp add: served_def)
    from Cons.IH [OF Cons.prems(1) this]
    show "ends (\<lambda>_. served (r # rs) L) (serve_th (hal e) rs) L1"
      by (rule ends_weaken) (rule served_Cons [OF one])
  qed
qed

end

section \<open>The allocation loop\<close>

lemma allocLoop_th_owns:
  assumes step: "\<And>i L M. outstanding L = Some M \<Longrightarrow>
    ends (\<lambda>(e, h, t) L'. outstanding L' = Some (if e = NONE then add_mset h M else M)) (alloc i) L"
  shows "outstanding L = Some (M + mset bs) \<Longrightarrow>
    ends (\<lambda>(e, s', bs') L'. outstanding L' = Some (M + mset bs') \<and> (e = NONE \<longrightarrow> length bs' = length bs + n))
      (allocLoop_th alloc n i s bs) L"
proof (induction n arbitrary: i s bs L)
  case 0
  then show ?case by simp
next
  case (Suc n)
  show ?case unfolding allocLoop_th.simps
  proof (rule ends_bindP [OF step [OF Suc.prems]], clarify)
    fix e h t L1
    assume L1: "outstanding L1 = Some (if e = NONE then add_mset h (M + mset bs) else M + mset bs)"
    then show "ends (\<lambda>(e, s', bs') L'. outstanding L' = Some (M + mset bs') \<and>
          (e = NONE \<longrightarrow> length bs' = length bs + Suc n))
      (if e \<noteq> NONE then Done (e, s, bs)
       else if s = 0 then allocLoop_th alloc n (Suc i) t (bs @ [h])
       else if s \<noteq> t then Done (UNSUPPORTED, s, bs @ [h])
       else allocLoop_th alloc n (Suc i) s (bs @ [h])) L1"
      using Suc.IH [of L1 "bs @ [h]"] by auto
  qed
qed

text \<open>The calls of the loop and the frees a failure will need; the frees are not needed on success.\<close>

lemma allocLoop_th_grows:
  assumes step: "\<And>i L. ends (\<lambda>(e, h, t) L'. grows (if e = NONE then 2 else 3) L L') (alloc i) L"
  shows "ends (\<lambda>(e, s', bs') L'. \<exists>c. grows c L L' \<and> c + length bs' \<le> 3 * n + length bs \<and>
      (e = NONE \<longrightarrow> c \<le> 2 * n)) (allocLoop_th alloc n i s bs) L"
proof (induction n arbitrary: i s bs L)
  case 0
  then show ?case by (auto intro: exI [of _ 0])
next
  case (Suc n)
  show ?case unfolding allocLoop_th.simps
  proof (rule ends_bindP [OF step], clarify)
    fix e h t L1
    assume L1: "grows (if e = NONE then 2 else 3) L L1"
    have more: "ends (\<lambda>(e, s', bs') L'. \<exists>c. grows c L L' \<and> c + length bs' \<le> 3 * Suc n + length bs \<and>
          (e = NONE \<longrightarrow> c \<le> 2 * Suc n)) (allocLoop_th alloc n (Suc i) s' (bs @ [h])) L1"
      if "e = NONE" for s'
    proof (rule ends_weaken [OF Suc.IH], clarify)
      fix e2 s2 bs2 L2 c
      assume "grows c L1 L2" and "c + length bs2 \<le> 3 * n + length (bs @ [h])" "e2 = NONE \<longrightarrow> c \<le> 2 * n"
      with L1 that show "\<exists>c. grows c L L2 \<and> c + length bs2 \<le> 3 * Suc n + length bs \<and> (e2 = NONE \<longrightarrow> c \<le> 2 * Suc n)"
        by (intro exI [of _ "2 + c"]) (auto intro: grows_trans)
    qed
    from L1 more show "ends (\<lambda>(e, s', bs') L'. \<exists>c. grows c L L' \<and> c + length bs' \<le> 3 * Suc n + length bs \<and>
          (e = NONE \<longrightarrow> c \<le> 2 * Suc n))
      (if e \<noteq> NONE then Done (e, s, bs)
       else if s = 0 then allocLoop_th alloc n (Suc i) t (bs @ [h])
       else if s \<noteq> t then Done (UNSUPPORTED, s, bs @ [h])
       else allocLoop_th alloc n (Suc i) s (bs @ [h])) L1"
      by (auto intro: exI [of _ 3] exI [of _ 2])
  qed
qed

section \<open>The gralloc1 back end\<close>

lemma createDescriptor_th_ends:
  assumes "not_shared_only_from_allocate (env_dev env)"
  shows "ends (\<lambda>(e, d) L'. grows 7 L L' \<and> (e = NONE \<longrightarrow> grows 6 L L') \<and> outstanding L' = outstanding L)
     (createDescriptor_th env hal info out) L"
  using assms [unfolded not_shared_only_from_allocate_def, THEN conjunct2, THEN conjunct2, THEN conjunct2,
      THEN conjunct2, THEN conjunct2, THEN conjunct1]
  by (auto simp: createDescriptor_th_def ends_bindP_iff callP_def toError_NONE_iff uses_device_def
      is_reply_def split: prod.split)

lemma allocateOneBuffer_th_owns:
  assumes "not_shared_only_from_allocate (env_dev env)" and "outstanding L = Some M"
  shows "ends (\<lambda>(e, h, t) L'. outstanding L' = Some (if e = NONE then add_mset h M else M))
     (allocateOneBuffer_th env d out) L"
  using assms
  by (auto simp: allocateOneBuffer_th_def ends_bindP_iff callP_def toError_NONE_iff split: prod.split
      dest: getStride_not_shared)

lemma allocateOneBuffer_th_grows:
  "not_shared_only_from_allocate (env_dev env) \<Longrightarrow>
   ends (\<lambda>(e, h, t) L'. grows (if e = NONE then 2 else 3) L L') (allocateOneBuffer_th env d out) L"
  by (auto simp: allocateOneBuffer_th_def ends_bindP_iff callP_def toError_NONE_iff uses_device_def
      is_reply_def split: prod.split dest: getStride_not_shared)

lemma freeBuffers_th_owns:
  "outstanding L = Some (M + mset bs) \<Longrightarrow> ends (\<lambda>_ L'. outstanding L' = Some M) (freeBuffers_th env bs) L"
  by (induction bs arbitrary: L) (simp_all add: callP_def)

lemma freeBuffers_th_grows: "ends (\<lambda>_ L'. grows (length bs) L L') (freeBuffers_th env bs) L"
proof (induction bs arbitrary: L)
  case (Cons b bs)
  have "ends (\<lambda>_ L'. grows (Suc (length bs)) L L') (freeBuffers_th env bs) (L @ [Release b r])" for r
    by (rule ends_weaken [OF Cons.IH], erule grows_trans [where k = 1, rotated])
       (simp_all add: uses_device_def is_reply_def)
  then show ?case by (simp add: callP_def)
qed simp

lemma allocateBuffers_th_owns:
  assumes "not_shared_only_from_allocate (env_dev env)" and "outstanding L = Some M"
  shows "ends (\<lambda>r L'. case r of
        Inl err \<Rightarrow> err \<noteq> NONE \<and> outstanding L' = Some M
      | Inr (stride, bs) \<Rightarrow> length bs = unat n \<and> outstanding L' = Some (M + mset bs))
      (allocateBuffers_th env hal d n) L" (is "ends ?Q _ _")
proof (cases "env_decode env d")
  case None
  with assms(2) show ?thesis by (simp add: allocateBuffers_th_def)
next
  case (Some info)
  have rest: "ends ?Q (bindP (callP (\<lambda>_. ()) (\<lambda>_. DestroyDescriptor desc)) (\<lambda>_.
      if e \<noteq> NONE then bindP (freeBuffers_th env bs) (\<lambda>_. Done (Inl e)) else Done (Inr (s, bs)))) L2"
    if "outstanding L2 = Some (M + mset bs)" "e = NONE \<longrightarrow> length bs = unat n" for desc e s bs L2
    using that freeBuffers_th_owns [of "L2 @ [DestroyDescriptor desc]" M bs env]
    by (auto simp: callP_def ends_bindP_iff elim: ends_weaken)
  show ?thesis unfolding allocateBuffers_th_def Some option.case
  proof (rule ends_bindP [OF createDescriptor_th_ends [OF assms(1)]], clarify)
    fix e desc L1
    assume "outstanding L1 = outstanding L"
    with assms(2) have L1: "outstanding L1 = Some (M + mset [])" by simp
    note loop = allocLoop_th_owns [where alloc = "\<lambda>i. allocateOneBuffer_th env desc
        (loc_tmpBuffer (env_locals env) i, loc_tmpStride (env_locals env) i)",
        OF allocateOneBuffer_th_owns [OF assms(1)] L1]
    have "ends ?Q (bindP (allocLoop_th (\<lambda>i. allocateOneBuffer_th env desc
        (loc_tmpBuffer (env_locals env) i, loc_tmpStride (env_locals env) i)) (unat n) 0 0 [])
        (\<lambda>(e, s, bs). bindP (callP (\<lambda>_. ()) (\<lambda>_. DestroyDescriptor desc)) (\<lambda>_.
          if e \<noteq> NONE then bindP (freeBuffers_th env bs) (\<lambda>_. Done (Inl e)) else Done (Inr (s, bs))))) L1"
      by (rule ends_bindP [OF loop]) (auto intro!: rest)
    with L1 show "ends ?Q (if e \<noteq> NONE then Done (Inl e) else
        bindP (allocLoop_th (\<lambda>i. allocateOneBuffer_th env desc
        (loc_tmpBuffer (env_locals env) i, loc_tmpStride (env_locals env) i)) (unat n) 0 0 [])
        (\<lambda>(e, s, bs). bindP (callP (\<lambda>_. ()) (\<lambda>_. DestroyDescriptor desc)) (\<lambda>_.
          if e \<noteq> NONE then bindP (freeBuffers_th env bs) (\<lambda>_. Done (Inl e)) else Done (Inr (s, bs))))) L1"
      by simp
  qed
qed

lemma allocateBuffers_th_grows:
  assumes "not_shared_only_from_allocate (env_dev env)"
  shows "ends (\<lambda>r L'. grows (case r of Inl _ \<Rightarrow> 3 * unat n + 7 | Inr _ \<Rightarrow> 2 * unat n + 7) L L')
      (allocateBuffers_th env hal d n) L" (is "ends ?Q _ _")
proof (cases "env_decode env d")
  case None
  then show ?thesis by (simp add: allocateBuffers_th_def)
next
  case (Some info)
  have rest: "ends ?Q (bindP (callP (\<lambda>_. ()) (\<lambda>_. DestroyDescriptor desc)) (\<lambda>_.
      if e \<noteq> NONE then bindP (freeBuffers_th env bs) (\<lambda>_. Done (Inl e)) else Done (Inr (s, bs)))) L2"
    if "grows c L L2" "c + length bs \<le> 3 * unat n + 6" "e = NONE \<longrightarrow> c \<le> 2 * unat n + 6" for desc e s bs L2 c
  proof -
    from that(1) have L3: "grows (Suc c) L (L2 @ [DestroyDescriptor desc])"
      by (auto simp: grows_def uses_device_def is_reply_def)
    show ?thesis
    proof (cases "e = NONE")
      case True
      with that(3) L3 show ?thesis by (auto simp: callP_def intro: grows_mono)
    next
      case False
      have "ends (\<lambda>_ L'. grows (3 * unat n + 7) L L') (freeBuffers_th env bs) (L2 @ [DestroyDescriptor desc])"
        by (rule ends_weaken [OF freeBuffers_th_grows], rule grows_trans [OF L3]) (use that(2) in auto)
      with False show ?thesis by (simp add: callP_def)
    qed
  qed
  show ?thesis unfolding allocateBuffers_th_def Some option.case
  proof (rule ends_bindP [OF createDescriptor_th_ends [OF assms]], clarify)
    fix e desc L1
    assume L1: "grows 7 L L1" "e = NONE \<longrightarrow> grows 6 L L1"
    have "ends ?Q (bindP (allocLoop_th (\<lambda>i. allocateOneBuffer_th env desc
        (loc_tmpBuffer (env_locals env) i, loc_tmpStride (env_locals env) i)) (unat n) 0 0 [])
        (\<lambda>(e, s, bs). bindP (callP (\<lambda>_. ()) (\<lambda>_. DestroyDescriptor desc)) (\<lambda>_.
          if e \<noteq> NONE then bindP (freeBuffers_th env bs) (\<lambda>_. Done (Inl e)) else Done (Inr (s, bs))))) L1"
      if "e = NONE"
    proof (rule ends_bindP [OF allocLoop_th_grows [OF allocateOneBuffer_th_grows [OF assms]]], clarify)
      fix e2 s c L2 and bs :: "native_handle list"
      assume c: "grows c L1 L2" "c + length bs \<le> 3 * unat n + length ([] :: native_handle list)"
        "e2 = NONE \<longrightarrow> c \<le> 2 * unat n"
      from L1(2) that have "grows 6 L L1" by simp
      from grows_trans [OF this c(1) order_refl] have "grows (6 + c) L L2" .
      from rest [OF this] c(2,3)
      show "ends ?Q (bindP (callP (\<lambda>_. ()) (\<lambda>_. DestroyDescriptor desc)) (\<lambda>_.
          if e2 \<noteq> NONE then bindP (freeBuffers_th env bs) (\<lambda>_. Done (Inl e2)) else Done (Inr (s, bs)))) L2"
        by simp
    qed
    with L1 show "ends ?Q (if e \<noteq> NONE then Done (Inl e) else
        bindP (allocLoop_th (\<lambda>i. allocateOneBuffer_th env desc
        (loc_tmpBuffer (env_locals env) i, loc_tmpStride (env_locals env) i)) (unat n) 0 0 [])
        (\<lambda>(e, s, bs). bindP (callP (\<lambda>_. ()) (\<lambda>_. DestroyDescriptor desc)) (\<lambda>_.
          if e \<noteq> NONE then bindP (freeBuffers_th env bs) (\<lambda>_. Done (Inl e)) else Done (Inr (s, bs))))) L1"
      by (auto intro: grows_mono)
  qed
qed

lemma dumpDebugInfo_th_ends:
  "ends (\<lambda>_ L'. outstanding L' = outstanding L \<and> grows 2 L L') (dumpDebugInfo_th env) L"
  by (cases "outstanding L")
     (auto simp: dumpDebugInfo_th_def ends_bindP_iff callP_def uses_device_def is_reply_def split: prod.split)

interpretation gralloc1_threads: threaded_hal gralloc1_as_hal_th gralloc1_contract
  by unfold_locales
     (auto simp: gralloc1_as_hal_th_def gralloc1_contract_def
       intro: allocateBuffers_th_owns allocateBuffers_th_grows freeBuffers_th_owns freeBuffers_th_grows
         ends_weaken [OF dumpDebugInfo_th_ends])

section \<open>The gralloc0 back end\<close>

lemma allocateOneBuffer0_th_ends:
  "ends (\<lambda>(e, h, t) L'. grows 1 L L' \<and> (\<forall>M. outstanding L = Some M \<longrightarrow>
      outstanding L' = Some (if e = NONE then add_mset h M else M))) (allocateOneBuffer0_th env info out) L"
  by (auto simp: allocateOneBuffer0_th_def ends_bindP_iff callP_def uses_device_def is_reply_def split: prod.split)

lemma allocateOneBuffer0_th_owns:
  "outstanding L = Some M \<Longrightarrow>
   ends (\<lambda>(e, h, t) L'. outstanding L' = Some (if e = NONE then add_mset h M else M))
     (allocateOneBuffer0_th env info out) L"
  by (rule ends_weaken [OF allocateOneBuffer0_th_ends]) auto

lemma allocateOneBuffer0_th_grows:
  "ends (\<lambda>(e, h, t) L'. grows (if e = NONE then 2 else 3) L L') (allocateOneBuffer0_th env info out) L"
  by (rule ends_weaken [OF allocateOneBuffer0_th_ends]) (auto intro: grows_mono)

lemma freeBuffers0_th_owns:
  "outstanding L = Some (M + mset bs) \<Longrightarrow> ends (\<lambda>_ L'. outstanding L' = Some M) (freeBuffers0_th env bs) L"
  by (induction bs arbitrary: L) (simp_all add: callP_def)

lemma freeBuffers0_th_grows: "ends (\<lambda>_ L'. grows (length bs) L L') (freeBuffers0_th env bs) L"
proof (induction bs arbitrary: L)
  case (Cons b bs)
  have "ends (\<lambda>_ L'. grows (Suc (length bs)) L L') (freeBuffers0_th env bs) (L @ [Free0 b r])" for r
    by (rule ends_weaken [OF Cons.IH], erule grows_trans [where k = 1, rotated])
       (simp_all add: uses_device_def is_reply_def)
  then show ?case by (simp add: callP_def)
qed simp

lemma allocateBuffers0_th_owns:
  assumes "outstanding L = Some M"
  shows "ends (\<lambda>r L'. case r of
        Inl err \<Rightarrow> err \<noteq> NONE \<and> outstanding L' = Some M
      | Inr (stride, bs) \<Rightarrow> length bs = unat n \<and> outstanding L' = Some (M + mset bs))
      (allocateBuffers0_th env d n) L" (is "ends ?Q _ _")
proof (cases "env0_decode env d")
  case None
  with assms show ?thesis by (simp add: allocateBuffers0_th_def)
next
  case (Some info)
  from assms have L: "outstanding L = Some (M + mset [])" by simp
  have rest: "ends ?Q (if e \<noteq> NONE then bindP (freeBuffers0_th env bs) (\<lambda>_. Done (Inl e)) else Done (Inr (s, bs))) L2"
    if "outstanding L2 = Some (M + mset bs)" "e = NONE \<longrightarrow> length bs = unat n" for e s bs L2
    using that freeBuffers0_th_owns [of L2 M bs env] by (auto elim: ends_weaken)
  show ?thesis unfolding allocateBuffers0_th_def Some option.case
    by (rule ends_bindP [OF allocLoop_th_owns [OF allocateOneBuffer0_th_owns L]]) (auto intro!: rest)
qed

lemma allocateBuffers0_th_grows:
  "ends (\<lambda>r L'. grows (case r of Inl _ \<Rightarrow> 3 * unat n + 7 | Inr _ \<Rightarrow> 2 * unat n + 7) L L')
      (allocateBuffers0_th env d n) L" (is "ends ?Q _ _")
proof (cases "env0_decode env d")
  case None
  then show ?thesis by (simp add: allocateBuffers0_th_def)
next
  case (Some info)
  show ?thesis unfolding allocateBuffers0_th_def Some option.case
  proof (rule ends_bindP [OF allocLoop_th_grows [OF allocateOneBuffer0_th_grows]], clarify)
    fix e s c L2 and bs :: "native_handle list"
    assume c: "grows c L L2" "c + length bs \<le> 3 * unat n + length ([] :: native_handle list)" "e = NONE \<longrightarrow> c \<le> 2 * unat n"
    have "ends (\<lambda>_ L'. grows (3 * unat n + 7) L L') (freeBuffers0_th env bs) L2"
      by (rule ends_weaken [OF freeBuffers0_th_grows], rule grows_trans [OF c(1)]) (use c(2) in auto)
    with c show "ends ?Q (if e \<noteq> NONE then bindP (freeBuffers0_th env bs) (\<lambda>_. Done (Inl e)) else Done (Inr (s, bs))) L2"
      by (auto intro: grows_mono)
  qed
qed

lemma dumpDebugInfo0_th_ends:
  "ends (\<lambda>_ L'. outstanding L' = outstanding L \<and> grows 2 L L') (dumpDebugInfo0_th env) L"
  by (cases "outstanding L")
     (auto simp: dumpDebugInfo0_th_def Let_def ends_bindP_iff callP_def uses_device_def is_reply_def
       split: option.split)

interpretation gralloc0_threads: threaded_hal gralloc0_as_hal_th "\<lambda>_. True"
  by unfold_locales
     (auto simp: gralloc0_as_hal_th_def
       intro: allocateBuffers0_th_owns allocateBuffers0_th_grows freeBuffers0_th_owns freeBuffers0_th_grows
         ends_weaken [OF dumpDebugInfo0_th_ends])

section \<open>The back end the loader chose\<close>

interpretation loaded_threads: threaded_hal "\<lambda>(env, allocator). object_hal_th env allocator" loader_contract
proof (unfold_locales, goal_cases)
  case (1 e L M d n)
  then show ?case
    by (cases e; cases "mHal (snd e)")
       (auto simp: object_hal_th_def loader_contract_def gralloc1_contract_def
         intro: gralloc1_threads.alloc_owns gralloc0_threads.alloc_owns)
next
  case (2 e n L d)
  then show ?case
    by (cases e; cases "mHal (snd e)")
       (auto simp: object_hal_th_def loader_contract_def gralloc1_contract_def
         intro: gralloc1_threads.alloc_grows gralloc0_threads.alloc_grows)
next
  case (3 L M bs e)
  then show ?case
    by (cases e; cases "mHal (snd e)")
       (auto simp: object_hal_th_def intro: gralloc1_threads.free_owns gralloc0_threads.free_owns)
next
  case (4 bs L e)
  then show ?case
    by (cases e; cases "mHal (snd e)")
       (auto simp: object_hal_th_def intro: gralloc1_threads.free_grows gralloc0_threads.free_grows)
next
  case (5 L e)
  then show ?case
    by (cases e; cases "mHal (snd e)")
       (auto simp: object_hal_th_def intro: gralloc1_threads.dump_owns gralloc0_threads.dump_owns)
next
  case (6 L e)
  then show ?case
    by (cases e; cases "mHal (snd e)")
       (auto simp: object_hal_th_def intro: gralloc1_threads.dump_grows gralloc0_threads.dump_grows)
qed

end
