(* ===== verification/Allocator_Concurrency.thy ===== *)
theory Allocator_Concurrency
  imports Threaded_Hal Allocator_Properties
begin

text \<open>
  The allocator service process (service.cpp) with its pool of four binder threads: every
  interleaving of the calls its threads make, whatever the device replies. The threads share the
  allocator object, which nothing changes after start, and the device.
\<close>

section \<open>Ownership is framed\<close>

interpretation own: frame_monitor own_step
proof
  fix e M M' F
  assume "own_step e M = Some M'"
  then show "own_step e (M + F) = Some (M' + F)"
    by (cases e) (auto split: if_splits intro: subset_mset.add_increasing2)
qed

section \<open>The pool of the service\<close>

definition contract_of :: "loader_env \<Rightarrow> bool" where
  "contract_of env \<longleftrightarrow> not_shared_only_from_allocate (env_dev (ld_gralloc1 env))"

lemma allocator_main_cases:
  assumes "run_state (allocator_main env reqs) [] = (Some start, tr0)"
  obtains allocator where "run_state (HIDL_FETCH_IAllocator env) [] = (Some allocator, tr0)"
    "start = (map (\<lambda>i. serve_th (object_hal_th env allocator) (reqs i)) [0..<maxThreads], [])"
  using assms by (auto simp: allocator_main_def split: prod.splits)

lemma service_pool_inv:
  assumes "contract_of env" "run_state (allocator_main env reqs) [] = (Some start, tr0)"
    and "(pool_step tr0)\<^sup>*\<^sup>* start p"
  shows "pool_inv (\<lambda>i _. served (reqs i) []) maxThreads p"
proof -
  obtain allocator where
    start: "start = (map (\<lambda>i. serve_th (object_hal_th env allocator) (reqs i)) [0..<maxThreads], [])"
    using assms(2) by (rule allocator_main_cases)
  have contract: "loader_contract (env, allocator)"
    using assms(1) by (simp add: loader_contract_def contract_of_def)
  have "ends (\<lambda>_. served (reqs i) []) (serve_th (object_hal_th env allocator) (reqs i)) []" for i
    using loaded_threads.serve_served [OF contract, of "[]" "{#}"] by simp
  then have "pool_inv (\<lambda>i _. served (reqs i) []) maxThreads start"
    by (simp add: start pool_inv_def)
  from pool_inv_reachable [OF assms(3) this] show ?thesis .
qed

lemma service_thread_now:
  assumes "pool_inv (\<lambda>i _. served (reqs i) []) maxThreads (ts, log)" and "i < maxThreads"
  shows "outstanding (calls_of i log) \<noteq> None" "list_all uses_device (calls_of i log)"
    "length (calls_of i log) \<le> sum_list (map request_cost (reqs i))"
proof -
  obtain new where "served (reqs i) [] (calls_of i log @ new)" using pool_inv_now [OF assms] by blast
  then have "outstanding (calls_of i log @ new) = Some {#}" "list_all uses_device (calls_of i log @ new)"
    "length (calls_of i log @ new) \<le> sum_list (map request_cost (reqs i))"
    by (auto simp: served_def)
  then show "outstanding (calls_of i log) \<noteq> None" "list_all uses_device (calls_of i log)"
    "length (calls_of i log) \<le> sum_list (map request_cost (reqs i))"
    by (auto simp del: monitor_append dest: monitor_prefix)
qed

lemma fetch_owns:
  assumes "run_state (HIDL_FETCH_IAllocator env) [] = (Some allocator, tr0)"
  shows "outstanding tr0 = Some {#}" "open_devices tr0 = Some (Suc 0)"
  using load_owns [of env "[]"] load_session [of env "[]" "Some allocator" tr0 0] assms
  by (auto simp: HIDL_FETCH_IAllocator_def)

lemma calls_device:
  assumes "\<forall>(i, _) \<in> set log. i < n" "\<And>i. i < n \<Longrightarrow> list_all uses_device (calls_of i log)"
  shows "list_all uses_device (map snd log)"
  using assms by (fastforce simp: list_all_iff calls_of_def)

lemma service_calls_bound:
  assumes "contract_of env" "run_state (allocator_main env reqs) [] = (Some start, tr0)"
    and run: "(pool_step tr0 ^^ m) start p"
  shows "m \<le> (\<Sum>i < maxThreads. sum_list (map request_cost (reqs i)))"
proof -
  obtain ts log where p: "p = (ts, log)" by (rule prod.exhaust)
  have "snd start = []" using assms(2) by (rule allocator_main_cases) simp
  with pool_log_length [OF run] p have m: "m = length log" by simp
  have inv: "pool_inv (\<lambda>i _. served (reqs i) []) maxThreads (ts, log)"
    using service_pool_inv [OF assms(1,2) relpowp_imp_rtranclp [OF run]] p by simp
  then have "length log = (\<Sum>i < maxThreads. length (calls_of i log))"
    by (intro length_calls_of) (simp add: pool_inv_def)
  also have "\<dots> \<le> (\<Sum>i < maxThreads. sum_list (map request_cost (reqs i)))"
    by (intro sum_mono service_thread_now(3) [OF inv]) simp
  finally show ?thesis using m by simp
qed

text \<open>Hence some schedule, and in fact every one, comes to an end.\<close>

lemma service_completes:
  assumes "contract_of env" "run_state (allocator_main env reqs) [] = (Some start, tr0)"
  obtains m ts log where "(pool_step tr0 ^^ m) start (ts, log)" "\<not> (\<exists>p. pool_step tr0 (ts, log) p)"
proof -
  let ?B = "\<Sum>i < maxThreads. sum_list (map request_cost (reqs i))"
  let ?run = "\<lambda>m. \<exists>p. (pool_step tr0 ^^ m) start p"
  have "?run 0" by simp
  moreover have "m \<le> ?B" if "?run m" for m
    using that service_calls_bound [OF assms] by blast
  ultimately obtain m where m: "?run m" "\<And>k. ?run k \<Longrightarrow> k \<le> m"
    using GreatestI_nat [of ?run 0 ?B] Greatest_le_nat [of ?run _ ?B] by blast
  then obtain ts log where run: "(pool_step tr0 ^^ m) start (ts, log)" by auto
  have "\<not> (\<exists>p. pool_step tr0 (ts, log) p)"
  proof
    assume "\<exists>p. pool_step tr0 (ts, log) p"
    with run have "?run (Suc m)" by (auto intro: relcomppI)
    with m(2) show False by (metis Suc_n_not_le_n)
  qed
  from that [OF run this] show thesis .
qed

text \<open>C2: Threads do not disturb each other's buffers. At every moment of every interleaving of the four threads, no thread has released or shown to its client a buffer other than those it allocated itself and still held; what the service holds altogether is the sum of what its threads hold; and the one device is open.\<close>

theorem concurrent_buffer_isolation:
  assumes "not_shared_only_from_allocate (env_dev (ld_gralloc1 env))"
    and "run_state (allocator_main env reqs) [] = (Some start, tr0)"
    and "(pool_step tr0)\<^sup>*\<^sup>* start (ts, log)"
  shows "\<exists>held. (\<forall>i < maxThreads. outstanding (calls_of i log) = Some (held i)) \<and>
     outstanding (tr0 @ map snd log) = Some (\<Sum>i < maxThreads. held i) \<and>
     open_devices (tr0 @ map snd log) = Some 1"
proof -
  have inv: "pool_inv (\<lambda>i _. served (reqs i) []) maxThreads (ts, log)"
    by (rule service_pool_inv [OF _ assms(2,3)]) (simp add: contract_of_def assms(1))
  then have ids: "\<forall>(i, _) \<in> set log. i < maxThreads" by (simp add: pool_inv_def)
  define held where "held = (\<lambda>i. the (outstanding (calls_of i log)))"
  have held: "outstanding (calls_of i log) = Some (held i)" if "i < maxThreads" for i
    using service_thread_now(1) [OF inv that] by (auto simp: held_def)
  obtain allocator where "run_state (HIDL_FETCH_IAllocator env) [] = (Some allocator, tr0)"
    using assms(2) by (rule allocator_main_cases)
  note tr0 = fetch_owns [OF this]
  have "extends_by uses_device tr0 (tr0 @ map snd log)"
    using calls_device [OF ids] service_thread_now(2) [OF inv] by (simp add: extends_by_def)
  from uses_device_session [OF this tr0(2)] have "open_devices (tr0 @ map snd log) = Some 1" by simp
  moreover have "outstanding (tr0 @ map snd log) = Some (\<Sum>i < maxThreads. held i)"
    using tr0(1) own.threads_sum [OF ids held] by simp
  ultimately show ?thesis using held by blast
qed

text \<open>C13: Every request is answered, under concurrency. In a pool that cannot go on, every thread has served all its requests: it has answered each of them exactly once, in order, with as many handles as were asked for or an error; and no buffer is outstanding any more.\<close>

theorem concurrent_requests_answered:
  assumes "not_shared_only_from_allocate (env_dev (ld_gralloc1 env))"
    and "run_state (allocator_main env reqs) [] = (Some start, tr0)"
    and "(pool_step tr0)\<^sup>*\<^sup>* start (ts, log)" and "\<not> (\<exists>p. pool_step tr0 (ts, log) p)"
  shows "(\<forall>i < maxThreads. list_all2 answers (reqs i) (replies (calls_of i log))) \<and>
     outstanding (tr0 @ map snd log) = Some {#}"
proof -
  have inv: "pool_inv (\<lambda>i _. served (reqs i) []) maxThreads (ts, log)"
    by (rule service_pool_inv [OF _ assms(2,3)]) (simp add: contract_of_def assms(1))
  then have ids: "\<forall>(i, _) \<in> set log. i < maxThreads" and len: "length ts = maxThreads"
    by (simp_all add: pool_inv_def)
  have served: "served (reqs i) [] (calls_of i log)" if "i < maxThreads" for i
  proof -
    have "is_done (ts ! i)" using pool_progress [OF assms(4)] that len by simp
    from pool_inv_done [OF inv that this] show ?thesis by blast
  qed
  then have "outstanding (calls_of i log) = Some {#}" if "i < maxThreads" for i
    using that by (simp add: served_def)
  from own.threads_sum [OF ids this] have "outstanding (map snd log) = Some {#}" by simp
  moreover obtain allocator where "run_state (HIDL_FETCH_IAllocator env) [] = (Some allocator, tr0)"
    using assms(2) by (rule allocator_main_cases)
  ultimately show ?thesis
    using served fetch_owns(1) by (auto simp: served_def)
qed

text \<open>C14: The service never runs away. However the threads are scheduled and whatever the device replies, the number of calls made is at most what the requests cost: 3 for a dump, \<open>3n + 8\<close> for an allocation of \<open>n\<close> buffers. In particular no schedule is infinite.\<close>

theorem concurrent_service_terminates:
  assumes "not_shared_only_from_allocate (env_dev (ld_gralloc1 env))"
    and "run_state (allocator_main env reqs) [] = (Some start, tr0)"
  shows "(\<forall>m p. (pool_step tr0 ^^ m) start p \<longrightarrow>
        m \<le> (\<Sum>i < maxThreads. sum_list (map request_cost (reqs i)))) \<and>
     \<not> (\<exists>f. f 0 = start \<and> (\<forall>k. pool_step tr0 (f k) (f (Suc k))))"
proof -
  note bound = service_calls_bound [OF assms(1) [folded contract_of_def] assms(2)]
  have "(pool_step tr0 ^^ k) (f 0) (f k)" if "\<forall>k. pool_step tr0 (f k) (f (Suc k))" for f k
    using that by (induction k) auto
  with bound show ?thesis by (metis Suc_n_not_le_n)
qed

text \<open>The two models of the service agree: the call-by-call program of a thread, run without interference on either
  back end, makes exactly the calls of \<open>serve\<close>.\<close>

lemma lone_thread_is_serve:
  "runP (serve_th (object_hal_th env allocator) rs) tr = run_state (serve (object_hal env allocator) rs) tr"
  using runs_serve_th [OF same_object_hal] by (simp add: runs_def)

section \<open>Closed instances\<close>

text \<open>Two busy threads, on a gralloc0 and on a gralloc1 module.\<close>

definition sample_requests :: "nat \<Rightarrow> request list" where
  "sample_requests i = (if i = 0 then [Allocate [1] 2] else if i = 1 then [Allocate [1] 1, DumpDebugInfo] else [])"

definition sample_pool :: "u16 \<Rightarrow> (gr_event, unit) pool" where
  "sample_pool v = the (fst (run_state (allocator_main (sample_loader v) sample_requests) []))"

definition sample_base :: "u16 \<Rightarrow> gr_trace" where
  "sample_base v = snd (run_state (allocator_main (sample_loader v) sample_requests) [])"

lemma sample_main:
  assumes "fst (run_state (HIDL_FETCH_IAllocator (sample_loader v)) []) \<noteq> None"
  shows "run_state (allocator_main (sample_loader v) sample_requests) [] = (Some (sample_pool v), sample_base v)"
  using assms by (auto simp: sample_pool_def sample_base_def allocator_main_def prod_eq_iff case_prod_unfold)

lemma sample_fetch:
  "fst (run_state (HIDL_FETCH_IAllocator (sample_loader 0x000)) []) \<noteq> None"
  "fst (run_state (HIDL_FETCH_IAllocator (sample_loader 0x100)) []) \<noteq> None"
  by code_simp+

lemma sample_completed:
  assumes "fst (run_state (HIDL_FETCH_IAllocator (sample_loader v)) []) \<noteq> None"
  obtains ts log where "(pool_step (sample_base v))\<^sup>*\<^sup>* (sample_pool v) (ts, log)"
    "\<not> (\<exists>p. pool_step (sample_base v) (ts, log) p)"
proof -
  have "contract_of (sample_loader v)" by (simp add: contract_of_def sample_loader_contract)
  from service_completes [OF this sample_main [OF assms]] that show thesis
    by (metis relpowp_imp_rtranclp)
qed

theorem concurrent_buffer_isolation_witness:
  "\<exists>ts log held. (pool_step (sample_base 0x100))\<^sup>*\<^sup>* (sample_pool 0x100) (ts, log) \<and>
     \<not> (\<exists>p. pool_step (sample_base 0x100) (ts, log) p) \<and>
     outstanding (sample_base 0x100 @ map snd log) = Some (\<Sum>i < maxThreads. held i)"
proof -
  obtain ts log where run: "(pool_step (sample_base 0x100))\<^sup>*\<^sup>* (sample_pool 0x100) (ts, log)"
    "\<not> (\<exists>p. pool_step (sample_base 0x100) (ts, log) p)"
    using sample_completed [OF sample_fetch(2)] .
  from concurrent_buffer_isolation [OF sample_loader_contract sample_main [OF sample_fetch(2)] run(1)] run
  show ?thesis by blast
qed

theorem concurrent_requests_answered_witness:
  "\<exists>ts log e stride bs. (pool_step (sample_base 0x000))\<^sup>*\<^sup>* (sample_pool 0x000) (ts, log) \<and>
     replies (calls_of 0 log) = [AllocateReply e stride bs] \<and>
     outstanding (sample_base 0x000 @ map snd log) = Some {#}"
proof -
  obtain ts log where run: "(pool_step (sample_base 0x000))\<^sup>*\<^sup>* (sample_pool 0x000) (ts, log)"
    "\<not> (\<exists>p. pool_step (sample_base 0x000) (ts, log) p)"
    using sample_completed [OF sample_fetch(1)] .
  note answered = concurrent_requests_answered
    [OF sample_loader_contract sample_main [OF sample_fetch(1)] run]
  have "list_all2 answers (sample_requests 0) (replies (calls_of 0 log))"
    using answered by (simp add: maxThreads_def)
  then obtain ev where ev: "replies (calls_of 0 log) = [ev]" "answers (Allocate [1] 2) ev"
    by (auto simp: sample_requests_def list_all2_Cons1)
  then obtain e stride bs where "ev = AllocateReply e stride bs" by (cases ev) auto
  with answered run(1) ev(1) show ?thesis by blast
qed

theorem concurrent_service_terminates_witness:
  "\<not> (\<exists>f. f 0 = sample_pool 0x100 \<and> (\<forall>k. pool_step (sample_base 0x100) (f k) (f (Suc k))))"
  using concurrent_service_terminates [OF sample_loader_contract sample_main [OF sample_fetch(2)]] by blast

end
