(* ===== verification/Descriptor_Threads.thy ===== *)
theory Descriptor_Threads
  imports Allocator_Concurrency
begin

text \<open>
  Buffer descriptors under concurrency: the threads of the service share the gralloc1 device, and each
  configures, uses and destroys only the descriptors it created itself.
\<close>

section \<open>Descriptors are framed\<close>

interpretation desc: frame_monitor desc_step
proof
  fix e M M' F
  assume "desc_step e M = Some M'"
  then show "desc_step e (M + F) = Some (M' + F)"
    by (cases e) (auto split: if_splits)
qed

text \<open>The device always has a descriptor to hand out.\<close>

definition descriptors_available :: "gralloc1_device \<Rightarrow> bool" where
  "descriptors_available dev \<longleftrightarrow> (\<forall>tr. fst (dev_createDescriptor dev tr) = GRALLOC1_ERROR_NONE)"

section \<open>One thread\<close>

abbreviation keeps_descs :: "gralloc1_desc multiset \<Rightarrow> 'a \<Rightarrow> gr_trace \<Rightarrow> bool" where
  "keeps_descs M \<equiv> (\<lambda>_ L. live_descs L = Some M)"

lemma createDescriptor_th_descs:
  assumes "not_shared_only_from_allocate (env_dev env)" "descriptors_available (env_dev env)"
    and "live_descs L = Some M"
  shows "ends (\<lambda>(e, d) L'. live_descs L' = Some (if e = NONE then add_mset d M else M))
     (createDescriptor_th env hal info out) L"
proof -
  have avail: "\<And>tr. fst (dev_createDescriptor (env_dev env) tr) = GRALLOC1_ERROR_NONE"
    using assms(2) by (simp add: descriptors_available_def)
  show ?thesis
    using assms(1) [unfolded not_shared_only_from_allocate_def] assms(3)
    by (auto simp: createDescriptor_th_def ends_bindP_iff callP_def toError_NONE_iff case_prod_unfold avail)
qed

lemma allocateOneBuffer_th_descs:
  "live_descs L = Some M \<Longrightarrow> d \<in># M \<Longrightarrow> ends (keeps_descs M) (allocateOneBuffer_th env d out) L"
  by (auto simp: allocateOneBuffer_th_def ends_bindP_iff callP_def case_prod_unfold)

lemma allocLoop_th_keeps:
  assumes "\<And>i L. I L \<Longrightarrow> ends (\<lambda>_. I) (alloc i) L"
  shows "I L \<Longrightarrow> ends (\<lambda>_. I) (allocLoop_th alloc n i s bs) L"
proof (induction n arbitrary: i s bs L)
  case (Suc n)
  then show ?case unfolding allocLoop_th.simps
    by (intro ends_bindP [OF assms [OF Suc.prems]]) (auto split: prod.split)
qed simp

lemma freeBuffers_th_descs:
  "live_descs L = Some M \<Longrightarrow> ends (keeps_descs M) (freeBuffers_th env bs) L"
  by (induction bs arbitrary: L) (simp_all add: callP_def)

lemma allocateBuffers_th_descs:
  assumes "not_shared_only_from_allocate (env_dev env)" "descriptors_available (env_dev env)"
    and "live_descs L = Some M"
  shows "ends (keeps_descs M) (allocateBuffers_th env hal d n) L"
proof (cases "env_decode env d")
  case None
  with assms(3) show ?thesis by (simp add: allocateBuffers_th_def)
next
  case (Some info)
  have loop: "ends (keeps_descs (add_mset desc M)) (allocLoop_th (\<lambda>i. allocateOneBuffer_th env desc (out i)) k i s bs) L1"
    if "live_descs L1 = Some (add_mset desc M)" for desc out k i s bs L1
    using that by (intro allocLoop_th_keeps allocateOneBuffer_th_descs) auto
  show ?thesis unfolding allocateBuffers_th_def Some option.case
    by (rule ends_bindP [OF createDescriptor_th_descs [OF assms]])
       (auto intro!: ends_bindP [OF loop] simp: callP_def freeBuffers_th_descs split: prod.split)
qed

lemma dumpDebugInfo_th_descs:
  "live_descs L = Some M \<Longrightarrow> ends (keeps_descs M) (dumpDebugInfo_th env) L"
  by (auto simp: dumpDebugInfo_th_def ends_bindP_iff callP_def case_prod_unfold)

lemma gralloc0_th_descs:
  assumes "live_descs L = Some M"
  shows "ends (keeps_descs M) (allocateBuffers0_th env d n) L"
    "ends (keeps_descs M) (freeBuffers0_th env bs) L" "ends (keeps_descs M) (dumpDebugInfo0_th env) L"
proof -
  have one: "ends (keeps_descs M) (allocateOneBuffer0_th env info out) L" if "live_descs L = Some M" for info out L
    using that by (auto simp: allocateOneBuffer0_th_def ends_bindP_iff callP_def case_prod_unfold)
  have free: "ends (keeps_descs M) (freeBuffers0_th env bs) L" if "live_descs L = Some M" for bs L
    using that by (induction bs arbitrary: L) (simp_all add: callP_def)
  have loop: "ends (keeps_descs M) (allocLoop_th (\<lambda>i. allocateOneBuffer0_th env info (out i)) k i s bs) L"
    if "live_descs L = Some M" for info out k i s bs L
    using that by (intro allocLoop_th_keeps one)
  show "ends (keeps_descs M) (allocateBuffers0_th env d n) L"
    using assms
    by (auto simp: allocateBuffers0_th_def free intro!: ends_bindP [OF loop] split: option.split prod.split)
  show "ends (keeps_descs M) (freeBuffers0_th env bs) L" using free assms .
  show "ends (keeps_descs M) (dumpDebugInfo0_th env) L"
    using assms by (auto simp: dumpDebugInfo0_th_def Let_def ends_bindP_iff callP_def split: option.split)
qed

lemma serve_th_descs:
  assumes "\<And>L d n. live_descs L = Some M \<Longrightarrow> ends (keeps_descs M) (th_allocateBuffers th d n) L"
    "\<And>L bs. live_descs L = Some M \<Longrightarrow> ends (keeps_descs M) (th_freeBuffers th bs) L"
    "\<And>L. live_descs L = Some M \<Longrightarrow> ends (keeps_descs M) (th_dumpDebugInfo th) L"
  shows "live_descs L = Some M \<Longrightarrow> ends (keeps_descs M) (serve_th th rs) L"
proof (induction rs arbitrary: L)
  case (Cons r rs)
  have "ends (keeps_descs M) (handle_request_th th r) L"
  proof (cases r)
    case (Allocate d n)
    then show ?thesis
      by (auto simp: Allocator_allocate_th_def callP_def assms(2)
          intro!: ends_bindP [OF assms(1) [OF Cons.prems]] split: sum.split prod.split)
  next
    case DumpDebugInfo
    then show ?thesis
      by (auto simp: Allocator_dumpDebugInfo_th_def callP_def
          intro!: ends_bindP [OF assms(3) [OF Cons.prems]])
  qed
  then show ?case unfolding serve_th.simps by (rule ends_bindP) (rule Cons.IH)
qed simp

lemma object_th_descs:
  assumes "not_shared_only_from_allocate (env_dev (ld_gralloc1 env))"
    "descriptors_available (env_dev (ld_gralloc1 env))" "live_descs L = Some M"
  shows "ends (keeps_descs M) (serve_th (object_hal_th env allocator) rs) L"
  using assms(3)
  by (intro serve_th_descs)
     (auto simp: object_hal_th_def gralloc1_as_hal_th_def gralloc0_as_hal_th_def gralloc0_th_descs
       allocateBuffers_th_descs [OF assms(1,2)] freeBuffers_th_descs dumpDebugInfo_th_descs
       split: hal_object.split)

section \<open>The pool\<close>

text \<open>C17: Threads do not disturb each other's descriptors. With a device that has descriptors to hand out, at every moment of every interleaving each thread has configured, allocated from and destroyed only descriptors it created itself and still had; the service's live descriptors are the sum of its threads'; and when no thread can go on, none is left.\<close>

theorem concurrent_descriptor_isolation:
  assumes "not_shared_only_from_allocate (env_dev (ld_gralloc1 env))"
    and "descriptors_available (env_dev (ld_gralloc1 env))"
    and "run_state (allocator_main env reqs) [] = (Some start, tr0)"
    and "(pool_step tr0)\<^sup>*\<^sup>* start (ts, log)"
  shows "\<exists>live. (\<forall>i < maxThreads. live_descs (calls_of i log) = Some (live i)) \<and>
     live_descs (map snd log) = Some (\<Sum>i < maxThreads. live i) \<and>
     ((\<exists>p. pool_step tr0 (ts, log) p) \<or> (\<forall>i < maxThreads. live i = {#}))"
proof -
  obtain allocator where
    start: "start = (map (\<lambda>i. serve_th (object_hal_th env allocator) (reqs i)) [0..<maxThreads], [])"
    using assms(3) by (rule allocator_main_cases)
  have "pool_inv (\<lambda>_. keeps_descs {#}) maxThreads start"
    using object_th_descs [OF assms(1,2), of "[]" "{#}"] by (simp add: start pool_inv_def)
  from pool_inv_reachable [OF assms(4) this]
  have inv: "pool_inv (\<lambda>_. keeps_descs {#}) maxThreads (ts, log)" .
  then have ids: "\<forall>(i, _) \<in> set log. i < maxThreads" and len: "length ts = maxThreads"
    by (simp_all add: pool_inv_def)
  define live where "live = (\<lambda>i. the (live_descs (calls_of i log)))"
  have live: "live_descs (calls_of i log) = Some (live i)" if i: "i < maxThreads" for i
  proof -
    obtain new where "live_descs (calls_of i log @ new) = Some {#}" using pool_inv_now [OF inv i] by blast
    from monitor_prefix [OF this] show ?thesis by (auto simp: live_def)
  qed
  have "live i = {#}" if "i < maxThreads" and "\<not> (\<exists>p. pool_step tr0 (ts, log) p)" for i
  proof -
    have "is_done (ts ! i)" using pool_progress [OF that(2)] that(1) len by simp
    from pool_inv_done [OF inv that(1) this] live [OF that(1)] show ?thesis by simp
  qed
  with live desc.threads_sum [OF ids live] show ?thesis by blast
qed

lemma sample_available: "descriptors_available (env_dev (ld_gralloc1 (sample_loader v)))"
  by (simp add: descriptors_available_def sample_loader_def sample_create)

theorem concurrent_descriptor_isolation_witness:
  "\<exists>ts log. (pool_step (sample_base 0x100))\<^sup>*\<^sup>* (sample_pool 0x100) (ts, log) \<and>
     live_descs (map snd log) = Some {#}"
proof -
  obtain ts log where run: "(pool_step (sample_base 0x100))\<^sup>*\<^sup>* (sample_pool 0x100) (ts, log)"
    "\<not> (\<exists>p. pool_step (sample_base 0x100) (ts, log) p)"
    using sample_completed [OF sample_fetch(2)] .
  from concurrent_descriptor_isolation
    [OF sample_loader_contract sample_available sample_main [OF sample_fetch(2)] run(1)] run(2)
  have "live_descs (map snd log) = Some {#}" by auto
  with run(1) show ?thesis by blast
qed

end
