(* ===== verification/Dispatch_Threads.thy ===== *)
theory Dispatch_Threads
  imports Allocator_Concurrency
begin

text \<open>
  The dispatch table under concurrency: whatever a thread of the service calls on a gralloc1 device, the
  entry of the table it goes through was loaded.
\<close>

section \<open>Calls of a program\<close>

text \<open>Whoever interferes, every call of the program satisfies \<open>P\<close>.\<close>

definition makes :: "('e \<Rightarrow> bool) \<Rightarrow> ('e, 'a) prog \<Rightarrow> bool" where
  "makes P p \<longleftrightarrow> (\<forall>L. list_all P L \<longrightarrow> ends (\<lambda>_. list_all P) p L)"

named_theorems makes_rules \<open>compositional rules for the calls of a program\<close>

lemma makes_Done [makes_rules]: "makes P (Done a)"
  by (simp add: makes_def)

lemma makes_callP [makes_rules]: "(\<And>tr. P (ev (reply tr))) \<Longrightarrow> makes P (callP reply ev)"
  by (simp add: makes_def callP_def)

lemma makes_bindP [makes_rules]: "makes P m \<Longrightarrow> (\<And>a. makes P (f a)) \<Longrightarrow> makes P (bindP m f)"
  unfolding makes_def by (blast intro: ends_bindP)

lemma makes_if [makes_rules]: "(b \<Longrightarrow> makes P m) \<Longrightarrow> (\<not> b \<Longrightarrow> makes P n) \<Longrightarrow> makes P (if b then m else n)"
  by simp

section \<open>The gralloc1 back end\<close>

lemma makes_allocLoop_th:
  "(\<And>i. makes P (alloc i)) \<Longrightarrow> makes P (allocLoop_th alloc n i stride bs)"
  by (induction n arbitrary: i stride bs) (auto intro!: makes_rules split: prod.split)

lemma makes_freeBuffers_th: "hal_ready hal \<Longrightarrow> makes (through_table hal) (freeBuffers_th env bs)"
  by (induction bs) (auto intro!: makes_rules simp: through_table_def hal_ready_iff)

lemma makes_createDescriptor_th: "hal_ready hal \<Longrightarrow> makes (through_table hal) (createDescriptor_th env hal info out)"
  unfolding createDescriptor_th_def
  by (auto intro!: makes_rules simp: through_table_def hal_ready_iff split: prod.split)

lemma makes_allocateOneBuffer_th: "hal_ready hal \<Longrightarrow> makes (through_table hal) (allocateOneBuffer_th env d out)"
  unfolding allocateOneBuffer_th_def
  by (auto intro!: makes_rules simp: through_table_def hal_ready_iff case_prod_unfold)

lemma makes_allocateBuffers_th: "hal_ready hal \<Longrightarrow> makes (through_table hal) (allocateBuffers_th env hal d n)"
  unfolding allocateBuffers_th_def
  by (auto intro!: makes_rules makes_createDescriptor_th makes_allocLoop_th makes_allocateOneBuffer_th
      makes_freeBuffers_th simp: through_table_def [of _ "DestroyDescriptor _"] hal_ready_iff
      split: prod.split option.split)

lemma makes_dumpDebugInfo_th: "hal_ready hal \<Longrightarrow> makes (through_table hal) (dumpDebugInfo_th env)"
  unfolding dumpDebugInfo_th_def
  by (auto intro!: makes_rules simp: through_table_def hal_ready_iff split: prod.split)

lemma makes_serve_th:
  assumes "\<And>d n. makes P (th_allocateBuffers th d n)" "\<And>bs. makes P (th_freeBuffers th bs)"
    "makes P (th_dumpDebugInfo th)" "\<And>e s bs. P (AllocateReply e s bs)" "\<And>i. P (DumpReply i)"
  shows "makes P (serve_th th rs)"
proof (induction rs)
  case (Cons r rs)
  have "makes P (handle_request_th th r)"
    using assms
    by (cases r) (auto simp: Allocator_allocate_th_def Allocator_dumpDebugInfo_th_def intro!: makes_rules
        split: sum.split prod.split)
  with Cons show ?case by (auto intro: makes_rules)
qed (simp add: makes_rules)

section \<open>The pool\<close>

definition through_loaded :: "Allocator_object \<Rightarrow> gr_event \<Rightarrow> bool" where
  "through_loaded allocator e \<longleftrightarrow>
     (case mHal allocator of Gralloc1Hal hal \<Rightarrow> through_table hal e | Gralloc0Hal _ \<Rightarrow> True)"

lemma fetch_ready:
  assumes "run_state (HIDL_FETCH_IAllocator env) tr = (Some allocator, tr')" and "mHal allocator = Gralloc1Hal hal"
  shows "hal_ready hal"
proof -
  have "run_state (load env) tr = (Some allocator, tr')" using assms(1) by (simp add: HIDL_FETCH_IAllocator_def)
  then obtain module hal' where "allocator = \<lparr>mHal = hal'\<rparr>"
    "run_state (createHal env module) (tr @ [HwGetModule 0]) = (Some hal', tr')"
    by (rule load_cases) auto
  with assms(2) show ?thesis by (auto intro: createHal_ready)
qed

lemma makes_object_th:
  assumes "run_state (HIDL_FETCH_IAllocator env) tr = (Some allocator, tr')"
  shows "makes (through_loaded allocator) (serve_th (object_hal_th env allocator) rs)"
proof (cases "mHal allocator")
  case (Gralloc1Hal hal)
  then have "through_loaded allocator = through_table hal" by (simp add: through_loaded_def fun_eq_iff)
  with fetch_ready [OF assms Gralloc1Hal] Gralloc1Hal show ?thesis
    by (auto intro!: makes_serve_th makes_allocateBuffers_th makes_freeBuffers_th makes_dumpDebugInfo_th
        simp: object_hal_th_def gralloc1_as_hal_th_def through_table_def [of _ "AllocateReply _ _ _"]
          through_table_def [of _ "DumpReply _"])
next
  case (Gralloc0Hal hal)
  then have all: "through_loaded allocator e" for e by (simp add: through_loaded_def)
  then have "makes (through_loaded allocator) p" for p :: "(gr_event, unit) prog"
    unfolding makes_def list_all_iff
    by (intro allI impI) (induction p, auto)
  then show ?thesis .
qed

text \<open>C24: No call through a null entry of the dispatch table. Once the service is up on a gralloc1 module, every function any of its threads calls on the device, at every moment of every interleaving, has been loaded by \<open>initDispatch\<close>; in particular \<open>setLayerCount\<close>, which is loaded only with the layered-buffers capability.\<close>

theorem concurrent_no_null_function:
  assumes "run_state (allocator_main env reqs) [] = (Some start, tr0)"
    and "(pool_step tr0)\<^sup>*\<^sup>* start (ts, log)"
  shows "\<exists>allocator. run_state (HIDL_FETCH_IAllocator env) [] = (Some allocator, tr0) \<and>
    (\<forall>hal. mHal allocator = Gralloc1Hal hal \<longrightarrow> list_all (through_table hal) (map snd log))"
proof -
  obtain allocator where fetch: "run_state (HIDL_FETCH_IAllocator env) [] = (Some allocator, tr0)"
    and start: "start = (map (\<lambda>i. serve_th (object_hal_th env allocator) (reqs i)) [0..<maxThreads], [])"
    using assms(1) by (rule allocator_main_cases)
  let ?P = "through_loaded allocator"
  have "pool_inv (\<lambda>_ _. list_all ?P) maxThreads start"
    using makes_object_th [OF fetch] by (simp add: start pool_inv_def makes_def)
  from pool_inv_reachable [OF assms(2) this]
  have inv: "pool_inv (\<lambda>_ _. list_all ?P) maxThreads (ts, log)" .
  have "list_all ?P (calls_of i log)" if "i < maxThreads" for i
    using pool_inv_now [OF inv that] by auto
  moreover have "\<forall>(i, _) \<in> set log. i < maxThreads" using inv by (simp add: pool_inv_def)
  ultimately have "list_all ?P (map snd log)" by (fastforce simp: list_all_iff calls_of_def)
  with fetch show ?thesis by (auto simp: through_loaded_def list_all_iff)
qed

lemma sample_is_gralloc1:
  "case fst (run_state (HIDL_FETCH_IAllocator (sample_loader 0x100)) []) of
     None \<Rightarrow> False | Some a \<Rightarrow> (case mHal a of Gralloc1Hal _ \<Rightarrow> True | Gralloc0Hal _ \<Rightarrow> False)"
  by code_simp

theorem concurrent_no_null_function_witness:
  "\<exists>ts log hal. (pool_step (sample_base 0x100))\<^sup>*\<^sup>* (sample_pool 0x100) (ts, log) \<and>
     \<not> (\<exists>p. pool_step (sample_base 0x100) (ts, log) p) \<and>
     fst (run_state (HIDL_FETCH_IAllocator (sample_loader 0x100)) []) = Some \<lparr>mHal = Gralloc1Hal hal\<rparr> \<and>
     list_all (through_table hal) (map snd log)"
proof -
  obtain ts log where run: "(pool_step (sample_base 0x100))\<^sup>*\<^sup>* (sample_pool 0x100) (ts, log)"
    "\<not> (\<exists>p. pool_step (sample_base 0x100) (ts, log) p)"
    using sample_completed [OF sample_fetch(2)] .
  obtain allocator where a: "run_state (HIDL_FETCH_IAllocator (sample_loader 0x100)) [] = (Some allocator, sample_base 0x100)"
    "\<And>hal. mHal allocator = Gralloc1Hal hal \<Longrightarrow> list_all (through_table hal) (map snd log)"
    using concurrent_no_null_function [OF sample_main [OF sample_fetch(2)] run(1)] by blast
  then obtain hal where "mHal allocator = Gralloc1Hal hal"
    using sample_is_gralloc1 by (auto split: hal_object.splits)
  with a run show ?thesis by (cases allocator) auto
qed

end
