(* ===== verification/Gralloc1_Descriptors.thy ===== *)
theory Gralloc1_Descriptors
  imports Gralloc1_Properties
begin

text \<open>
  The calls of one gralloc1 allocation around its descriptor: \<open>configured\<close> and \<open>not_configured\<close> say
  what \<open>createDescriptor\<close> has called when it succeeds and when it fails, \<open>configuring\<close> is the assertion
  between its calls, and the property gives the whole trace of \<open>allocateBuffers\<close>.
\<close>

section \<open>Specification\<close>

text \<open>The calls that configure a descriptor for a request, in order, each awaiting its result.\<close>

definition configuration ::
  "usage_abi \<Rightarrow> gralloc1_hal \<Rightarrow> BufferDescriptorInfo \<Rightarrow> gralloc1_desc \<Rightarrow> (gralloc1_error \<Rightarrow> gr_event) list" where
  "configuration abi hal info d =
     [SetDimensions d (bd_width info) (bd_height info), SetFormat d (bd_format info)] @
     (if mCapabilities_layeredBuffers hal then [SetLayerCount d (bd_layerCount info)] else []) @
     [SetProducerUsage d (toProducerUsage abi (bd_usage info)),
      SetConsumerUsage d (toConsumerUsage abi (bd_usage info))]"

fun allocates_from :: "gralloc1_desc \<Rightarrow> gr_event \<Rightarrow> bool" where
  "allocates_from d (Allocate1 d' _ _) = (d' = d)"
| "allocates_from d (GetStride _ _ _) = True"
| "allocates_from d (Release _ _) = True"
| "allocates_from d _ = False"

fun is_release :: "gr_event \<Rightarrow> bool" where
  "is_release (Release _ _) = True"
| "is_release _ = False"

text \<open>How \<open>createDescriptor\<close> ends, once the device has handed out \<open>d\<close>.\<close>

definition configured :: "usage_abi \<Rightarrow> gralloc1_hal \<Rightarrow> BufferDescriptorInfo \<Rightarrow> gralloc1_desc \<Rightarrow> gr_trace \<Rightarrow> bool" where
  "configured abi hal info d calls \<longleftrightarrow>
     (mCapabilities_layeredBuffers hal \<or> bd_layerCount info \<le> 1) \<and>
     calls = map (\<lambda>c. c GRALLOC1_ERROR_NONE) (configuration abi hal info d)"

definition not_configured ::
  "usage_abi \<Rightarrow> gralloc1_hal \<Rightarrow> BufferDescriptorInfo \<Rightarrow> gralloc1_desc \<Rightarrow> gralloc1_error \<Rightarrow> gr_trace \<Rightarrow> bool" where
  "not_configured abi hal info d err calls \<longleftrightarrow> err \<noteq> GRALLOC1_ERROR_NONE \<and>
     (let cs = configuration abi hal info d; many = 1 < bd_layerCount info \<and> \<not> mCapabilities_layeredBuffers hal in
      many \<and> err = GRALLOC1_ERROR_UNSUPPORTED \<and> calls = map (\<lambda>c. c GRALLOC1_ERROR_NONE) (take 2 cs) \<or>
      (\<exists>k < if many then 2 else length cs.
         calls = map (\<lambda>c. c GRALLOC1_ERROR_NONE) (take k cs) @ [(cs ! k) err]))"

section \<open>The calls of \<open>createDescriptor\<close>\<close>

text \<open>Between two of these calls, \<open>k\<close> of them made: all succeeded so far, or one failed and \<open>e\<close> says how.\<close>

definition configuring ::
  "usage_abi \<Rightarrow> gralloc1_hal \<Rightarrow> BufferDescriptorInfo \<Rightarrow> gralloc1_desc \<Rightarrow> gr_trace \<Rightarrow> nat \<Rightarrow> gralloc1_error \<Rightarrow> gr_trace \<Rightarrow> bool" where
  "configuring abi hal info d tr0 k e tr \<longleftrightarrow>
     (if e = GRALLOC1_ERROR_NONE
      then tr = tr0 @ map (\<lambda>c. c GRALLOC1_ERROR_NONE) (take k (configuration abi hal info d))
      else e \<noteq> GRALLOC1_ERROR_NOT_SHARED \<and> (\<exists>calls. not_configured abi hal info d e calls \<and> tr = tr0 @ calls))"

lemma configuring_call:
  assumes "configuration abi hal info d ! k = ev"
    and "\<And>tr. reply tr \<noteq> GRALLOC1_ERROR_NOT_SHARED"
    and "k < length (configuration abi hal info d)"
    and "Q \<Longrightarrow> k < 2 \<or> mCapabilities_layeredBuffers hal \<or> bd_layerCount info \<le> 1"
  shows "hoare (\<lambda>tr. configuring abi hal info d tr0 k e tr \<and> (e = GRALLOC1_ERROR_NONE \<longrightarrow> Q))
    (if e = GRALLOC1_ERROR_NONE then call reply ev else return e)
    (\<lambda>e tr. configuring abi hal info d tr0 (Suc k) e tr \<and> (e = GRALLOC1_ERROR_NONE \<longrightarrow> Q))"
proof (rule hoareI)
  fix s r s'
  assume s: "configuring abi hal info d tr0 k e s \<and> (e = GRALLOC1_ERROR_NONE \<longrightarrow> Q)"
    and run: "run_state (if e = GRALLOC1_ERROR_NONE then call reply ev else return e) s = (r, s')"
  let ?cs = "configuration abi hal info d"
  show "configuring abi hal info d tr0 (Suc k) r s' \<and> (r = GRALLOC1_ERROR_NONE \<longrightarrow> Q)"
  proof (cases "e = GRALLOC1_ERROR_NONE \<and> r \<noteq> GRALLOC1_ERROR_NONE")
    case True
    with s run assms(1,2) have r: "r = reply s" "r \<noteq> GRALLOC1_ERROR_NOT_SHARED"
      "s' = tr0 @ (map (\<lambda>c. c GRALLOC1_ERROR_NONE) (take k ?cs) @ [(?cs ! k) r])"
      by (auto simp: configuring_def)
    have "not_configured abi hal info d r (map (\<lambda>c. c GRALLOC1_ERROR_NONE) (take k ?cs) @ [(?cs ! k) r])"
      unfolding not_configured_def Let_def using True s assms(3,4) by auto
    with r True show ?thesis by (auto simp: configuring_def)
  next
    case False
    with s run assms(1,3) show ?thesis
      by (auto simp: configuring_def take_Suc_conv_app_nth split: if_splits)
  qed
qed

text \<open>The five calls of \<open>createDescriptor\<close>; the one in the middle is made with the capability only.\<close>

lemma configuring_setters:
  fixes env hal info dd tr0
  assumes "not_shared_only_from_allocate (env_dev env)"
  defines "conf \<equiv> configuring (env_abi env) hal info dd tr0"
    and "lay \<equiv> mCapabilities_layeredBuffers hal"
    and "one \<equiv> mCapabilities_layeredBuffers hal \<or> bd_layerCount info \<le> 1"
  shows configuring_dimensions: "hoare (conf 0 er)
      (if er = GRALLOC1_ERROR_NONE then call_setDimensions env dd (bd_width info) (bd_height info)
       else return er) (conf (Suc 0))"
    and configuring_format: "hoare (conf (Suc 0) er)
      (if er = GRALLOC1_ERROR_NONE then call_setFormat env dd (bd_format info) else return er) (conf 2)"
    and configuring_layers: "hoare (conf 2 er)
      (if er = GRALLOC1_ERROR_NONE
       then if lay then call_setLayerCount env dd (bd_layerCount info)
            else if 1 < bd_layerCount info then return GRALLOC1_ERROR_UNSUPPORTED else return er
       else return er)
      (\<lambda>e tr. conf (if lay then 3 else 2) e tr \<and> (e = GRALLOC1_ERROR_NONE \<longrightarrow> one))"
    and configuring_producer: "hoare (\<lambda>tr. conf (if lay then 3 else 2) er tr \<and> (er = GRALLOC1_ERROR_NONE \<longrightarrow> one))
      (if er = GRALLOC1_ERROR_NONE
       then call_setProducerUsage env dd (toProducerUsage (env_abi env) (bd_usage info)) else return er)
      (\<lambda>e tr. conf (Suc (if lay then 3 else 2)) e tr \<and> (e = GRALLOC1_ERROR_NONE \<longrightarrow> one))"
    and configuring_consumer: "hoare (\<lambda>tr. conf (Suc (if lay then 3 else 2)) er tr \<and> (er = GRALLOC1_ERROR_NONE \<longrightarrow> one))
      (if er = GRALLOC1_ERROR_NONE
       then call_setConsumerUsage env dd (toConsumerUsage (env_abi env) (bd_usage info)) else return er)
      (\<lambda>e tr. conf (Suc (Suc (if lay then 3 else 2))) e tr \<and> (e = GRALLOC1_ERROR_NONE \<longrightarrow> one))"
proof -
  note dev = assms(1) [unfolded not_shared_only_from_allocate_def]
  note runs = call_setDimensions_def call_setFormat_def call_setLayerCount_def call_setProducerUsage_def
    call_setConsumerUsage_def
  show "hoare (conf 0 er)
      (if er = GRALLOC1_ERROR_NONE then call_setDimensions env dd (bd_width info) (bd_height info)
       else return er) (conf (Suc 0))"
    unfolding runs conf_def using dev
    by (intro configuring_call [where Q = True, simplified]) (simp_all add: configuration_def)
  show "hoare (conf (Suc 0) er)
      (if er = GRALLOC1_ERROR_NONE then call_setFormat env dd (bd_format info) else return er) (conf 2)"
    unfolding runs conf_def numeral_2_eq_2 using dev
    by (intro configuring_call [where Q = True, simplified]) (simp_all add: configuration_def)
  show "hoare (conf 2 er)
      (if er = GRALLOC1_ERROR_NONE
       then if lay then call_setLayerCount env dd (bd_layerCount info)
            else if 1 < bd_layerCount info then return GRALLOC1_ERROR_UNSUPPORTED else return er
       else return er)
      (\<lambda>e tr. conf (if lay then 3 else 2) e tr \<and> (e = GRALLOC1_ERROR_NONE \<longrightarrow> one))"
  proof (cases lay)
    case True
    have "hoare (\<lambda>tr. conf 2 er tr \<and> (er = GRALLOC1_ERROR_NONE \<longrightarrow> one))
        (if er = GRALLOC1_ERROR_NONE then call_setLayerCount env dd (bd_layerCount info) else return er)
        (\<lambda>e tr. conf (Suc 2) e tr \<and> (e = GRALLOC1_ERROR_NONE \<longrightarrow> one))"
      unfolding runs conf_def using dev True
      by (intro configuring_call) (simp_all add: configuration_def lay_def)
    with True show ?thesis
      by (cases "er = GRALLOC1_ERROR_NONE") (simp_all add: numeral_3_eq_3 numeral_2_eq_2 lay_def one_def)
  next
    case False
    then show ?thesis
      by (auto simp: hoare_def conf_def lay_def one_def configuring_def not_configured_def Let_def not_less)
  qed
  show "hoare (\<lambda>tr. conf (if lay then 3 else 2) er tr \<and> (er = GRALLOC1_ERROR_NONE \<longrightarrow> one))
      (if er = GRALLOC1_ERROR_NONE
       then call_setProducerUsage env dd (toProducerUsage (env_abi env) (bd_usage info)) else return er)
      (\<lambda>e tr. conf (Suc (if lay then 3 else 2)) e tr \<and> (e = GRALLOC1_ERROR_NONE \<longrightarrow> one))"
    unfolding runs conf_def using dev
    by (intro configuring_call) (auto simp: configuration_def lay_def one_def)
  show "hoare (\<lambda>tr. conf (Suc (if lay then 3 else 2)) er tr \<and> (er = GRALLOC1_ERROR_NONE \<longrightarrow> one))
      (if er = GRALLOC1_ERROR_NONE
       then call_setConsumerUsage env dd (toConsumerUsage (env_abi env) (bd_usage info)) else return er)
      (\<lambda>e tr. conf (Suc (Suc (if lay then 3 else 2))) e tr \<and> (e = GRALLOC1_ERROR_NONE \<longrightarrow> one))"
    unfolding runs conf_def using dev
    by (intro configuring_call) (auto simp: configuration_def lay_def one_def)
qed

lemma createDescriptor_calls:
  assumes "not_shared_only_from_allocate (env_dev env)"
    and "dev_createDescriptor (env_dev env) tr = (GRALLOC1_ERROR_NONE, x)"
    and "run_state (createDescriptor env hal info out) tr = ((e, d), tr')"
  shows "\<exists>dd calls. (e = NONE \<and> d = dd \<and> configured (env_abi env) hal info dd calls \<and>
        tr' = tr @ CreateDescriptor GRALLOC1_ERROR_NONE dd # calls) \<or>
      (\<exists>err. e = toError err \<and> e \<noteq> NONE \<and> not_configured (env_abi env) hal info dd err calls \<and>
        tr' = tr @ CreateDescriptor GRALLOC1_ERROR_NONE dd # calls @ [DestroyDescriptor dd])"
proof -
  define dd where "dd = (case x of None \<Rightarrow> loc_descriptor (env_locals env) | Some d \<Rightarrow> d)"
  define tr0 where "tr0 = tr @ [CreateDescriptor GRALLOC1_ERROR_NONE dd]"
  let ?conf = "configuring (env_abi env) hal info dd tr0" and ?lay = "mCapabilities_layeredBuffers hal"
  let ?one = "?lay \<or> bd_layerCount info \<le> 1"
  have fin: "hoare (\<lambda>tr. ?conf (Suc (Suc (if ?lay then 3 else 2))) er tr \<and> (er = GRALLOC1_ERROR_NONE \<longrightarrow> ?one))
      (if er = GRALLOC1_ERROR_NONE then return (toError er, dd)
       else do { call_destroyDescriptor dd; return (toError er, out) })
      (\<lambda>(e, d) tr'. \<exists>calls. (e = NONE \<and> d = dd \<and> configured (env_abi env) hal info dd calls \<and>
          tr' = tr0 @ calls) \<or>
        (\<exists>err. e = toError err \<and> e \<noteq> NONE \<and> not_configured (env_abi env) hal info dd err calls \<and>
          tr' = tr0 @ calls @ [DestroyDescriptor dd]))" for er
    by (auto simp: hoare_def configuring_def configured_def configuration_def toError_NONE_iff
        call_destroyDescriptor_def)
  have create: "hoare (\<lambda>s. s = tr) (call_createDescriptor env (loc_descriptor (env_locals env)))
      (\<lambda>(er, d) s. d = dd \<and> ?conf 0 er s)"
    using assms(2) by (auto simp: hoare_def call_createDescriptor_def dd_def tr0_def configuring_def)
  have "hoare (\<lambda>s. s = tr) (createDescriptor env hal info out)
      (\<lambda>(e, d) tr'. \<exists>calls. (e = NONE \<and> d = dd \<and> configured (env_abi env) hal info dd calls \<and>
          tr' = tr0 @ calls) \<or>
        (\<exists>err. e = toError err \<and> e \<noteq> NONE \<and> not_configured (env_abi env) hal info dd err calls \<and>
          tr' = tr0 @ calls @ [DestroyDescriptor dd]))"
    unfolding createDescriptor_def
  proof (rule hoare_bind [OF create], goal_cases)
    case (1 x)
    obtain er d where x: "x = (er, d)" by (rule prod.exhaust)
    show ?case
    proof (cases "d = dd")
      case True
      show ?thesis
        unfolding x prod.case True simp_thms
        by (rule hoare_bind [OF configuring_dimensions [OF assms(1)]], rule hoare_bind [OF configuring_format [OF assms(1)]],
            rule hoare_bind [OF configuring_layers [OF assms(1)]], rule hoare_bind [OF configuring_producer [OF assms(1)]],
            rule hoare_bind [OF configuring_consumer [OF assms(1)]], rule fin)
    next
      case False
      with x show ?thesis by (simp add: hoare_def)
    qed
  qed
  from hoareD [OF this refl assms(3)] show ?thesis unfolding tr0_def by auto
qed

lemma allocateOneBuffer_from: "emits (allocates_from d) (allocateOneBuffer env d out)"
  unfolding allocateOneBuffer_def call_allocate_def
  by (auto intro!: emits_rules split: prod.split)

section \<open>The property\<close>

text \<open>C16: Descriptors in the gralloc1 back end. An undecodable request touches no descriptor. Otherwise, when the device hands out a descriptor, \<open>allocateBuffers\<close> configures exactly that one, with all fields of the request in order; if a call fails, or more than one layer is asked for without the capability, it stops there, destroys the descriptor, allocates nothing and returns that error. A configured descriptor is used for the allocations only, destroyed once after the last of them, and followed by nothing but the releases of a failed request. Either way the live descriptors are what they were.\<close>

theorem gralloc1_descriptor_lifecycle:
  assumes "not_shared_only_from_allocate (env_dev env)"
    and "fst (dev_createDescriptor (env_dev env) tr) = GRALLOC1_ERROR_NONE"
    and "live_descs tr = Some M" and "run_state (allocateBuffers env hal d n) tr = (r, tr')"
  shows "live_descs tr' = Some M \<and>
    (case env_decode env d of
       None \<Rightarrow> r = Inl BAD_DESCRIPTOR \<and> tr' = tr
     | Some info \<Rightarrow>
         (\<exists>dd calls err. not_configured (env_abi env) hal info dd err calls \<and> r = Inl (toError err) \<and>
            tr' = tr @ CreateDescriptor GRALLOC1_ERROR_NONE dd # calls @ [DestroyDescriptor dd]) \<or>
         (\<exists>dd calls uses frees. configured (env_abi env) hal info dd calls \<and>
            tr' = tr @ CreateDescriptor GRALLOC1_ERROR_NONE dd # calls @ uses @ DestroyDescriptor dd # frees \<and>
            list_all (allocates_from dd) uses \<and> list_all is_release frees \<and>
            (isl r \<or> frees = [])))"
proof -
  have live: "live_descs tr' = Some M" by (rule allocateBuffers_descs [OF assms(1,2,4,3)])
  obtain x where dev: "dev_createDescriptor (env_dev env) tr = (GRALLOC1_ERROR_NONE, x)"
    using assms(2) by (cases "dev_createDescriptor (env_dev env) tr") auto
  have uses: "extends_by (allocates_from dd) tr1 tr2"
    if "run_state (allocLoop (\<lambda>i. allocateOneBuffer env dd (out i)) k i s bs) tr1 = (y, tr2)"
    for dd out k i s bs tr1 y tr2
    using that by (rule emits_run [rotated]) (rule emits_allocLoop, rule allocateOneBuffer_from)
  have frees: "extends_by is_release tr1 tr2" if "run_state (freeBuffers env bs) tr1 = (y, tr2)" for bs tr1 y tr2
    using that by (rule emits_run [rotated]) (rule emits_freeBuffers, simp)
  show ?thesis
    using assms(4)
  proof (cases rule: allocateBuffers_cases)
    case undecodable
    with live show ?thesis by simp
  next
    case (no_descriptor info e desc)
    with createDescriptor_calls [OF assms(1) dev no_descriptor(4)] live show ?thesis by auto
  next
    case (failed info desc tr1 e stride bs tr2)
    obtain calls where "configured (env_abi env) hal info desc calls"
      "tr1 = tr @ CreateDescriptor GRALLOC1_ERROR_NONE desc # calls"
      using createDescriptor_calls [OF assms(1) dev failed(2)] by auto
    with uses [OF failed(3)] frees [OF failed(6)] failed(1,4,5) live show ?thesis
      by (auto simp: extends_by_def)
  next
    case (allocated info desc tr1 stride bs tr2)
    obtain calls where "configured (env_abi env) hal info desc calls"
      "tr1 = tr @ CreateDescriptor GRALLOC1_ERROR_NONE desc # calls"
      using createDescriptor_calls [OF assms(1) dev allocated(2)] by auto
    with uses [OF allocated(3)] allocated(1,4,5) live show ?thesis
      by (auto simp: extends_by_def)
  qed
qed

theorem gralloc1_descriptor_lifecycle_witness:
  "live_descs (snd (run_state (allocateBuffers sample_env sample_hal [1] 2) [])) = Some {#} \<and>
   (\<exists>dd. SetFormat dd 1 GRALLOC1_ERROR_NONE \<in> set (snd (run_state (allocateBuffers sample_env sample_hal [1] 2) [])))"
proof -
  let ?info = "\<lparr>bd_width = 64, bd_height = 32, bd_layerCount = 1, bd_format = 1, bd_usage = 0x133\<rparr> :: BufferDescriptorInfo"
  obtain tr' where run: "run_state (allocateBuffers sample_env sample_hal [1] 2) [] = (Inr (64, [106, 108]), tr')"
    using sample_run by (metis prod.collapse)
  have info: "env_decode sample_env [1] = Some ?info" by (simp add: sample_env_def)
  from gralloc1_descriptor_lifecycle [OF sample_documented(1) sample_create, of "[]" "{#}" sample_hal "[1]" 2] run info
  have "live_descs tr' = Some {#}" and "\<exists>dd calls. configured (env_abi sample_env) sample_hal ?info dd calls \<and> set calls \<subseteq> set tr'"
    by (simp_all, force)
  then show ?thesis using run by (auto simp: configured_def configuration_def)
qed

end
