(* ===== verification/Health_World.thy ===== *)
theory Health_World
  imports Prelude
begin

text \<open>
  The data of the health service (health/) and its boundary: the data types of Health.h, the global
  variables of healthd_common.cpp, HealthServiceCommon.cpp and Health.cpp gathered in one record
  \<open>health_state\<close>, and the calls to the kernel, to libhealthd and to the HIDL runtime. Each of these
  answers through a function of \<open>health_env\<close>, applied to everything that was called before.
  Function pointers the code stores (epoll's \<open>data.ptr\<close>) are the constructors of \<open>handler\<close>;
  \<open>run_handler\<close> in Healthd_Main calls them.
\<close>

section \<open>Data types of the health HAL\<close>

datatype Result = SUCCESS | NOT_SUPPORTED | UNKNOWN | NOT_FOUND

datatype BatteryStatus = BatteryStatus_FULL | BatteryStatus_other nat

datatype BatteryHealth = BatteryHealth_GOOD | BatteryHealth_other nat

text \<open>Storage and disk statistics are declared outside the repository and never read by it.\<close>

typedecl StorageInfo
typedecl DiskStats

record HealthInfo_1_0 =
  chargerAcOnline :: bool
  chargerUsbOnline :: bool
  chargerWirelessOnline :: bool
  maxChargingCurrent :: i32
  maxChargingVoltage :: i32
  batteryPresent :: bool
  batteryLevel :: i32
  batteryVoltage :: i32
  batteryTemperature :: i32
  batteryCurrent :: i32
  batteryCycleCount :: i32
  batteryFullCharge :: i32
  batteryChargeCounter :: i32
  batteryStatus :: BatteryStatus
  batteryHealth :: BatteryHealth
  batteryTechnology :: string

record HealthInfo =
  legacy :: HealthInfo_1_0
  batteryCurrentAverage :: i32
  diskStats :: "DiskStats list"
  storageInfos :: "StorageInfo list"

type_synonym health_callback = nat   \<comment> \<open>a non-null \<open>sp<IHealthInfoCallback>\<close>\<close>

text \<open>How a transaction to a client ended: \<open>Return<void>\<close>.\<close>

datatype transaction = Tx_ok | Tx_failed | Tx_dead

definition isOk :: "transaction \<Rightarrow> bool" where
  "isOk r \<longleftrightarrow> r = Tx_ok"

definition isDeadObject :: "transaction \<Rightarrow> bool" where
  "isDeadObject r \<longleftrightarrow> r = Tx_dead"

section \<open>Configuration and handlers\<close>

record healthd_config =
  periodic_chores_interval_fast :: int
  periodic_chores_interval_slow :: int
  battery_paths :: "string list"
  boot_min_cap :: int

definition DEFAULT_PERIODIC_CHORES_INTERVAL_FAST :: int where
  "DEFAULT_PERIODIC_CHORES_INTERVAL_FAST = 60 * 1"

definition DEFAULT_PERIODIC_CHORES_INTERVAL_SLOW :: int where
  "DEFAULT_PERIODIC_CHORES_INTERVAL_SLOW = 60 * 10"

declare DEFAULT_PERIODIC_CHORES_INTERVAL_FAST_def [simp] DEFAULT_PERIODIC_CHORES_INTERVAL_SLOW_def [simp]

definition initial_config :: healthd_config where
  "initial_config =
     \<lparr>periodic_chores_interval_fast = DEFAULT_PERIODIC_CHORES_INTERVAL_FAST,
      periodic_chores_interval_slow = DEFAULT_PERIODIC_CHORES_INTERVAL_SLOW,
      battery_paths = replicate 12 [], boot_min_cap = 0\<rparr>"

datatype handler = Uevent_event | Wakealarm_event | Binder_event

datatype wakeup = EVENT_NO_WAKEUP_FD | EVENT_WAKEUP_FD

text \<open>The ends of the process: \<open>exit(n)\<close>, a failed \<open>CHECK\<close>, or a read outside an array.\<close>

datatype stop = Exit int | Abort | Out_of_bounds

section \<open>Calls and their answers\<close>

datatype health_request =
    RegisterCallback "health_callback option"
  | UnregisterCallback "health_callback option"
  | Update
  | GetChargeCounter | GetCurrentNow | GetCurrentAverage | GetCapacity | GetEnergyCounter
  | GetChargeStatus
  | GetStorageInfo | GetDiskStats | GetHealthInfo
  | Debug "int list option"
  | ServiceDied "health_callback option"

datatype health_reply =
    ReplyResult Result
  | ReplyInt Result int
  | ReplyStatus Result BatteryStatus
  | ReplyStorage Result "StorageInfo list"
  | ReplyDisk Result "DiskStats list"
  | ReplyHealthInfo Result HealthInfo
  | ReplyVoid

datatype wait_result = WaitError bool   \<comment> \<open>-1; whether \<open>errno\<close> is \<open>EINTR\<close>\<close>
  | WaitEvents "(handler option \<times> u32) list"

datatype health_event =
    EpollCreate int
  | EpollAdd int int handler wakeup bool   \<comment> \<open>epoll descriptor, descriptor; true: registered\<close>
  | EpollWait int int int int wait_result   \<comment> \<open>epoll descriptor, array size, maxevents, timeout\<close>
  | TimerCreate int
  | TimerSetInterval int int bool
  | TimerRead int bool
  | UeventOpen int
  | SetNonblock int
  | UeventRecv int int
  | SetupTransportPolling int
  | HandleTransportPoll int "health_request list"
  | RegisterAsService string bool
  | MonitorInit
  | MonitorGetCurrentAvg bool u64
  | MonitorDump int
  | LinkToDeath health_callback
  | UnlinkToDeath health_callback
  | HealthInfoChanged health_callback HealthInfo transaction
  | WriteString int string
  | Fsync int
  | Answer health_reply

type_synonym health_trace = "health_event list"

record health_env =
  env_epoll_create :: "health_trace \<Rightarrow> int"
  env_epoll_ctl :: "health_trace \<Rightarrow> int \<Rightarrow> bool"
  env_epoll_wait :: "health_trace \<Rightarrow> int \<Rightarrow> int \<Rightarrow> wait_result"
  env_timerfd_create :: "health_trace \<Rightarrow> int"
  env_timerfd_settime :: "health_trace \<Rightarrow> int \<Rightarrow> bool"
  env_timer_read :: "health_trace \<Rightarrow> bool"
  env_uevent_open :: "health_trace \<Rightarrow> int"
  env_uevent_recv :: "health_trace \<Rightarrow> int \<times> string"
  env_msg_garbage :: "nat \<Rightarrow> char"
  env_setup_polling :: "health_trace \<Rightarrow> int"
  env_transport_poll :: "health_trace \<Rightarrow> health_request list"
  env_register_service :: "health_trace \<Rightarrow> bool"
  env_monitor_init :: "healthd_config \<Rightarrow> healthd_config"
  env_monitor_current_avg :: "health_trace \<Rightarrow> bool \<times> u64"
  env_health_info_changed :: "health_trace \<Rightarrow> health_callback \<Rightarrow> transaction"
  env_interfacesEqual :: "health_callback \<Rightarrow> health_callback \<Rightarrow> bool"
  env_toString :: "HealthInfo \<Rightarrow> string"
  env_toString_result :: "Result \<Rightarrow> string"

section \<open>Global state\<close>

record health_state =
  healthd_config :: healthd_config
  eventct :: int
  epollfd :: int
  uevent_fd :: int
  wakealarm_fd :: int
  awake_poll_interval :: int
  wakealarm_wake_interval :: int
  gBinderFd :: int
  gInstanceName :: string
  hal_instance :: bool   \<comment> \<open>not null\<close>
  callbacks :: "health_callback list"
  history :: health_trace

definition initial_state :: health_state where
  "initial_state =
     \<lparr>healthd_config = initial_config, eventct = 0, epollfd = 0, uevent_fd = 0, wakealarm_fd = 0,
      awake_poll_interval = -1, wakealarm_wake_interval = DEFAULT_PERIODIC_CHORES_INTERVAL_FAST,
      gBinderFd = -1, gInstanceName = [], hal_instance = False, callbacks = [], history = []\<rparr>"

type_synonym 'a health = "(health_state, 'a) state"

definition hcall :: "(health_trace \<Rightarrow> 'r) \<Rightarrow> ('r \<Rightarrow> health_event) \<Rightarrow> 'r health" where
  "hcall reply ev =
     State (\<lambda>s. (reply (history s), s\<lparr>history := history s @ [ev (reply (history s))]\<rparr>))"

text \<open>The table of a healthd mode. The pointers to it and to \<open>battery_update\<close> may be null; the
  latter takes the battery properties, which the service ignores.\<close>

record healthd_mode_ops =
  op_init :: "(stop + unit) health"
  op_preparetowait :: "int health"
  op_heartbeat :: "unit health"
  op_battery_update :: "(stop + unit) health option"

section \<open>Documented behaviour of the environment\<close>

text \<open>\<open>recv\<close> writes no more than the 2048 bytes it is told there is room for, and returns how many.\<close>

definition recv_documented :: "health_env \<Rightarrow> bool" where
  "recv_documented env \<longleftrightarrow>
     (\<forall>tr. length (snd (env_uevent_recv env tr)) \<le> 2048 \<and>
           (0 < fst (env_uevent_recv env tr) \<longrightarrow>
            length (snd (env_uevent_recv env tr)) = nat (fst (env_uevent_recv env tr))))"

section \<open>What the calls mean\<close>

text \<open>epoll: descriptors are added to, and waited on at, the descriptor created last, and the kernel is
  told the true size of the array it fills, one entry per registered descriptor. The monitor's state is
  the descriptor (-1: none) and the number of registrations.\<close>

fun epoll_step :: "health_event \<Rightarrow> int \<times> int \<Rightarrow> (int \<times> int) option" where
  "epoll_step (EpollCreate fd) _ = Some (fd, 0)"
| "epoll_step (EpollAdd epfd _ _ _ ok) (e, n) =
     (if epfd = e \<and> e \<noteq> -1 then Some (e, if ok then n + 1 else n) else None)"
| "epoll_step (EpollWait epfd entries maxevents _ _) (e, n) =
     (if epfd = e \<and> e \<noteq> -1 \<and> entries = n \<and> maxevents = n then Some (e, n) else None)"
| "epoll_step _ m = Some m"

abbreviation epoll_use :: "health_trace \<Rightarrow> (int \<times> int) option" where
  "epoll_use \<equiv> monitor epoll_step (-1, 0)"

text \<open>The calls a handler makes: it neither creates nor arms nor registers anything, waits for
  nothing and notifies no listener.\<close>

fun quiet :: "health_event \<Rightarrow> bool" where
  "quiet (TimerRead _ _) = True"
| "quiet (UeventRecv _ _) = True"
| "quiet (HandleTransportPoll _ _) = True"
| "quiet (MonitorGetCurrentAvg _ _) = True"
| "quiet (MonitorDump _) = True"
| "quiet (LinkToDeath _) = True"
| "quiet (UnlinkToDeath _) = True"
| "quiet (WriteString _ _) = True"
| "quiet (Fsync _) = True"
| "quiet (Answer _) = True"
| "quiet _ = False"

definition record_event :: "health_event \<Rightarrow> health_state \<Rightarrow> health_state" where
  "record_event e s = s\<lparr>history := history s @ [e]\<rparr>"

section \<open>Lemmas\<close>

lemma quiet_epoll: "quiet e \<Longrightarrow> epoll_step e m = Some m"
  by (cases e; cases m) auto

lemma run_state_hcall [simp]:
  "run_state (hcall reply ev) s =
     (reply (history s), s\<lparr>history := history s @ [ev (reply (history s))]\<rparr>)"
  by (simp add: hcall_def)

lemma keeps_hcall [keeps_rules]:
  "(\<And>s r. I s \<Longrightarrow> r = reply (history s) \<Longrightarrow> I (record_event (ev r) s)) \<Longrightarrow> keeps I (hcall reply ev)"
  by (simp add: keeps_def hoare_def record_event_def)

end
