(* ===== verification/Uevent_Scan.thy ===== *)
theory Uevent_Scan
  imports Health_World
begin

text \<open>
  The message scan of \<open>uevent_event\<close> in healthd_common.cpp, on the buffer itself: \<open>char* cp\<close> is an
  index into \<open>msg\<close>, and a read outside the array is \<open>None\<close>. \<open>uevent_strings\<close> is the specification:
  the NUL-terminated strings of the message up to the first empty one.
\<close>

section \<open>Definitions\<close>

definition UEVENT_MSG_LEN :: nat where
  "UEVENT_MSG_LEN = 2048"

definition POWER_SUPPLY_STRING :: string where
  "POWER_SUPPLY_STRING = ''SUBSYSTEM='' @ ''power_supply''"

text \<open>\<open>!strcmp(cp, lit)\<close>: compare up to the first difference or the terminating NUL.\<close>

fun strcmp_eq :: "string \<Rightarrow> nat \<Rightarrow> string \<Rightarrow> bool option" where
  "strcmp_eq msg cp [] = (if cp < length msg then Some (msg ! cp = NUL) else None)"
| "strcmp_eq msg cp (c # lit) =
     (if cp < length msg
      then if msg ! cp = c then strcmp_eq msg (Suc cp) lit else Some False
      else None)"

text \<open>\<open>while (*cp++);\<close>: the index after the next NUL.\<close>

function skip_string :: "string \<Rightarrow> nat \<Rightarrow> nat option" where
  "skip_string msg cp =
     (if cp < length msg
      then if msg ! cp = NUL then Some (Suc cp) else skip_string msg (Suc cp)
      else None)"
  by pat_completeness auto
termination by (relation "measure (\<lambda>(msg, cp). length msg - cp)") auto

declare skip_string.simps [simp del]

lemma skip_string_bounds: "skip_string msg cp = Some cp' \<Longrightarrow> cp < cp' \<and> cp' \<le> length msg"
proof (induction msg cp rule: skip_string.induct)
  case (1 msg cp)
  from 1(2) show ?case
    by (subst (asm) skip_string.simps) (auto split: if_splits dest: 1(1))
qed

text \<open>The loop: is there a string that names the power supply subsystem?\<close>

function scan_msg :: "string \<Rightarrow> nat \<Rightarrow> bool option" where
  "scan_msg msg cp =
     (if cp < length msg
      then if msg ! cp = NUL then Some False
           else (case strcmp_eq msg cp POWER_SUPPLY_STRING of
                   None \<Rightarrow> None
                 | Some True \<Rightarrow> Some True
                 | Some False \<Rightarrow>
                     (case skip_string msg cp of
                        None \<Rightarrow> None
                      | Some cp' \<Rightarrow> scan_msg msg cp'))
      else None)"
  by pat_completeness auto
termination
proof (relation "measure (\<lambda>(msg, cp). length msg - cp)")
  fix msg :: string and cp cp'
  assume "cp < length msg" "skip_string msg cp = Some cp'"
  with skip_string_bounds [of msg cp cp']
  show "((msg, cp'), (msg, cp)) \<in> measure (\<lambda>(msg, cp). length msg - cp)" by auto
qed simp

declare scan_msg.simps [simp del]

text \<open>The array \<open>msg\<close> after \<open>n\<close> bytes were received and the two NULs written behind them.\<close>

definition uevent_buffer :: "(nat \<Rightarrow> char) \<Rightarrow> string \<Rightarrow> nat \<Rightarrow> string" where
  "uevent_buffer garbage received n =
     (overwrite (map garbage [0..<UEVENT_MSG_LEN + 2]) received)[n := NUL, n + 1 := NUL]"

text \<open>Specification.\<close>

function uevent_strings :: "string \<Rightarrow> string list" where
  "uevent_strings bs =
     (let s = c_str bs in if s = [] then [] else s # uevent_strings (drop (Suc (length s)) bs))"
  by pat_completeness auto
termination
proof (relation "measure length")
  fix bs s :: string
  assume "s = c_str bs" "s \<noteq> []"
  then have "0 < length s" and "length s \<le> length bs" by (simp_all add: length_c_str)
  then show "(drop (Suc (length s)) bs, bs) \<in> measure length"
    by (cases bs) auto
qed simp

declare uevent_strings.simps [simp del]

text \<open>How the kernel lays out a message: every string followed by a NUL.\<close>

definition uevent_message :: "string list \<Rightarrow> string" where
  "uevent_message ss = concat (map (\<lambda>s. s @ [NUL]) ss)"

section \<open>Lemmas\<close>

lemma c_str_split: "NUL \<in> set bs \<Longrightarrow> \<exists>rest. bs = c_str bs @ NUL # rest"
  by (induction bs) (auto simp: c_str_def)

lemma c_str_append_NUL: "NUL \<notin> set s \<Longrightarrow> c_str (s @ NUL # rest) = s"
  by (induction s) (auto simp: c_str_def)

lemma strcmp_eq_correct:
  assumes "NUL \<notin> set lit" and "NUL \<in> set (drop cp msg)"
  shows "strcmp_eq msg cp lit = Some (c_str (drop cp msg) = lit)"
  using assms
proof (induction lit arbitrary: cp)
  case Nil
  then have "cp < length msg" by (cases "cp < length msg") auto
  then show ?case by (simp add: Cons_nth_drop_Suc [symmetric] c_str_def)
next
  case (Cons c lit)
  then have cp: "cp < length msg" by (cases "cp < length msg") auto
  then have split: "drop cp msg = msg ! cp # drop (Suc cp) msg" by (simp add: Cons_nth_drop_Suc)
  show ?case
  proof (cases "msg ! cp = c")
    case True
    with Cons.prems split have "NUL \<in> set (drop (Suc cp) msg)" by auto
    from Cons.IH [OF _ this] Cons.prems(1) True cp show ?thesis
      by (auto simp: split c_str_def)
  next
    case False
    with Cons.prems(1) cp show ?thesis by (auto simp: split c_str_def)
  qed
qed

lemma skip_string_correct:
  assumes "NUL \<in> set (drop cp msg)"
  shows "skip_string msg cp = Some (Suc (cp + length (c_str (drop cp msg))))"
  using assms
proof (induction msg cp rule: skip_string.induct)
  case (1 msg cp)
  then have cp: "cp < length msg" by (cases "cp < length msg") auto
  then have split: "drop cp msg = msg ! cp # drop (Suc cp) msg" by (simp add: Cons_nth_drop_Suc)
  show ?case
  proof (cases "msg ! cp = NUL")
    case True
    with cp show ?thesis by (subst skip_string.simps) (simp add: split c_str_def)
  next
    case False
    with 1(2) split have "NUL \<in> set (drop (Suc cp) msg)" by auto
    from 1(1) [OF cp False this] cp False show ?thesis
      by (subst skip_string.simps) (simp add: split c_str_def)
  qed
qed

text \<open>On a buffer that ends in two NULs the scan stays inside and decides membership.\<close>

lemma power_supply_string: "POWER_SUPPLY_STRING \<noteq> []" "NUL \<notin> set POWER_SUPPLY_STRING"
  by (simp_all add: POWER_SUPPLY_STRING_def NUL_def)

lemma scan_msg_correct:
  assumes "drop cp msg = payload @ NUL # NUL # rest"
  shows "scan_msg msg cp = Some (POWER_SUPPLY_STRING \<in> set (uevent_strings payload))"
  using assms
proof (induction payload arbitrary: cp rule: uevent_strings.induct)
  case (1 payload)
  let ?s = "c_str payload"
  have cp: "cp < length msg" using 1(2) by (cases "cp < length msg") auto
  have nul: "NUL \<in> set (drop cp msg)" using 1(2) by simp
  have head: "msg ! cp = hd (payload @ [NUL])"
    using 1(2) cp by (metis append_Nil hd_append hd_drop_conv_nth list.sel(1) append_is_Nil_conv list.distinct(1))
  have str: "c_str (drop cp msg) = ?s"
    using 1(2) by (cases "NUL \<in> set payload") (auto simp: c_str_def takeWhile_tail takeWhile_append2)
  show ?case
  proof (cases "?s = []")
    case True
    then have "msg ! cp = NUL" using head by (cases payload) (auto simp: c_str_def split: if_splits)
    with True cp show ?thesis by (simp add: scan_msg.simps uevent_strings.simps)
  next
    case False
    then have "msg ! cp \<noteq> NUL" using head by (cases payload) (auto simp: c_str_def split: if_splits)
    moreover have "scan_msg msg (Suc (cp + length ?s)) =
        Some (POWER_SUPPLY_STRING \<in> set (uevent_strings (drop (Suc (length ?s)) payload)))"
    proof (cases "NUL \<in> set payload")
      case True
      then obtain more where "payload = ?s @ NUL # more" using c_str_split by blast
      then have len: "Suc (length ?s) \<le> length payload" by (metis length_append length_Cons le_add1 add_Suc_right Suc_le_mono)
      have "drop (Suc (cp + length ?s)) msg = drop (Suc (length ?s)) (drop cp msg)"
        by (simp add: add.commute)
      also have "\<dots> = drop (Suc (length ?s)) payload @ NUL # NUL # rest"
        using 1(2) len by simp
      finally show ?thesis by (rule 1(1) [OF refl False])
    next
      case no: False
      then have s: "?s = payload" by (auto simp: c_str_def)
      have "drop (Suc (cp + length ?s)) msg = drop (Suc (length ?s)) (drop cp msg)"
        by (simp add: add.commute)
      then have "drop (Suc (cp + length ?s)) msg = NUL # rest" using 1(2) s by simp
      then have "Suc (cp + length ?s) < length msg" "msg ! Suc (cp + length ?s) = NUL"
        by (metis drop_all leI list.distinct(1), metis drop_all hd_drop_conv_nth leI list.distinct(1) list.sel(1))
      then have "scan_msg msg (Suc (cp + length ?s)) = Some False" by (simp add: scan_msg.simps)
      moreover have "drop (Suc (length ?s)) payload = []" using s by simp
      moreover have "uevent_strings [] = []" by (simp add: uevent_strings.simps c_str_def)
      ultimately show ?thesis by simp
    qed
    ultimately show ?thesis
      using False cp str power_supply_string strcmp_eq_correct [OF power_supply_string(2) nul]
        skip_string_correct [OF nul]
      by (cases "?s = POWER_SUPPLY_STRING")
         (auto simp: scan_msg.simps [of msg cp] uevent_strings.simps [of payload] Let_def)
  qed
qed

lemma uevent_buffer_split:
  assumes "n < UEVENT_MSG_LEN" "length received = n"
  shows "\<exists>rest. uevent_buffer garbage received n = received @ NUL # NUL # rest"
proof -
  let ?g = "drop n (map garbage [0..<UEVENT_MSG_LEN + 2])"
  have "2 \<le> length ?g" using assms by simp
  then obtain a b rest where g: "?g = a # b # rest" by (cases ?g; cases "tl ?g") auto
  have "uevent_buffer garbage received n = (received @ ?g)[n := NUL, n + 1 := NUL]"
    using assms by (simp add: uevent_buffer_def overwrite_def del: drop_map)
  also have "\<dots> = received @ NUL # NUL # rest"
    using assms unfolding g by (simp add: list_update_append)
  finally show ?thesis by blast
qed

lemma uevent_strings_message:
  assumes "\<forall>s\<in>set ss. s \<noteq> [] \<and> NUL \<notin> set s"
  shows "uevent_strings (uevent_message ss) = ss"
  using assms
proof (induction ss)
  case Nil
  show ?case by (simp add: uevent_message_def uevent_strings.simps c_str_def)
next
  case (Cons s ss)
  then have s: "c_str (s @ NUL # uevent_message ss) = s" "s \<noteq> []" by (simp_all add: c_str_append_NUL)
  have "uevent_message (s # ss) = s @ NUL # uevent_message ss" by (simp add: uevent_message_def)
  with s Cons show ?case by (simp add: uevent_strings.simps [of "s @ _"])
qed

end
