(* ===== verification/Health_Service.thy ===== *)
theory Health_Service
  imports Uevent_Scan
begin

text \<open>
  Health.cpp, the health HAL object, with the parts of healthd_common.cpp it rests on
  (\<open>healthd_register_event\<close>, \<open>wakealarm_set_interval\<close>, \<open>healthd_battery_update_internal\<close>) and the
  stubs of HealthServiceCommon.cpp it calls. A HIDL callback \<open>_hidl_cb\<close> is the action it is given.
\<close>

section \<open>Registration and intervals (healthd_common.cpp)\<close>

definition healthd_register_event :: "health_env \<Rightarrow> int \<Rightarrow> handler \<Rightarrow> wakeup \<Rightarrow> int health" where
  "healthd_register_event env fd handler wakeup =
     do {
       epfd \<leftarrow> gets epollfd;
       ok \<leftarrow> hcall (\<lambda>tr. env_epoll_ctl env tr fd) (EpollAdd epfd fd handler wakeup);
       if \<not> ok then return (-1)
       else do {
         modify (\<lambda>s. s\<lparr>eventct := eventct s + 1\<rparr>);
         return 0
       }
     }"

definition wakealarm_set_interval :: "health_env \<Rightarrow> int \<Rightarrow> unit health" where
  "wakealarm_set_interval env interval =
     do {
       fd \<leftarrow> gets wakealarm_fd;
       if fd = -1 then return ()
       else do {
         modify (\<lambda>s. s\<lparr>wakealarm_wake_interval := interval\<rparr>);
         interval \<leftarrow> return (if interval = -1 then 0 else interval);
         _ \<leftarrow> hcall (\<lambda>tr. env_timerfd_settime env tr interval) (TimerSetInterval fd interval);
         return ()
       }
     }"

definition healthd_battery_update_internal :: "health_env \<Rightarrow> bool \<Rightarrow> unit health" where
  "healthd_battery_update_internal env charger_online =
     do {
       fast \<leftarrow> gets (\<lambda>s. periodic_chores_interval_fast (healthd_config s));
       slow \<leftarrow> gets (\<lambda>s. periodic_chores_interval_slow (healthd_config s));
       new_wake_interval \<leftarrow> return (if charger_online then fast else slow);
       wake_interval \<leftarrow> gets wakealarm_wake_interval;
       (if new_wake_interval \<noteq> wake_interval then wakealarm_set_interval env new_wake_interval
        else return ());
       if fast = -1 then modify (\<lambda>s. s\<lparr>awake_poll_interval := -1\<rparr>)
       else modify (\<lambda>s. s\<lparr>awake_poll_interval :=
              (if new_wake_interval = fast then -1 else fast * 1000)\<rparr>)
     }"

section \<open>Callbacks and update\<close>

text \<open>The loop of \<open>unregisterCallbackInternal\<close>: the callbacks kept, and whether one was erased.\<close>

fun unregister_loop ::
  "(health_callback \<Rightarrow> bool) \<Rightarrow> health_callback list \<Rightarrow> bool \<Rightarrow> health_callback list \<times> bool" where
  "unregister_loop same [] removed = ([], removed)"
| "unregister_loop same (it # rest) removed =
     (if same it then unregister_loop same rest True
      else (let (kept, r) = unregister_loop same rest removed in (it # kept, r)))"

definition update :: "health_env \<Rightarrow> healthd_mode_ops option \<Rightarrow> Result health" where
  "update env ops =
     (if (case ops of None \<Rightarrow> True | Some ops \<Rightarrow> Option.is_none (op_battery_update ops))
      then return UNKNOWN
      else do {
        healthd_battery_update_internal env True;
        return SUCCESS
      })"

definition registerCallback ::
  "health_env \<Rightarrow> healthd_mode_ops option \<Rightarrow> health_callback option \<Rightarrow> Result health" where
  "registerCallback env ops callback =
     (case callback of
        None \<Rightarrow> return SUCCESS
      | Some cb \<Rightarrow>
          do {
            modify (\<lambda>s. s\<lparr>callbacks := callbacks s @ [cb]\<rparr>);
            hcall (\<lambda>_. ()) (\<lambda>_. LinkToDeath cb);
            update env ops
          })"

definition unregisterCallbackInternal ::
  "health_env \<Rightarrow> health_callback option \<Rightarrow> bool health" where
  "unregisterCallbackInternal env callback =
     (case callback of
        None \<Rightarrow> return False
      | Some cb \<Rightarrow>
          do {
            cbs \<leftarrow> gets callbacks;
            (kept, removed) \<leftarrow> return (unregister_loop (\<lambda>it. env_interfacesEqual env it cb) cbs False);
            modify (\<lambda>s. s\<lparr>callbacks := kept\<rparr>);
            hcall (\<lambda>_. ()) (\<lambda>_. UnlinkToDeath cb);
            return removed
          })"

definition unregisterCallback :: "health_env \<Rightarrow> health_callback option \<Rightarrow> Result health" where
  "unregisterCallback env callback =
     do {
       removed \<leftarrow> unregisterCallbackInternal env callback;
       return (if removed then SUCCESS else NOT_FOUND)
     }"

definition serviceDied :: "health_env \<Rightarrow> health_callback option \<Rightarrow> unit health" where
  "serviceDied env who =
     do {
       _ \<leftarrow> unregisterCallbackInternal env who;
       return ()
     }"

section \<open>Properties of the battery\<close>

definition getProperty :: "'t \<Rightarrow> (Result \<Rightarrow> 't \<Rightarrow> unit health) \<Rightarrow> unit health" where
  "getProperty defaultValue callback =
     (let ret = defaultValue; result = SUCCESS in callback result ret)"

definition kBatteryPropChargeCounter :: int where "kBatteryPropChargeCounter = 1"
definition kBatteryPropCurrentNow :: int where "kBatteryPropCurrentNow = 1"
definition kBatteryPropCurrentAvg :: int where "kBatteryPropCurrentAvg = 1"
definition kBatteryPropCapacity :: int where "kBatteryPropCapacity = 1"
definition kBatteryPropEnergyCounter :: int where "kBatteryPropEnergyCounter = 1"

definition getChargeCounter :: "(Result \<Rightarrow> int \<Rightarrow> unit health) \<Rightarrow> unit health" where
  "getChargeCounter cb = getProperty kBatteryPropChargeCounter cb"

definition getCurrentNow :: "(Result \<Rightarrow> int \<Rightarrow> unit health) \<Rightarrow> unit health" where
  "getCurrentNow cb = getProperty kBatteryPropCurrentNow cb"

definition getCurrentAverage :: "(Result \<Rightarrow> int \<Rightarrow> unit health) \<Rightarrow> unit health" where
  "getCurrentAverage cb = getProperty kBatteryPropCurrentAvg cb"

definition getCapacity :: "(Result \<Rightarrow> int \<Rightarrow> unit health) \<Rightarrow> unit health" where
  "getCapacity cb = getProperty kBatteryPropCapacity cb"

definition getEnergyCounter :: "(Result \<Rightarrow> int \<Rightarrow> unit health) \<Rightarrow> unit health" where
  "getEnergyCounter cb = getProperty kBatteryPropEnergyCounter cb"

definition getChargeStatus :: "(Result \<Rightarrow> BatteryStatus \<Rightarrow> unit health) \<Rightarrow> unit health" where
  "getChargeStatus cb = getProperty BatteryStatus_FULL cb"

section \<open>Health information\<close>

text \<open>The stubs of HealthServiceCommon.cpp.\<close>

definition healthd_board_init :: "healthd_config \<Rightarrow> healthd_config" where
  "healthd_board_init config = config"

definition get_storage_info :: "StorageInfo list \<Rightarrow> StorageInfo list" where
  "get_storage_info info = info"

definition get_disk_stats :: "DiskStats list \<Rightarrow> DiskStats list" where
  "get_disk_stats stats = stats"

text \<open>The current average read from the monitor, 64 bits narrowed to 32, or 0 when it is refused.\<close>

definition current_average :: "health_env \<Rightarrow> i32 health" where
  "current_average env =
     do {
       (ok, valueInt64) \<leftarrow> hcall (env_monitor_current_avg env) (\<lambda>(ok, v). MonitorGetCurrentAvg ok v);
       return (if ok then ucast valueInt64 else 0)
     }"

definition health_info :: "i32 \<Rightarrow> DiskStats list \<Rightarrow> StorageInfo list \<Rightarrow> HealthInfo" where
  "health_info currentAvg stats info =
     \<lparr>legacy = \<lparr>chargerAcOnline = True, chargerUsbOnline = False, chargerWirelessOnline = False,
        maxChargingCurrent = 0, maxChargingVoltage = 0, batteryPresent = False, batteryLevel = 100,
        batteryVoltage = 0, batteryTemperature = 0, batteryCurrent = 0, batteryCycleCount = 0,
        batteryFullCharge = 1, batteryChargeCounter = 1, batteryStatus = BatteryStatus_FULL,
        batteryHealth = BatteryHealth_GOOD, batteryTechnology = ''AC''\<rparr>,
      batteryCurrentAverage = currentAvg, diskStats = stats, storageInfos = info\<rparr>"

primrec notify_loop ::
  "health_env \<Rightarrow> HealthInfo \<Rightarrow> health_callback list \<Rightarrow> health_callback list health" where
  "notify_loop env info [] = return []"
| "notify_loop env info (it # rest) =
     do {
       ret \<leftarrow> hcall (\<lambda>tr. env_health_info_changed env tr it) (HealthInfoChanged it info);
       kept \<leftarrow> notify_loop env info rest;
       return (if \<not> isOk ret \<and> isDeadObject ret then kept else it # kept)
     }"

definition notifyListeners :: "health_env \<Rightarrow> HealthInfo health" where
  "notifyListeners env =
     do {
       info \<leftarrow> return (get_storage_info []);
       stats \<leftarrow> return (get_disk_stats []);
       currentAvg \<leftarrow> current_average env;
       healthInfo \<leftarrow> return (health_info currentAvg stats info);
       cbs \<leftarrow> gets callbacks;
       kept \<leftarrow> notify_loop env healthInfo cbs;
       modify (\<lambda>s. s\<lparr>callbacks := kept\<rparr>);
       return healthInfo
     }"

definition getHealthInfo ::
  "health_env \<Rightarrow> healthd_mode_ops option \<Rightarrow> (Result \<Rightarrow> HealthInfo \<Rightarrow> unit health) \<Rightarrow> unit health" where
  "getHealthInfo env ops cb =
     do {
       _ \<leftarrow> update env ops;
       info \<leftarrow> return (get_storage_info []);
       stats \<leftarrow> return (get_disk_stats []);
       currentAvg \<leftarrow> current_average env;
       cb SUCCESS (health_info currentAvg stats info)
     }"

definition getStorageInfo :: "(Result \<Rightarrow> StorageInfo list \<Rightarrow> unit health) \<Rightarrow> unit health" where
  "getStorageInfo cb =
     (let info = get_storage_info []
      in if info = [] then cb NOT_SUPPORTED info else cb SUCCESS info)"

definition getDiskStats :: "(Result \<Rightarrow> DiskStats list \<Rightarrow> unit health) \<Rightarrow> unit health" where
  "getDiskStats cb =
     (let stats = get_disk_stats []
      in if stats = [] then cb NOT_SUPPORTED stats else cb SUCCESS stats)"

definition write_string :: "string \<Rightarrow> int \<Rightarrow> unit health" where
  "write_string s fd = hcall (\<lambda>_. ()) (\<lambda>_. WriteString fd s)"

definition debug_lambda :: "health_env \<Rightarrow> int \<Rightarrow> Result \<Rightarrow> HealthInfo \<Rightarrow> unit health" where
  "debug_lambda env fd res info =
     do {
       write_string (CHR 0x0A # ''getHealthInfo -> '') fd;
       (if res = SUCCESS then write_string (env_toString env info) fd
        else write_string (env_toString_result env res) fd);
       write_string [CHR 0x0A] fd
     }"

definition debug :: "health_env \<Rightarrow> healthd_mode_ops option \<Rightarrow> int list option \<Rightarrow> unit health" where
  "debug env ops handle =
     (case handle of
        None \<Rightarrow> return ()
      | Some [] \<Rightarrow> return ()
      | Some (fd # fds) \<Rightarrow>
          do {
            hcall (\<lambda>_. ()) (\<lambda>_. MonitorDump fd);
            getHealthInfo env ops (debug_lambda env fd);
            hcall (\<lambda>_. ()) (\<lambda>_. Fsync fd)
          })"

section \<open>The instance\<close>

text \<open>The constructor: the callbacks start empty, and the battery monitor may rewrite the configuration.\<close>

definition new_Health :: "health_env \<Rightarrow> unit health" where
  "new_Health env =
     do {
       modify (\<lambda>s. s\<lparr>callbacks := []\<rparr>);
       modify (\<lambda>s. s\<lparr>healthd_config := healthd_board_init (healthd_config s)\<rparr>);
       hcall (\<lambda>_. ()) (\<lambda>_. MonitorInit);
       modify (\<lambda>s. s\<lparr>healthd_config := env_monitor_init env (healthd_config s)\<rparr>)
     }"

definition initInstance :: "health_env \<Rightarrow> unit health" where
  "initInstance env =
     do {
       set \<leftarrow> gets hal_instance;
       if set then return ()
       else do {
         new_Health env;
         modify (\<lambda>s. s\<lparr>hal_instance := True\<rparr>)
       }
     }"

definition getImplementation :: "(stop + unit) health" where
  "getImplementation =
     do {
       set \<leftarrow> gets hal_instance;
       if set then returnOk () else return (Inl Abort)
     }"

section \<open>Requests of clients\<close>

text \<open>The answer of a request is an event; \<open>serviceDied\<close> is a notification and has none.\<close>

definition answer :: "health_reply \<Rightarrow> unit health" where
  "answer r = hcall (\<lambda>_. ()) (\<lambda>_. Answer r)"

fun handle_health_request ::
  "health_env \<Rightarrow> healthd_mode_ops option \<Rightarrow> health_request \<Rightarrow> unit health" where
  "handle_health_request env ops (RegisterCallback cb) =
     do { r \<leftarrow> registerCallback env ops cb; answer (ReplyResult r) }"
| "handle_health_request env ops (UnregisterCallback cb) =
     do { r \<leftarrow> unregisterCallback env cb; answer (ReplyResult r) }"
| "handle_health_request env ops Update = do { r \<leftarrow> update env ops; answer (ReplyResult r) }"
| "handle_health_request env ops GetChargeCounter = getChargeCounter (\<lambda>r v. answer (ReplyInt r v))"
| "handle_health_request env ops GetCurrentNow = getCurrentNow (\<lambda>r v. answer (ReplyInt r v))"
| "handle_health_request env ops GetCurrentAverage = getCurrentAverage (\<lambda>r v. answer (ReplyInt r v))"
| "handle_health_request env ops GetCapacity = getCapacity (\<lambda>r v. answer (ReplyInt r v))"
| "handle_health_request env ops GetEnergyCounter = getEnergyCounter (\<lambda>r v. answer (ReplyInt r v))"
| "handle_health_request env ops GetChargeStatus = getChargeStatus (\<lambda>r v. answer (ReplyStatus r v))"
| "handle_health_request env ops GetStorageInfo = getStorageInfo (\<lambda>r v. answer (ReplyStorage r v))"
| "handle_health_request env ops GetDiskStats = getDiskStats (\<lambda>r v. answer (ReplyDisk r v))"
| "handle_health_request env ops GetHealthInfo = getHealthInfo env ops (\<lambda>r v. answer (ReplyHealthInfo r v))"
| "handle_health_request env ops (Debug handle) = do { debug env ops handle; answer ReplyVoid }"
| "handle_health_request env ops (ServiceDied who) = serviceDied env who"

primrec handle_health_requests ::
  "health_env \<Rightarrow> healthd_mode_ops option \<Rightarrow> health_request list \<Rightarrow> unit health" where
  "handle_health_requests env ops [] = return ()"
| "handle_health_requests env ops (r # rs) =
     do { handle_health_request env ops r; handle_health_requests env ops rs }"

end
