(* ===== verification/Healthd_Main.thy ===== *)
theory Healthd_Main
  imports Health_Service
begin

text \<open>
  The daemon of the health service: the event handlers, the main loop and \<open>healthd_main\<close> of
  healthd_common.cpp, and the mode \<open>healthd_mode_service_2_0_ops\<close> and \<open>main\<close> of
  HealthServiceCommon.cpp. The main loop is \<open>while (1)\<close>: one iteration is
  \<open>mainloop_iteration\<close>, and \<open>healthd_mainloop\<close> runs at most \<open>fuel\<close> of them and answers
  \<open>None\<close> when it is still running.
\<close>

section \<open>Event handlers\<close>

definition healthd_battery_update ::
  "health_env \<Rightarrow> healthd_mode_ops option \<Rightarrow> (stop + unit) health" where
  "healthd_battery_update env ops =
     bindE getImplementation (\<lambda>_. do { _ \<leftarrow> update env ops; returnOk () })"

definition periodic_chores :: "health_env \<Rightarrow> healthd_mode_ops option \<Rightarrow> (stop + unit) health" where
  "periodic_chores env ops = healthd_battery_update env ops"

definition uevent_event :: "health_env \<Rightarrow> healthd_mode_ops option \<Rightarrow> (stop + unit) health" where
  "uevent_event env ops =
     do {
       fd \<leftarrow> gets uevent_fd;
       (n, received) \<leftarrow> hcall (env_uevent_recv env) (\<lambda>(n, _). UeventRecv fd n);
       if UEVENT_MSG_LEN + 2 < length received then return (Inl Out_of_bounds)
       else if n \<le> 0 then returnOk ()
       else if int UEVENT_MSG_LEN \<le> n then returnOk ()
       else (case scan_msg (uevent_buffer (env_msg_garbage env) received (nat n)) 0 of
               None \<Rightarrow> return (Inl Out_of_bounds)
             | Some True \<Rightarrow> healthd_battery_update env ops
             | Some False \<Rightarrow> returnOk ())
     }"

definition wakealarm_event :: "health_env \<Rightarrow> healthd_mode_ops option \<Rightarrow> (stop + unit) health" where
  "wakealarm_event env ops =
     do {
       fd \<leftarrow> gets wakealarm_fd;
       ok \<leftarrow> hcall (env_timer_read env) (TimerRead fd);
       if \<not> ok then returnOk () else periodic_chores env ops
     }"

definition binder_event :: "health_env \<Rightarrow> healthd_mode_ops option \<Rightarrow> (stop + unit) health" where
  "binder_event env ops =
     do {
       fd \<leftarrow> gets gBinderFd;
       if 0 \<le> fd then do {
         requests \<leftarrow> hcall (env_transport_poll env) (HandleTransportPoll fd);
         handle_health_requests env ops requests;
         returnOk ()
       } else returnOk ()
     }"

primrec run_handler ::
  "health_env \<Rightarrow> healthd_mode_ops option \<Rightarrow> handler \<Rightarrow> (stop + unit) health" where
  "run_handler env ops Uevent_event = uevent_event env ops"
| "run_handler env ops Wakealarm_event = wakealarm_event env ops"
| "run_handler env ops Binder_event = binder_event env ops"

section \<open>Initialisation\<close>

definition uevent_init :: "health_env \<Rightarrow> unit health" where
  "uevent_init env =
     do {
       fd \<leftarrow> hcall (env_uevent_open env) UeventOpen;
       modify (\<lambda>s. s\<lparr>uevent_fd := fd\<rparr>);
       if fd < 0 then return ()
       else do {
         hcall (\<lambda>_. ()) (\<lambda>_. SetNonblock fd);
         _ \<leftarrow> healthd_register_event env fd Uevent_event EVENT_WAKEUP_FD;
         return ()
       }
     }"

definition wakealarm_init :: "health_env \<Rightarrow> unit health" where
  "wakealarm_init env =
     do {
       fd \<leftarrow> hcall (env_timerfd_create env) TimerCreate;
       modify (\<lambda>s. s\<lparr>wakealarm_fd := fd\<rparr>);
       if fd = -1 then return ()
       else do {
         _ \<leftarrow> healthd_register_event env fd Wakealarm_event EVENT_WAKEUP_FD;
         fast \<leftarrow> gets (\<lambda>s. periodic_chores_interval_fast (healthd_config s));
         wakealarm_set_interval env fast
       }
     }"

definition healthd_init :: "health_env \<Rightarrow> healthd_mode_ops \<Rightarrow> (stop + int) health" where
  "healthd_init env ops =
     do {
       fd \<leftarrow> hcall (env_epoll_create env) EpollCreate;
       modify (\<lambda>s. s\<lparr>epollfd := fd\<rparr>);
       if fd = -1 then returnOk (-1)
       else bindE (op_init ops) (\<lambda>_. do {
         wakealarm_init env;
         uevent_init env;
         returnOk 0
       })
     }"

section \<open>The main loop\<close>

primrec dispatch_events ::
  "health_env \<Rightarrow> healthd_mode_ops \<Rightarrow> (handler option \<times> u32) list \<Rightarrow> (stop + unit) health" where
  "dispatch_events env ops [] = returnOk ()"
| "dispatch_events env ops (e # es) =
     bindE (case fst e of None \<Rightarrow> returnOk () | Some h \<Rightarrow> run_handler env (Some ops) h)
           (\<lambda>_. dispatch_events env ops es)"

text \<open>One pass of the loop body; the answer is the new \<open>nevents\<close>, or \<open>None\<close> for \<open>break\<close>.\<close>

definition mainloop_iteration ::
  "health_env \<Rightarrow> healthd_mode_ops \<Rightarrow> int \<Rightarrow> (stop + int option) health" where
  "mainloop_iteration env ops nevents =
     do {
       array_size \<leftarrow> gets eventct;
       timeout \<leftarrow> gets awake_poll_interval;
       bindE (if nevents = 0 then periodic_chores env (Some ops) else returnOk ()) (\<lambda>_. do {
         op_heartbeat ops;
         mode_timeout \<leftarrow> op_preparetowait ops;
         timeout \<leftarrow> return (if timeout < 0 \<or> (0 < mode_timeout \<and> mode_timeout < timeout)
                            then mode_timeout else timeout);
         epfd \<leftarrow> gets epollfd;
         maxevents \<leftarrow> gets eventct;
         r \<leftarrow> hcall (\<lambda>tr. env_epoll_wait env tr maxevents timeout)
                    (EpollWait epfd array_size maxevents timeout);
         case r of
           WaitError eintr \<Rightarrow> returnOk (if eintr then Some (-1) else None)
         | WaitEvents events \<Rightarrow>
             bindE (dispatch_events env ops events) (\<lambda>_. returnOk (Some (int (length events))))
       })
     }"

primrec healthd_mainloop ::
  "nat \<Rightarrow> health_env \<Rightarrow> healthd_mode_ops \<Rightarrow> int \<Rightarrow> (stop + unit) option health" where
  "healthd_mainloop 0 env ops nevents = return None"
| "healthd_mainloop (Suc fuel) env ops nevents =
     do {
       r \<leftarrow> mainloop_iteration env ops nevents;
       case r of
         Inl stop \<Rightarrow> return (Some (Inl stop))
       | Inr None \<Rightarrow> return (Some (Inr ()))
       | Inr (Some nevents) \<Rightarrow> healthd_mainloop fuel env ops nevents
     }"

definition healthd_main ::
  "nat \<Rightarrow> health_env \<Rightarrow> healthd_mode_ops option \<Rightarrow> (stop + int) option health" where
  "healthd_main fuel env ops =
     (case ops of
        None \<Rightarrow> return (Some (Inl (Exit 1)))
      | Some ops \<Rightarrow>
          do {
            ret \<leftarrow> healthd_init env ops;
            case ret of
              Inl stop \<Rightarrow> return (Some (Inl stop))
            | Inr ret \<Rightarrow>
                if ret \<noteq> 0 then return (Some (Inl (Exit 2)))
                else do {
                  r \<leftarrow> healthd_mainloop fuel env ops 0;
                  return (case r of
                            None \<Rightarrow> None
                          | Some (Inl stop) \<Rightarrow> Some (Inl stop)
                          | Some (Inr _) \<Rightarrow> Some (Inr 3))
                }
          })"

section \<open>The service's mode (HealthServiceCommon.cpp)\<close>

definition healthd_mode_service_2_0_init :: "health_env \<Rightarrow> (stop + unit) health" where
  "healthd_mode_service_2_0_init env =
     do {
       fd \<leftarrow> hcall (env_setup_polling env) SetupTransportPolling;
       modify (\<lambda>s. s\<lparr>gBinderFd := fd\<rparr>);
       (if 0 \<le> fd then do {
          _ \<leftarrow> healthd_register_event env fd Binder_event EVENT_NO_WAKEUP_FD;
          return ()
        } else return ());
       initInstance env;
       name \<leftarrow> gets gInstanceName;
       ok \<leftarrow> hcall (env_register_service env) (RegisterAsService name);
       if ok then returnOk () else return (Inl Abort)
     }"

definition healthd_mode_service_2_0_preparetowait :: "int health" where
  "healthd_mode_service_2_0_preparetowait = return (-1)"

definition healthd_mode_service_2_0_heartbeat :: "unit health" where
  "healthd_mode_service_2_0_heartbeat = return ()"

definition healthd_mode_service_2_0_battery_update :: "health_env \<Rightarrow> (stop + unit) health" where
  "healthd_mode_service_2_0_battery_update env =
     bindE getImplementation (\<lambda>_. do { _ \<leftarrow> notifyListeners env; returnOk () })"

definition healthd_mode_service_2_0_ops :: "health_env \<Rightarrow> healthd_mode_ops" where
  "healthd_mode_service_2_0_ops env =
     \<lparr>op_init = healthd_mode_service_2_0_init env,
      op_preparetowait = healthd_mode_service_2_0_preparetowait,
      op_heartbeat = healthd_mode_service_2_0_heartbeat,
      op_battery_update = Some (healthd_mode_service_2_0_battery_update env)\<rparr>"

definition healthd_board_battery_update :: int where
  "healthd_board_battery_update = 0"

text \<open>\<open>main\<close>: name the instance, set the mode, run the daemon.\<close>

definition service_main :: "nat \<Rightarrow> health_env \<Rightarrow> (stop + int) option health" where
  "service_main fuel env =
     do {
       modify (\<lambda>s. if gInstanceName s = [] then s\<lparr>gInstanceName := ''default''\<rparr> else s);
       healthd_main fuel env (Some (healthd_mode_service_2_0_ops env))
     }"

end
