(* ===== verification/Healthd_Daemon.thy ===== *)
theory Healthd_Daemon
  imports Healthd_Main
begin

text \<open>
  The daemon against its mode: \<open>healthd_mode\<close> is what healthd_common.cpp relies on in the table
  \<open>healthd_mode_ops\<close>, \<open>handler_frame\<close> what no request and no handler can change, and \<open>healthd_daemon\<close> an
  invariant of the running daemon, which is such a frame. The lemmas carry these through every request,
  handler and iteration once and for all, and show that no handler ends the process. The mode of HealthServiceCommon.cpp interprets both, with the invariant
  \<open>ready\<close> that \<open>healthd_init\<close> establishes.
\<close>

section \<open>The interfaces of the daemon\<close>

text \<open>What the main loop relies on in the mode it runs: its \<open>heartbeat\<close> and \<open>preparetowait\<close> keep
  the daemon's invariant, register nothing, and the wait they ask for is as \<open>mode_timeout\<close> says.\<close>

locale healthd_mode =
  fixes ops :: "health_env \<Rightarrow> healthd_mode_ops"
    and contract :: "health_env \<Rightarrow> bool"
    and I :: "health_env \<Rightarrow> health_state \<Rightarrow> bool"
    and mode_timeout :: "int \<Rightarrow> bool"
  assumes heartbeat_keeps: "contract env \<Longrightarrow> keeps (I env) (op_heartbeat (ops env))"
    and heartbeat_eventct: "keeps (\<lambda>s. eventct s = c) (op_heartbeat (ops env))"
    and preparetowait_keeps:
      "contract env \<Longrightarrow> hoare (I env) (op_preparetowait (ops env)) (\<lambda>t s. I env s \<and> mode_timeout t)"
    and preparetowait_eventct: "keeps (\<lambda>s. eventct s = c) (op_preparetowait (ops env))"

text \<open>A frame of the handlers: what a handler may do (quiet calls, changes of the registered callbacks, an
  adjustment of the intervals) keeps it, hence so does everything a wake-up can trigger.\<close>

locale handler_frame =
  fixes env :: health_env
    and I :: "health_state \<Rightarrow> bool"
  assumes frame_quiet: "quiet e \<Longrightarrow> I s \<Longrightarrow> I (record_event e s)"
    and frame_callbacks: "I s \<Longrightarrow> I (s\<lparr>callbacks := cbs\<rparr>)"
    and frame_update: "keeps I (healthd_battery_update_internal env True)"
begin

lemma quiet_call: "(\<And>r. quiet (ev r)) \<Longrightarrow> keeps I (hcall reply ev)"
  by (auto intro!: keeps_hcall frame_quiet)

lemma update_ok: "keeps I (update env op)"
  unfolding update_def by (auto intro!: keeps_rules frame_update)

lemma current_average_ok: "keeps I (current_average env)"
  unfolding current_average_def by (auto intro!: keeps_rules quiet_call split: prod.split)

lemma unregister_ok: "keeps I (unregisterCallbackInternal env cb)"
  unfolding unregisterCallbackInternal_def
  by (auto intro!: keeps_rules quiet_call frame_callbacks split: option.split prod.split)

lemma answer_ok: "keeps I (answer r)"
  unfolding answer_def by (simp add: quiet_call)

lemma getHealthInfo_ok: "(\<And>r i. keeps I (cb r i)) \<Longrightarrow> keeps I (getHealthInfo env op cb)"
  unfolding getHealthInfo_def by (auto intro!: keeps_rules update_ok current_average_ok)

lemma debug_ok: "keeps I (debug env op handle)"
  unfolding debug_def
  by (auto intro!: keeps_rules quiet_call getHealthInfo_ok simp: debug_lambda_def write_string_def
      split: option.split list.split)

lemma request_ok: "keeps I (handle_health_request env op r)"
  by (cases r)
     (auto intro!: keeps_rules quiet_call update_ok unregister_ok answer_ok getHealthInfo_ok debug_ok
        frame_callbacks split: option.split
       simp: registerCallback_def unregisterCallback_def serviceDied_def getProperty_def Let_def
        getChargeCounter_def getCurrentNow_def getCurrentAverage_def getCapacity_def
        getEnergyCounter_def getChargeStatus_def getStorageInfo_def getDiskStats_def)

lemma requests_ok: "keeps I (handle_health_requests env op rs)"
  by (induction rs) (auto intro!: keeps_rules request_ok)

lemma battery_update_frame: "keeps I (healthd_battery_update env op)"
  unfolding healthd_battery_update_def getImplementation_def by (auto intro!: keeps_rules update_ok)

lemma run_handler_frame: "keeps I (run_handler env op h)"
  by (cases h)
     (auto simp: uevent_event_def wakealarm_event_def binder_event_def periodic_chores_def
       intro!: keeps_rules quiet_call battery_update_frame requests_ok split: prod.split option.split bool.split)

lemma dispatch_frame: "keeps I (dispatch_events env op es)"
  by (induction es) (auto intro!: keeps_rules run_handler_frame split: option.split)

end

text \<open>An invariant of the running daemon: what handlers may do cannot break it.\<close>

locale healthd_daemon = healthd_mode +
  assumes recv: "contract env \<Longrightarrow> recv_documented env"
    and has_instance: "I env s \<Longrightarrow> hal_instance s"
    and any_callbacks: "I env s \<Longrightarrow> I env (s\<lparr>callbacks := cbs\<rparr>)"
    and any_quiet: "quiet e \<Longrightarrow> I env s \<Longrightarrow> I env (record_event e s)"
    and update_keeps: "keeps (I env) (healthd_battery_update_internal env True)"
    and wait_keeps: "contract env \<Longrightarrow> I env s0 \<Longrightarrow> I env s \<Longrightarrow> eventct s0 = eventct s \<Longrightarrow> mode_timeout t \<Longrightarrow>
      timeout = (if awake_poll_interval s0 < 0 \<or> (0 < t \<and> t < awake_poll_interval s0)
                 then t else awake_poll_interval s0) \<Longrightarrow>
      I env (record_event (EpollWait (epollfd s) (eventct s) (eventct s) timeout
              (env_epoll_wait env (history s) (eventct s) timeout)) s)"

lemma update_internal_eventct: "keeps (\<lambda>s. eventct s = c) (healthd_battery_update_internal env b)"
  unfolding healthd_battery_update_internal_def wakealarm_set_interval_def Let_def
  by (auto intro!: keeps_rules simp: record_event_def)

lemma battery_update_eventct: "keeps (\<lambda>s. eventct s = c) (healthd_battery_update env ops)"
  unfolding healthd_battery_update_def getImplementation_def update_def
  by (auto intro!: keeps_rules update_internal_eventct)

text \<open>An iteration is: prepare, wait once, dispatch.\<close>

definition wait_event :: "health_env \<Rightarrow> health_state \<Rightarrow> int \<Rightarrow> health_event" where
  "wait_event env s w = EpollWait (epollfd s) (eventct s) (eventct s) w
     (env_epoll_wait env (history s) (eventct s) w)"

definition after_wait :: "health_env \<Rightarrow> healthd_mode_ops \<Rightarrow> wait_result \<Rightarrow> (stop + int option) health" where
  "after_wait env op r =
     (case r of
        WaitError eintr \<Rightarrow> returnOk (if eintr then Some (-1) else None)
      | WaitEvents events \<Rightarrow>
          bindE (dispatch_events env op events) (\<lambda>_. returnOk (Some (int (length events)))))"

lemma recv_fits:
  "recv_documented env \<Longrightarrow> env_uevent_recv env tr = (n, received) \<Longrightarrow> length received \<le> UEVENT_MSG_LEN"
  by (auto simp: recv_documented_def UEVENT_MSG_LEN_def dest: spec [of _ tr])

lemma scan_received:
  assumes "recv_documented env" and "env_uevent_recv env tr = (n, received)"
    and "0 < n" "n < int UEVENT_MSG_LEN"
  shows "scan_msg (uevent_buffer (env_msg_garbage env) received (nat n)) 0 =
    Some (POWER_SUPPLY_STRING \<in> set (uevent_strings received))"
proof -
  have "length received = nat n"
    using assms(1-3) by (auto simp: recv_documented_def dest: spec [of _ tr])
  moreover have "nat n < UEVENT_MSG_LEN" using assms(3,4) by simp
  ultimately obtain rest where
    "uevent_buffer (env_msg_garbage env) received (nat n) = received @ NUL # NUL # rest"
    using uevent_buffer_split by metis
  then show ?thesis by (intro scan_msg_correct) simp
qed

sublocale healthd_daemon \<subseteq> frame: handler_frame env "I env" for env
  by unfold_locales (auto intro: any_quiet any_callbacks update_keeps)

context healthd_daemon begin

text \<open>Handlers never end the process.\<close>

lemma battery_update_ok:
  "hoare (I env) (healthd_battery_update env op) (\<lambda>r s. I env s \<and> r = Inr ())"
proof (rule hoareI)
  fix s r s'
  assume I: "I env s" and run: "run_state (healthd_battery_update env op) s = (r, s')"
  then have "r = Inr ()" "snd (run_state (update env op) s) = s'"
    using has_instance [OF I]
    by (auto simp: healthd_battery_update_def getImplementation_def split: prod.splits)
  with keepsD [OF frame.update_ok I, of op] show "I env s' \<and> r = Inr ()"
    by (cases "run_state (update env op) s") auto
qed

lemma uevent_event_ok:
  assumes "contract env"
  shows "hoare (I env) (uevent_event env op) (\<lambda>r s. I env s \<and> r = Inr ())"
proof (rule hoareI)
  fix s r s'
  assume I: "I env s" and run: "run_state (uevent_event env op) s = (r, s')"
  obtain n received where rv: "env_uevent_recv env (history s) = (n, received)" by (rule prod.exhaust)
  have fits: "\<not> UEVENT_MSG_LEN + 2 < length received"
    using recv_fits [OF recv [OF assms] rv] by simp
  let ?s = "record_event (UeventRecv (uevent_fd s) n) s"
  have I': "I env ?s" using I by (simp add: any_quiet)
  note upd = hoareD [OF battery_update_ok I']
  show "I env s' \<and> r = Inr ()"
  proof (cases "0 < n \<and> n < int UEVENT_MSG_LEN")
    case True
    with run rv fits scan_received [OF recv [OF assms] rv] upd I' show ?thesis
      by (auto simp: uevent_event_def record_event_def split: if_splits bool.splits)
  next
    case False
    with run rv fits I' show ?thesis
      by (auto simp: uevent_event_def record_event_def split: if_splits)
  qed
qed

lemma wakealarm_event_ok: "hoare (I env) (wakealarm_event env op) (\<lambda>r s. I env s \<and> r = Inr ())"
proof (rule hoareI)
  fix s r s'
  assume I: "I env s" and run: "run_state (wakealarm_event env op) s = (r, s')"
  let ?s = "record_event (TimerRead (wakealarm_fd s) (env_timer_read env (history s))) s"
  have I': "I env ?s" using I by (simp add: any_quiet)
  from run I' hoareD [OF battery_update_ok I'] show "I env s' \<and> r = Inr ()"
    by (auto simp: wakealarm_event_def periodic_chores_def record_event_def split: if_splits)
qed

lemma binder_event_ok: "hoare (I env) (binder_event env op) (\<lambda>r s. I env s \<and> r = Inr ())"
proof (rule hoareI)
  fix s r s'
  assume I: "I env s" and run: "run_state (binder_event env op) s = (r, s')"
  have "keeps (I env) (binder_event env op)"
    unfolding binder_event_def by (auto intro!: keeps_rules frame.quiet_call frame.requests_ok)
  with run I show "I env s' \<and> r = Inr ()"
    by (auto simp: binder_event_def split: if_splits prod.splits dest: keepsD)
qed

lemma handler_ok:
  "contract env \<Longrightarrow> hoare (I env) (run_handler env op h) (\<lambda>r s. I env s \<and> r = Inr ())"
  by (cases h) (simp_all add: uevent_event_ok wakealarm_event_ok binder_event_ok)

lemma dispatch_ok:
  assumes "contract env"
  shows "hoare (I env) (dispatch_events env op es) (\<lambda>r s. I env s \<and> r = Inr ())"
proof (induction es)
  case Nil
  show ?case by (simp add: hoare_def)
next
  case (Cons e es)
  have "hoare (I env) (case fst e of None \<Rightarrow> returnOk () | Some h \<Rightarrow> run_handler env (Some op) h)
      (\<lambda>r s. I env s \<and> r = Inr ())"
    using handler_ok [OF assms] by (auto simp: hoare_def split: option.split)
  then show ?case
    unfolding dispatch_events.simps by (rule hoare_bindE) (auto intro: hoare_weaken [OF Cons.IH])
qed

lemma iteration_shape:
  assumes "contract env" and I0: "I env s0"
  shows "\<exists>s w. I env s \<and> I env (record_event (wait_event env s w) s) \<and>
    run_state (mainloop_iteration env (ops env) n) s0 =
    run_state (after_wait env (ops env) (env_epoll_wait env (history s) (eventct s) w))
      (record_event (wait_event env s w) s)"
proof -
  let ?chores = "if n = 0 then periodic_chores env (Some (ops env)) else returnOk ()"
  obtain r1 s1 where chores: "run_state ?chores s0 = (r1, s1)" by (rule run_state_obtain1)
  have 1: "I env s1" "r1 = Inr ()" "eventct s1 = eventct s0"
    using chores I0 hoareD [OF battery_update_ok I0] keepsD [OF battery_update_eventct refl]
    by (auto simp: periodic_chores_def split: if_splits)
  obtain s2 where beat: "run_state (op_heartbeat (ops env)) s1 = ((), s2)"
    by (cases "run_state (op_heartbeat (ops env)) s1") simp
  have 2: "I env s2" "eventct s2 = eventct s0"
    using keepsD [OF heartbeat_keeps [OF assms(1)] 1(1) beat] keepsD [OF heartbeat_eventct refl beat] 1(3)
    by simp_all
  obtain t s3 where prep: "run_state (op_preparetowait (ops env)) s2 = (t, s3)"
    by (rule run_state_obtain1)
  have 3: "I env s3" "mode_timeout t" "eventct s0 = eventct s3"
    using hoareD [OF preparetowait_keeps [OF assms(1)] 2(1) prep]
      keepsD [OF preparetowait_eventct refl prep] 2(2) by simp_all
  define w where
    "w = (if awake_poll_interval s0 < 0 \<or> (0 < t \<and> t < awake_poll_interval s0)
          then t else awake_poll_interval s0)"
  have "I env (record_event (wait_event env s3 w) s3)"
    unfolding wait_event_def by (rule wait_keeps [OF assms(1) I0 3(1) 3(3) 3(2) w_def])
  moreover have "run_state (mainloop_iteration env (ops env) n) s0 =
      run_state (after_wait env (ops env) (env_epoll_wait env (history s3) (eventct s3) w))
        (record_event (wait_event env s3 w) s3)"
    using chores 1 beat prep 3(3)
    by (simp add: mainloop_iteration_def after_wait_def wait_event_def record_event_def w_def)
  ultimately show ?thesis using 3(1) by blast
qed

lemma after_wait_ok:
  assumes "contract env"
  shows "hoare (I env) (after_wait env (ops env) r)
    (\<lambda>x s. I env s \<and> (\<exists>y. x = Inr y \<and> (y = None \<longleftrightarrow> r = WaitError False)))"
proof (cases r)
  case (WaitError eintr)
  then show ?thesis by (simp add: after_wait_def hoare_def)
next
  case (WaitEvents events)
  have "hoare (I env) (bindE (dispatch_events env (ops env) events)
      (\<lambda>_. returnOk (Some (int (length events))))) (\<lambda>x s. I env s \<and> (\<exists>y. x = Inr (Some y)))"
    by (rule hoare_bindE [OF dispatch_ok [OF assms]]) (auto simp: hoare_def)
  with WaitEvents show ?thesis
    by (auto simp: after_wait_def elim!: hoare_weaken)
qed

lemma iteration_ok:
  assumes "contract env"
  shows "hoare (I env) (mainloop_iteration env (ops env) n) (\<lambda>r s. I env s \<and> (\<exists>x. r = Inr x))"
proof (rule hoareI)
  fix s0 r s'
  assume I0: "I env s0" and run: "run_state (mainloop_iteration env (ops env) n) s0 = (r, s')"
  from iteration_shape [OF assms I0, of n] run obtain s w where
    "I env (record_event (wait_event env s w) s)"
    "run_state (after_wait env (ops env) (env_epoll_wait env (history s) (eventct s) w))
      (record_event (wait_event env s w) s) = (r, s')"
    by auto
  from hoareD [OF after_wait_ok [OF assms] this] show "I env s' \<and> (\<exists>x. r = Inr x)" by blast
qed

lemma mainloop_ok:
  assumes "contract env"
  shows "hoare (I env) (healthd_mainloop fuel env (ops env) n)
    (\<lambda>r s. I env s \<and> (r = None \<or> r = Some (Inr ())))"
proof (induction fuel arbitrary: n)
  case 0
  show ?case by (simp add: hoare_def)
next
  case (Suc fuel)
  show ?case
    unfolding healthd_mainloop.simps
  proof (rule hoare_bind [OF iteration_ok [OF assms]])
    fix r
    show "hoare (\<lambda>s. I env s \<and> (\<exists>x. r = Inr x))
        (case r of Inl stop \<Rightarrow> return (Some (Inl stop)) | Inr None \<Rightarrow> return (Some (Inr ()))
         | Inr (Some nevents) \<Rightarrow> healthd_mainloop fuel env (ops env) nevents)
        (\<lambda>r s. I env s \<and> (r = None \<or> r = Some (Inr ())))"
      using Suc.IH by (auto simp: hoare_def split: sum.split option.split)
  qed
qed

end

section \<open>The mode of the service\<close>

text \<open>Intervals the timer was armed with, and the number of waits.\<close>

fun timer_setting :: "health_event \<Rightarrow> (int \<times> int) list" where
  "timer_setting (TimerSetInterval fd interval _) = [(fd, interval)]"
| "timer_setting _ = []"

definition timer_settings :: "health_trace \<Rightarrow> (int \<times> int) list" where
  "timer_settings tr = concat (map timer_setting tr)"

fun is_wait :: "health_event \<Rightarrow> bool" where
  "is_wait (EpollWait _ _ _ _ _) = True"
| "is_wait _ = False"

definition waits :: "health_trace \<Rightarrow> nat" where
  "waits tr = length (filter is_wait tr)"

fun untimed :: "health_event \<Rightarrow> bool" where
  "untimed (EpollWait _ _ _ timeout _) = (timeout = -1)"
| "untimed _ = True"

text \<open>The fast interval of the service, once \<open>BatteryMonitor::init\<close> has had the configuration: it may have
  put anything there, -1 (no periodic chores) included.\<close>

definition fast_interval :: "health_env \<Rightarrow> int" where
  "fast_interval env = periodic_chores_interval_fast (env_monitor_init env (healthd_board_init initial_config))"

definition steady :: "health_state \<Rightarrow> bool" where
  "steady s \<longleftrightarrow>
     awake_poll_interval s = -1 \<and> epollfd s \<noteq> -1 \<and>
     epoll_use (history s) = Some (epollfd s, eventct s) \<and> list_all untimed (history s)"

definition ready :: "health_env \<Rightarrow> health_state \<Rightarrow> bool" where
  "ready env s \<longleftrightarrow> steady s \<and> hal_instance s \<and>
     periodic_chores_interval_fast (healthd_config s) = fast_interval env \<and>
     wakealarm_wake_interval s = (if wakealarm_fd s = -1 then 60 else fast_interval env) \<and>
     timer_settings (history s) = (if wakealarm_fd s = -1 then []
       else [(wakealarm_fd s, if fast_interval env = -1 then 0 else fast_interval env)])"

lemma quiet_facts: "quiet e \<Longrightarrow> timer_setting e = [] \<and> untimed e"
  by (cases e) auto

text \<open>The service's mode satisfies both interfaces, for the invariant \<open>ready\<close>.\<close>

interpretation service: healthd_daemon healthd_mode_service_2_0_ops recv_documented ready "\<lambda>t. t = -1"
proof unfold_locales
  fix env s e
  assume "quiet e" "ready env s"
  then show "ready env (record_event e s)"
    using quiet_epoll [of e] quiet_facts [of e]
    by (auto simp: ready_def steady_def record_event_def timer_settings_def)
next
  fix env
  show "keeps (ready env) (healthd_battery_update_internal env True)"
    by (rule keepsI)
       (auto simp: healthd_battery_update_internal_def wakealarm_set_interval_def ready_def steady_def split: if_splits)
qed (auto simp: healthd_mode_service_2_0_ops_def healthd_mode_service_2_0_heartbeat_def record_event_def
    healthd_mode_service_2_0_preparetowait_def ready_def steady_def hoare_def timer_settings_def)

section \<open>Initialisation\<close>

lemma register_event_hoare:
  assumes "\<And>s ok. P s \<Longrightarrow> P (s\<lparr>history := history s @ [EpollAdd (epollfd s) fd h w ok],
      eventct := if ok then eventct s + 1 else eventct s\<rparr>)"
  shows "keeps P (healthd_register_event env fd h w)"
proof (rule keepsI)
  fix s r s'
  assume P: "P s" and run: "run_state (healthd_register_event env fd h w) s = (r, s')"
  with assms [OF P, of "env_epoll_ctl env (history s) fd"] show "P s'"
    by (auto simp: healthd_register_event_def record_event_def split: if_splits)
qed

definition starting :: "health_env \<Rightarrow> health_state \<Rightarrow> bool" where
  "starting env s \<longleftrightarrow> steady s \<and> timer_settings (history s) = [] \<and> gInstanceName s = ''default'' \<and>
     wakealarm_wake_interval s = 60 \<and>
     (if hal_instance s then periodic_chores_interval_fast (healthd_config s) = fast_interval env
      else healthd_config s = initial_config)"

lemma starting_register: "keeps (starting env) (healthd_register_event env fd h w)"
  by (rule register_event_hoare)
     (auto simp: starting_def steady_def record_event_def timer_settings_def)

lemma ready_register: "keeps (ready env) (healthd_register_event env fd h w)"
  by (rule register_event_hoare)
     (auto simp: ready_def steady_def record_event_def timer_settings_def)

lemma starting_init:
  "hoare (starting env) (op_init (healthd_mode_service_2_0_ops env))
    (\<lambda>r s. starting env s \<and> (r = Inr () \<and> hal_instance s \<or>
       r = Inl Abort \<and> last (history s) = RegisterAsService ''default'' False))"
proof -
  have inst: "hoare (starting env) (initInstance env) (\<lambda>_ s. starting env s \<and> hal_instance s)"
    by (auto simp: initInstance_def new_Health_def hoare_def starting_def steady_def timer_settings_def
        fast_interval_def healthd_board_init_def split: if_splits)
  have poll: "keeps (starting env) (hcall (env_setup_polling env) SetupTransportPolling)"
    by (rule keeps_hcall) (auto simp: starting_def steady_def record_event_def timer_settings_def)
  show ?thesis
    unfolding healthd_mode_service_2_0_ops_def healthd_mode_service_2_0_init_def healthd_mode_ops.simps
  proof (rule hoare_bind [OF poll [unfolded keeps_def]],
      rule hoare_bind [where R = "\<lambda>_. starting env"],
      goal_cases modify rest)
    case (modify fd)
    show ?case by (auto simp: hoare_def starting_def steady_def)
  next
    case (rest fd u)
    have "keeps (starting env) (if 0 \<le> fd then do {
        _ \<leftarrow> healthd_register_event env fd Binder_event EVENT_NO_WAKEUP_FD;
        return () } else return ())"
      by (auto intro!: keeps_rules starting_register)
    then show ?case
      unfolding keeps_def
    proof (rule hoare_bind, goal_cases)
      case (1 v)
      show ?case
        by (rule hoare_bind [OF inst])
           (auto simp: hoare_def starting_def steady_def timer_settings_def)
    qed
  qed
qed

lemma wakealarm_init_ready:
  "hoare (\<lambda>s. starting env s \<and> hal_instance s) (wakealarm_init env) (\<lambda>_. ready env)"
proof -
  have create: "hoare (\<lambda>s. starting env s \<and> hal_instance s) (hcall (env_timerfd_create env) TimerCreate)
      (\<lambda>_ s. starting env s \<and> hal_instance s)"
    by (auto simp: hoare_def starting_def steady_def timer_settings_def)
  have add: "keeps (\<lambda>s. starting env s \<and> hal_instance s \<and> wakealarm_fd s = fd)
      (healthd_register_event env fd Wakealarm_event EVENT_WAKEUP_FD)" for fd
    by (rule register_event_hoare) (auto simp: starting_def steady_def timer_settings_def)
  show ?thesis
    unfolding wakealarm_init_def
  proof (rule hoare_bind [OF create])
    fix fd
    show "hoare (\<lambda>s. starting env s \<and> hal_instance s)
      (do {
         modify (\<lambda>s. s\<lparr>wakealarm_fd := fd\<rparr>);
         if fd = -1 then return ()
         else do {
           _ \<leftarrow> healthd_register_event env fd Wakealarm_event EVENT_WAKEUP_FD;
           fast \<leftarrow> gets (\<lambda>s. periodic_chores_interval_fast (healthd_config s));
           wakealarm_set_interval env fast
         }
       }) (\<lambda>_. ready env)"
    proof (rule hoare_bind [where R = "\<lambda>_ s. starting env s \<and> hal_instance s \<and> wakealarm_fd s = fd"],
        goal_cases set rest)
      case set
      show ?case by (auto simp: hoare_def starting_def steady_def)
    next
      case (rest u)
      show ?case
      proof (cases "fd = -1")
        case True
        then show ?thesis by (auto simp: hoare_def starting_def ready_def)
      next
        case False
        have "hoare (\<lambda>s. starting env s \<and> hal_instance s \<and> wakealarm_fd s = fd)
            (gets (\<lambda>s. periodic_chores_interval_fast (healthd_config s)) \<bind> wakealarm_set_interval env)
            (\<lambda>_. ready env)"
          using False
          by (auto simp: hoare_def wakealarm_set_interval_def starting_def ready_def steady_def timer_settings_def)
        with hoare_bind [OF add [unfolded keeps_def]] False show ?thesis by simp
      qed
    qed
  qed
qed

lemma uevent_init_ready: "keeps (ready env) (uevent_init env)"
  unfolding uevent_init_def
  by (intro keeps_rules ready_register keeps_hcall)
     (auto simp: ready_def steady_def record_event_def timer_settings_def)

lemma healthd_init_ready:
  "hoare (\<lambda>s. s = initial_state\<lparr>gInstanceName := ''default''\<rparr>)
    (healthd_init env (healthd_mode_service_2_0_ops env))
    (\<lambda>r s. r = Inr (-1) \<and> history s = [EpollCreate (-1)] \<or> r = Inr 0 \<and> ready env s \<or>
       r = Inl Abort \<and> steady s \<and> last (history s) = RegisterAsService ''default'' False)"
proof (rule hoareI)
  fix s r s'
  let ?ops = "healthd_mode_service_2_0_ops env"
  assume s: "s = initial_state\<lparr>gInstanceName := ''default''\<rparr>"
    and run: "run_state (healthd_init env ?ops) s = (r, s')"
  define fd where "fd = env_epoll_create env []"
  define s1 where "s1 = s\<lparr>history := [EpollCreate fd], epollfd := fd\<rparr>"
  show "r = Inr (-1) \<and> history s' = [EpollCreate (-1)] \<or> r = Inr 0 \<and> ready env s' \<or>
       r = Inl Abort \<and> steady s' \<and> last (history s') = RegisterAsService ''default'' False"
  proof (cases "fd = -1")
    case True
    with run s show ?thesis by (auto simp: healthd_init_def fd_def initial_state_def)
  next
    case False
    then have "starting env s1"
      by (simp add: starting_def steady_def s1_def s initial_state_def initial_config_def timer_settings_def)
    obtain ri s2 where init: "run_state (op_init ?ops) s1 = (ri, s2)" by (rule run_state_obtain1)
    note i = hoareD [OF starting_init \<open>starting env s1\<close> init]
    obtain u s3 where wake: "run_state (wakealarm_init env) s2 = (u, s3)" by (rule run_state_obtain1)
    obtain v s4 where ue: "run_state (uevent_init env) s3 = (v, s4)" by (rule run_state_obtain1)
    have eq: "(r, s') = (case ri of Inl x \<Rightarrow> (Inl x, s2) | Inr _ \<Rightarrow> (Inr 0, s4))"
      using run False init wake ue
      by (auto simp: healthd_init_def s1_def s fd_def initial_state_def split: sum.splits)
    show ?thesis
    proof (cases ri)
      case (Inl x)
      with i eq show ?thesis by (auto simp: starting_def)
    next
      case (Inr x)
      with i have "starting env s2 \<and> hal_instance s2" by auto
      from keepsD [OF uevent_init_ready hoareD [OF wakealarm_init_ready this wake] ue] Inr eq
      show ?thesis by simp
    qed
  qed
qed

section \<open>The daemon as a state machine\<close>

text \<open>The states at the head of the main loop, with the number of events of the last wait.\<close>

inductive reachable :: "health_env \<Rightarrow> int \<Rightarrow> health_state \<Rightarrow> bool" for env where
  start: "run_state (healthd_init env (healthd_mode_service_2_0_ops env))
      (initial_state\<lparr>gInstanceName := ''default''\<rparr>) = (Inr 0, s) \<Longrightarrow> reachable env 0 s"
| iterate: "reachable env n s \<Longrightarrow>
    run_state (mainloop_iteration env (healthd_mode_service_2_0_ops env) n) s = (Inr (Some n'), s') \<Longrightarrow>
    reachable env n' s'"

lemma reachable_ready:
  assumes "recv_documented env"
  shows "reachable env n s \<Longrightarrow> ready env s"
proof (induction rule: reachable.induct)
  case (start s)
  from hoareD [OF healthd_init_ready refl start] show ?case by auto
next
  case (iterate n s n' s')
  from hoareD [OF service.iteration_ok [OF assms, of n] _ iterate(2)] iterate.IH show ?case by simp
qed

lemma mainloop_reachable:
  "reachable env n s \<Longrightarrow>
   run_state (healthd_mainloop fuel env (healthd_mode_service_2_0_ops env) n) s = (None, s') \<Longrightarrow>
   \<exists>n'. reachable env n' s'"
proof (induction fuel arbitrary: n s)
  case 0
  then show ?case by auto
next
  case (Suc fuel)
  obtain r s1 where iter: "run_state (mainloop_iteration env (healthd_mode_service_2_0_ops env) n) s = (r, s1)"
    by (rule run_state_obtain1)
  with Suc.prems(2) obtain n1 where r: "r = Inr (Some n1)"
    and rest: "run_state (healthd_mainloop fuel env (healthd_mode_service_2_0_ops env) n1) s1 = (None, s')"
    by (auto split: sum.splits option.splits)
  from reachable.iterate [OF Suc.prems(1) iter [unfolded r]] rest show ?case by (rule Suc.IH)
qed

lemma after_wait_stops:
  "run_state (after_wait env op (WaitError False)) s = (Inr None, s)"
  by (simp add: after_wait_def)

end
