(* ===== verification/Health_Properties.thy ===== *)
theory Health_Properties
  imports Healthd_Daemon
begin

text \<open>
  What the operations of the health service guarantee: the uevent scan and its handler, registering,
  unregistering and notifying listeners, the interval policy, and the health information. \<open>sample_health\<close>
  is a concrete environment for the closed instances.
\<close>

section \<open>A concrete environment, for closed instances\<close>

definition sample_message :: string where
  "sample_message = uevent_message [''change@/ac'', POWER_SUPPLY_STRING]"

definition sample_health :: health_env where
  "sample_health =
     \<lparr>env_epoll_create = (\<lambda>_. 5), env_epoll_ctl = (\<lambda>_ _. True),
      env_epoll_wait = (\<lambda>tr maxevents _. if waits tr = 0 \<and> 2 \<le> maxevents then WaitEvents [(Some Wakealarm_event, 1), (Some Binder_event, 1)]
         else WaitError (waits tr = 1)),
      env_timerfd_create = (\<lambda>_. 6), env_timerfd_settime = (\<lambda>_ _. True), env_timer_read = (\<lambda>_. True),
      env_uevent_open = (\<lambda>_. 7),
      env_uevent_recv = (\<lambda>_. (int (length sample_message), sample_message)),
      env_msg_garbage = (\<lambda>_. CHR ''x''), env_setup_polling = (\<lambda>_. 8),
      env_transport_poll = (\<lambda>_. [RegisterCallback (Some 1), GetHealthInfo]),
      env_register_service = (\<lambda>_. True), env_monitor_init = (\<lambda>c. c),
      env_monitor_current_avg = (\<lambda>_. (True, 2 ^ 32 + 5)),
      env_health_info_changed = (\<lambda>_ cb. if cb = 2 then Tx_dead else Tx_ok),
      env_interfacesEqual = (\<lambda>a b. a = b), env_toString = (\<lambda>_. ''info''),
      env_toString_result = (\<lambda>_. ''result'')\<rparr>"

lemma length_sample_message: "length sample_message = 34"
  by (simp add: sample_message_def uevent_message_def POWER_SUPPLY_STRING_def)

lemma sample_health_documented: "recv_documented sample_health"
  by (simp add: recv_documented_def sample_health_def length_sample_message)

lemma run_fst: "run_state m s = (fst (run_state m s), snd (run_state m s))"
  by simp

section \<open>Uevents\<close>

text \<open>C19: The scan of a uevent message is memory safe and exact. Whatever the uninitialised part of the 2050 byte array holds, for every message of fewer than 2048 bytes the scan stays inside the array, terminates, and finds \<open>SUBSYSTEM=power_supply\<close> exactly if it is one of the NUL-terminated strings before the first empty one.\<close>

theorem uevent_scan_exact:
  assumes "length received < UEVENT_MSG_LEN"
  shows "scan_msg (uevent_buffer garbage received (length received)) 0 =
    Some (POWER_SUPPLY_STRING \<in> set (uevent_strings received))"
proof -
  obtain rest where "uevent_buffer garbage received (length received) = received @ NUL # NUL # rest"
    using uevent_buffer_split [OF assms refl] by blast
  then show ?thesis by (intro scan_msg_correct) simp
qed

theorem uevent_scan_exact_witness:
  "scan_msg (uevent_buffer (\<lambda>_. CHR ''x'') ''SUBSYSTEM=power'' (length ''SUBSYSTEM=power'')) 0 = Some False"
proof -
  have "uevent_strings ''SUBSYSTEM=power'' = [''SUBSYSTEM=power'']"
    by (simp add: uevent_strings.simps c_str_def NUL_def)
  with uevent_scan_exact [of "''SUBSYSTEM=power''" "\<lambda>_. CHR ''x''"] show ?thesis
    by (simp add: UEVENT_MSG_LEN_def POWER_SUPPLY_STRING_def)
qed

text \<open>Round trip with the kernel's layout: for a message built from non-empty NUL-free strings, each followed by a NUL, the scan answers whether \<open>SUBSYSTEM=power_supply\<close> is among them.\<close>

theorem uevent_message_roundtrip:
  assumes "\<forall>s\<in>set ss. s \<noteq> [] \<and> NUL \<notin> set s" and "length (uevent_message ss) < UEVENT_MSG_LEN"
  shows "scan_msg (uevent_buffer garbage (uevent_message ss) (length (uevent_message ss))) 0 =
    Some (POWER_SUPPLY_STRING \<in> set ss)"
proof -
  obtain rest where "uevent_buffer garbage (uevent_message ss) (length (uevent_message ss)) =
      uevent_message ss @ NUL # NUL # rest"
    using uevent_buffer_split [OF assms(2) refl] by blast
  then have "drop 0 (uevent_buffer garbage (uevent_message ss) (length (uevent_message ss))) =
      uevent_message ss @ NUL # NUL # rest" by simp
  from scan_msg_correct [OF this] uevent_strings_message [OF assms(1)] show ?thesis by simp
qed

theorem uevent_message_roundtrip_witness:
  "scan_msg (uevent_buffer (\<lambda>_. NUL) sample_message (length sample_message)) 0 = Some True"
proof -
  have *: "\<forall>s\<in>set [''change@/ac'', POWER_SUPPLY_STRING]. s \<noteq> [] \<and> NUL \<notin> set s"
    by (simp add: POWER_SUPPLY_STRING_def NUL_def)
  have "length (uevent_message [''change@/ac'', POWER_SUPPLY_STRING]) < UEVENT_MSG_LEN"
    by (simp add: uevent_message_def POWER_SUPPLY_STRING_def UEVENT_MSG_LEN_def)
  from uevent_message_roundtrip [OF * this, of "\<lambda>_. NUL"] show ?thesis
    by (simp add: sample_message_def)
qed

text \<open>C11: The uevent handler. It receives once; it updates the battery exactly for a message that fits and names the power supply subsystem, and does nothing for an error, an overlong message or any other subsystem. It never reads outside its array.\<close>

theorem uevent_event_correct:
  assumes "recv_documented env" and "env_uevent_recv env (history s) = (n, received)"
  shows "run_state (uevent_event env ops) s =
    run_state (if 0 < n \<and> n < 2048 \<and> POWER_SUPPLY_STRING \<in> set (uevent_strings received)
               then healthd_battery_update env ops else returnOk ())
      (record_event (UeventRecv (uevent_fd s) n) s)"
proof (cases "0 < n \<and> n < int UEVENT_MSG_LEN")
  case True
  with scan_received [OF assms] recv_fits [OF assms] assms(2) show ?thesis
    by (auto simp: uevent_event_def record_event_def UEVENT_MSG_LEN_def)
next
  case False
  with recv_fits [OF assms] assms(2) show ?thesis
    by (auto simp: uevent_event_def record_event_def UEVENT_MSG_LEN_def)
qed

theorem uevent_event_correct_witness:
  "history (snd (run_state (uevent_event sample_health None) (initial_state\<lparr>hal_instance := True\<rparr>))) =
   [UeventRecv 0 (int (length sample_message))]"
proof -
  have recv: "env_uevent_recv sample_health tr = (int (length sample_message), sample_message)" for tr
    by (simp add: sample_health_def)
  from uevent_event_correct [OF sample_health_documented recv, of None "initial_state\<lparr>hal_instance := True\<rparr>"]
  show ?thesis
    by (simp add: healthd_battery_update_def getImplementation_def update_def record_event_def initial_state_def)
qed

section \<open>Listeners\<close>

lemma unregister_loop_filter:
  "unregister_loop same cbs removed = (filter (\<lambda>c. \<not> same c) cbs, removed \<or> (\<exists>c\<in>set cbs. same c))"
  by (induction cbs arbitrary: removed) auto

text \<open>Unregistering removes every registration of the interface, keeps all others in order, unlinks once, and reports \<open>NOT_FOUND\<close> exactly if there was none; a null callback changes nothing.\<close>

theorem unregister_removes_all:
  "run_state (unregisterCallback env callback) s =
     (case callback of
        None \<Rightarrow> (NOT_FOUND, s)
      | Some cb \<Rightarrow>
          (if \<exists>c\<in>set (callbacks s). env_interfacesEqual env c cb then SUCCESS else NOT_FOUND,
           record_event (UnlinkToDeath cb)
             (s\<lparr>callbacks := filter (\<lambda>c. \<not> env_interfacesEqual env c cb) (callbacks s)\<rparr>)))"
  by (simp add: unregisterCallback_def unregisterCallbackInternal_def unregister_loop_filter
      record_event_def split: option.split)

lemma update_callbacks: "keeps (\<lambda>s. callbacks s = c) (update env ops)"
  unfolding update_def healthd_battery_update_internal_def wakealarm_set_interval_def
  by (auto intro!: keeps_rules simp: record_event_def)

text \<open>Registering and then unregistering the same callback succeeds, whatever the mode answers to the update in between, and leaves no registration of it, while all others stay as they were.\<close>

theorem register_unregister_roundtrip:
  assumes "env_interfacesEqual env cb cb"
    and "run_state (do { _ \<leftarrow> registerCallback env ops (Some cb); unregisterCallback env (Some cb) }) s = (r, s')"
  shows "r = SUCCESS \<and> callbacks s' = filter (\<lambda>c. \<not> env_interfacesEqual env c cb) (callbacks s)"
proof -
  obtain u s1 where upd: "run_state (update env ops)
      (record_event (LinkToDeath cb) (s\<lparr>callbacks := callbacks s @ [cb]\<rparr>)) = (u, s1)"
    by (rule run_state_obtain1)
  have "callbacks s1 = callbacks s @ [cb]"
    by (rule keepsD [OF update_callbacks _ upd]) (simp add: record_event_def)
  with assms upd show ?thesis
    by (auto simp: registerCallback_def unregisterCallback_def unregisterCallbackInternal_def
        unregister_loop_filter record_event_def)
qed

theorem register_unregister_roundtrip_witness:
  "callbacks (snd (run_state (do { _ \<leftarrow> registerCallback sample_health None (Some 3);
     unregisterCallback sample_health (Some 3) }) (initial_state\<lparr>callbacks := [1, 3]\<rparr>))) = [1]"
  using register_unregister_roundtrip [OF _ run_fst, of sample_health 3 None "initial_state\<lparr>callbacks := [1, 3]\<rparr>"]
  by (simp add: sample_health_def)

lemma notify_loop_spec:
  "run_state (notify_loop env info cbs) s = (kept, s') \<Longrightarrow>
   \<exists>rs. length rs = length cbs \<and>
     s' = s\<lparr>history := history s @ map2 (\<lambda>cb r. HealthInfoChanged cb info r) cbs rs\<rparr> \<and>
     kept = map fst (filter (\<lambda>(cb, r). r \<noteq> Tx_dead) (zip cbs rs))"
proof (induction cbs arbitrary: s kept s')
  case Nil
  then show ?case by simp
next
  case (Cons cb cbs)
  let ?r = "env_health_info_changed env (history s) cb"
  let ?s = "s\<lparr>history := history s @ [HealthInfoChanged cb info ?r]\<rparr>"
  obtain kept1 s1 where rest: "run_state (notify_loop env info cbs) ?s = (kept1, s1)"
    by (rule run_state_obtain1)
  from Cons.IH [OF rest] obtain rs where rs: "length rs = length cbs"
    "s1 = ?s\<lparr>history := history ?s @ map2 (\<lambda>cb r. HealthInfoChanged cb info r) cbs rs\<rparr>"
    "kept1 = map fst (filter (\<lambda>(cb, r). r \<noteq> Tx_dead) (zip cbs rs))" by blast
  from Cons.prems rest have "s' = s1" "kept = (if ?r = Tx_dead then kept1 else cb # kept1)"
    by (auto simp: isOk_def isDeadObject_def)
  with rs show ?case by (intro exI [of _ "?r # rs"]) simp
qed

text \<open>C38: \<open>notifyListeners\<close> calls every registered listener once, in the order of registration, all with the same information, and drops exactly those whose process turned out to be dead; any other failure keeps the listener.\<close>

theorem notify_drops_exactly_the_dead:
  assumes "run_state (notifyListeners env) s = (info, s')"
  shows "\<exists>ok v rs. env_monitor_current_avg env (history s) = (ok, v) \<and>
    info = health_info (if ok then ucast v else 0) [] [] \<and> length rs = length (callbacks s) \<and>
    history s' = history s @ MonitorGetCurrentAvg ok v #
      map2 (\<lambda>cb r. HealthInfoChanged cb info r) (callbacks s) rs \<and>
    callbacks s' = map fst (filter (\<lambda>(cb, r). r \<noteq> Tx_dead) (zip (callbacks s) rs))"
proof -
  obtain ok v where avg: "env_monitor_current_avg env (history s) = (ok, v)" by (rule prod.exhaust)
  let ?info = "health_info (if ok then ucast v else 0) [] []"
  let ?s = "record_event (MonitorGetCurrentAvg ok v) s"
  obtain kept s1 where loop: "run_state (notify_loop env ?info (callbacks s)) ?s = (kept, s1)"
    by (rule run_state_obtain1)
  from notify_loop_spec [OF loop] obtain rs where "length rs = length (callbacks s)"
    "s1 = ?s\<lparr>history := history ?s @ map2 (\<lambda>cb r. HealthInfoChanged cb ?info r) (callbacks s) rs\<rparr>"
    "kept = map fst (filter (\<lambda>(cb, r). r \<noteq> Tx_dead) (zip (callbacks s) rs))" by blast
  moreover from assms avg loop have "info = ?info" "s' = s1\<lparr>callbacks := kept\<rparr>"
    by (auto simp: notifyListeners_def current_average_def get_storage_info_def get_disk_stats_def
        record_event_def)
  ultimately show ?thesis using avg by (auto simp: record_event_def)
qed

theorem notify_drops_exactly_the_dead_witness:
  "callbacks (snd (run_state (notifyListeners sample_health) (initial_state\<lparr>callbacks := [1, 2, 3, 2]\<rparr>))) = [1, 3]"
proof -
  have run: "callbacks (snd (run_state (notifyListeners sample_health) (initial_state\<lparr>callbacks := [1, 2, 3, 2]\<rparr>))) = [1, 3]"
    by (simp add: notifyListeners_def current_average_def sample_health_def isOk_def isDeadObject_def)
  from notify_drops_exactly_the_dead [OF run_fst, of sample_health "initial_state\<lparr>callbacks := [1, 2, 3, 2]\<rparr>"] run
  show ?thesis by blast
qed

section \<open>Intervals\<close>

text \<open>The interval policy, for both states of the charger and every configuration. The timer is armed (an interval of -1 as 0, that is disarmed) exactly when there is a timer and the interval changes, and polling while awake is off when the alarm already runs at the fast rate.\<close>

theorem wake_interval_policy:
  assumes "fast = periodic_chores_interval_fast (healthd_config s)"
    and "new = (if online then fast else periodic_chores_interval_slow (healthd_config s))"
  shows "run_state (healthd_battery_update_internal env online) s =
     ((), s\<lparr>wakealarm_wake_interval := (if wakealarm_fd s = -1 then wakealarm_wake_interval s else new),
            history := history s @
              (if new \<noteq> wakealarm_wake_interval s \<and> wakealarm_fd s \<noteq> -1
               then (let t = if new = -1 then 0 else new
                     in [TimerSetInterval (wakealarm_fd s) t (env_timerfd_settime env (history s) t)]) else []),
            awake_poll_interval := (if fast = -1 \<or> new = fast then -1 else fast * 1000)\<rparr>)"
  using assms by (auto simp: healthd_battery_update_internal_def wakealarm_set_interval_def Let_def)

theorem wake_interval_policy_witness:
  "awake_poll_interval (snd (run_state (healthd_battery_update_internal sample_health False) initial_state)) = 60000"
  using wake_interval_policy [OF refl refl, of sample_health False initial_state]
  by (simp add: initial_state_def initial_config_def)

text \<open>What \<open>update\<close> does and does not. Without a mode it answers \<open>UNKNOWN\<close> and changes nothing. With one it answers \<open>SUCCESS\<close> and never calls \<open>battery_update\<close>, hence no listener: it only adjusts the intervals, and these are the fast ones because the charger counts as online. (The comment in \<open>Health::update\<close> says that \<open>battery_update\<close> is called, which calls \<open>notifyListeners\<close>.)\<close>

theorem update_only_adjusts_intervals:
  "run_state (update env None) s = (UNKNOWN, s) \<and>
   run_state (update env (Some (healthd_mode_service_2_0_ops env))) s =
     (SUCCESS, snd (run_state (healthd_battery_update_internal env True) s))"
  by (cases "run_state (healthd_battery_update_internal env True) s")
     (simp add: update_def healthd_mode_service_2_0_ops_def)

section \<open>Answers to clients\<close>

text \<open>The health information a client gets: \<open>update\<close> is run first but its result is ignored, and the answer is always \<open>SUCCESS\<close> with battery level 100, full, on AC power, and the monitor's 64-bit current average cut to 32 bits, or 0 when the monitor refuses. (\<open>getCapacity\<close> of the same battery answers 1.)\<close>

theorem health_info_answer:
  assumes "run_state (update env ops) s = (u, s1)" and "env_monitor_current_avg env (history s1) = (ok, v)"
  shows "run_state (handle_health_request env ops GetHealthInfo) s =
     ((), record_event (Answer (ReplyHealthInfo SUCCESS (health_info (if ok then ucast v else 0) [] [])))
            (record_event (MonitorGetCurrentAvg ok v) s1)) \<and>
     batteryLevel (legacy (health_info (if ok then ucast v else 0) [] [])) = 100 \<and>
     run_state (handle_health_request env ops GetCapacity) s =
     ((), record_event (Answer (ReplyInt SUCCESS 1)) s)"
  using assms
  by (simp add: getHealthInfo_def current_average_def answer_def get_storage_info_def get_disk_stats_def
      record_event_def health_info_def getCapacity_def getProperty_def kBatteryPropCapacity_def)

theorem health_info_answer_witness:
  "last (history (snd (run_state (handle_health_request sample_health None GetHealthInfo) initial_state))) =
   Answer (ReplyHealthInfo SUCCESS (health_info 5 [] []))"
proof -
  have avg: "env_monitor_current_avg sample_health tr = (True, 2 ^ 32 + 5)" for tr
    by (simp add: sample_health_def)
  have "(4294967301 :: i32) = 5" by code_simp
  with health_info_answer [OF _ avg, of None initial_state UNKNOWN initial_state] show ?thesis
    by (simp add: update_def record_event_def)
qed

end
