(* ===== verification/Health_Registry.thy ===== *)
theory Health_Registry
  imports Health_Properties
begin

text \<open>
  The listener registry of Health.cpp against its abstract specification: whatever the service has gone
  through, the registered callbacks are what the requests delivered so far determine, and a callback
  is among them exactly if it was registered after it was last withdrawn.
\<close>

section \<open>Specification\<close>

text \<open>A registry seen from outside: a request may add one listener and withdraw some.\<close>

locale listener_registry =
  fixes handle :: "'e \<Rightarrow> 'r \<Rightarrow> 's \<Rightarrow> 's"
    and listeners :: "'s \<Rightarrow> 'cb list"
    and adds :: "'r \<Rightarrow> 'cb list"
    and withdraws :: "'e \<Rightarrow> 'cb \<Rightarrow> 'r \<Rightarrow> bool"
  assumes handle_listeners:
    "listeners (handle e r s) = filter (\<lambda>c. \<not> withdraws e c r) (listeners s) @ adds r"
begin

definition registry_step :: "'e \<Rightarrow> 'r \<Rightarrow> 'cb list \<Rightarrow> 'cb list" where
  "registry_step e r L = filter (\<lambda>c. \<not> withdraws e c r) L @ adds r"

lemma listeners_fold:
  "listeners (fold (handle e) rs s) = fold (registry_step e) rs (listeners s)"
  by (induction rs arbitrary: s) (simp_all add: handle_listeners registry_step_def)

text \<open>\<open>c\<close> was added, and not withdrawn since.\<close>

definition standing :: "'e \<Rightarrow> 'cb \<Rightarrow> 'r list \<Rightarrow> bool" where
  "standing e c rs \<longleftrightarrow>
     (\<exists>xs r ys. rs = xs @ r # ys \<and> c \<in> set (adds r) \<and> (\<forall>r' \<in> set ys. \<not> withdraws e c r'))"

lemma standing_Nil: "\<not> standing e c []"
  by (simp add: standing_def)

lemma standing_snoc:
  "standing e c (rs @ [q]) \<longleftrightarrow> c \<in> set (adds q) \<or> \<not> withdraws e c q \<and> standing e c rs"
  (is "?l \<longleftrightarrow> ?r")
proof
  assume ?l
  then obtain xs r ys where eq: "rs @ [q] = xs @ r # ys" "c \<in> set (adds r)"
    "\<forall>r' \<in> set ys. \<not> withdraws e c r'" by (auto simp: standing_def)
  show ?r
  proof (cases ys rule: rev_cases)
    case Nil
    with eq show ?thesis by simp
  next
    case (snoc zs z)
    with eq show ?thesis by (auto simp: standing_def)
  qed
next
  assume ?r
  then show ?l
  proof (elim disjE conjE)
    assume "c \<in> set (adds q)"
    then show ?l unfolding standing_def by (intro exI [of _ rs] exI [of _ q] exI [of _ "[]"]) simp
  next
    assume q: "\<not> withdraws e c q" and "standing e c rs"
    then obtain xs r ys where "rs = xs @ r # ys" "c \<in> set (adds r)" "\<forall>r' \<in> set ys. \<not> withdraws e c r'"
      by (auto simp: standing_def)
    with q show ?l unfolding standing_def by (intro exI [of _ xs] exI [of _ r] exI [of _ "ys @ [q]"]) auto
  qed
qed

lemma in_registry:
  "c \<in> set (fold (registry_step e) rs L) \<longleftrightarrow>
     c \<in> set L \<and> (\<forall>r \<in> set rs. \<not> withdraws e c r) \<or> standing e c rs"
  by (induction rs rule: rev_induct) (auto simp: registry_step_def standing_Nil standing_snoc)

end

text \<open>The requests of the health service: \<open>registerCallback\<close> adds, \<open>unregisterCallback\<close> and a death notice
  withdraw every registration of the same interface.\<close>

fun registers :: "health_request \<Rightarrow> health_callback list" where
  "registers (RegisterCallback (Some cb)) = [cb]"
| "registers _ = []"

fun withdraws :: "health_env \<Rightarrow> health_callback \<Rightarrow> health_request \<Rightarrow> bool" where
  "withdraws env cb (UnregisterCallback (Some c)) = env_interfacesEqual env cb c"
| "withdraws env cb (ServiceDied (Some c)) = env_interfacesEqual env cb c"
| "withdraws env cb _ = False"

definition registry :: "health_env \<Rightarrow> health_request list \<Rightarrow> health_callback list" where
  "registry env rs = fold (\<lambda>r L. filter (\<lambda>c. \<not> withdraws env c r) L @ registers r) rs []"

text \<open>The requests that the HIDL runtime has delivered, in order.\<close>

fun delivery :: "health_event \<Rightarrow> health_request list" where
  "delivery (HandleTransportPoll _ rs) = rs"
| "delivery _ = []"

definition delivered :: "health_trace \<Rightarrow> health_request list" where
  "delivered tr = concat (map delivery tr)"

section \<open>One request\<close>

lemma callbacks_update_internal: "keeps (\<lambda>s. P (callbacks s)) (healthd_battery_update_internal env b)"
  unfolding healthd_battery_update_internal_def wakealarm_set_interval_def
  by (auto intro!: keeps_rules simp: record_event_def)

lemma callbacks_update: "keeps (\<lambda>s. P (callbacks s)) (update env ops)"
  unfolding update_def by (auto intro!: keeps_rules callbacks_update_internal)

lemma callbacks_getHealthInfo:
  "(\<And>r i. keeps (\<lambda>s. P (callbacks s)) (cb r i)) \<Longrightarrow> keeps (\<lambda>s. P (callbacks s)) (getHealthInfo env ops cb)"
  unfolding getHealthInfo_def current_average_def
  by (auto intro!: keeps_rules callbacks_update simp: record_event_def split: prod.split)

lemma callbacks_answer: "keeps (\<lambda>s. P (callbacks s)) (answer r)"
  unfolding answer_def by (auto intro!: keeps_rules simp: record_event_def)

lemma callbacks_request:
  assumes "run_state (handle_health_request env ops r) s = (u, s')"
  shows "callbacks s' = filter (\<lambda>c. \<not> withdraws env c r) (callbacks s) @ registers r"
proof -
  have keep: "callbacks s' = callbacks s"
    if "keeps (\<lambda>x. callbacks x = callbacks s) (handle_health_request env ops r)"
    using keepsD [OF that refl assms] .
  note rules = keeps_rules callbacks_update callbacks_getHealthInfo callbacks_answer
  show ?thesis
  proof (cases r)
    case (RegisterCallback cb)
    show ?thesis
    proof (cases cb)
      case None
      with RegisterCallback assms show ?thesis by (auto simp: registerCallback_def answer_def)
    next
      case (Some c)
      have "hoare (\<lambda>x. x = s) (handle_health_request env ops r) (\<lambda>_ x. callbacks x = callbacks s @ [c])"
        unfolding RegisterCallback Some handle_health_request.simps registerCallback_def option.case
        by (rule hoare_bind [where R = "\<lambda>_ x. callbacks x = callbacks s @ [c]"],
            rule hoare_bind [where R = "\<lambda>_ x. callbacks x = callbacks s @ [c]"])
           (auto simp: hoare_def [of _ "modify _"] simp flip: keeps_def
             intro!: keeps_rules callbacks_update callbacks_answer simp: record_event_def)
      from hoareD [OF this refl assms] RegisterCallback Some show ?thesis by simp
    qed
  next
    case (UnregisterCallback cb)
    with assms show ?thesis
      by (cases cb) (auto simp: unregisterCallback_def unregisterCallbackInternal_def unregister_loop_filter
          answer_def)
  next
    case (ServiceDied who)
    with assms show ?thesis
      by (cases who) (auto simp: serviceDied_def unregisterCallbackInternal_def unregister_loop_filter)
  next
    case (Debug handle)
    then have "keeps (\<lambda>x. callbacks x = callbacks s) (handle_health_request env ops r)"
      by (auto simp: debug_def debug_lambda_def write_string_def record_event_def intro!: rules
          split: option.split list.split)
    with keep Debug show ?thesis by simp
  next
    case GetHealthInfo
    then have "keeps (\<lambda>x. callbacks x = callbacks s) (handle_health_request env ops r)"
      by (auto intro!: rules)
    with keep GetHealthInfo show ?thesis by simp
  next
    case Update
    then have "keeps (\<lambda>x. callbacks x = callbacks s) (handle_health_request env ops r)"
      by (auto intro!: rules)
    with keep Update show ?thesis by simp
  qed (use assms in \<open>simp_all add: getChargeCounter_def getCurrentNow_def getCurrentAverage_def
    getCapacity_def getEnergyCounter_def getChargeStatus_def getStorageInfo_def getDiskStats_def
    getProperty_def answer_def get_storage_info_def get_disk_stats_def\<close>, auto)
qed

text \<open>The \<open>Health\<close> object is a registry, in any mode.\<close>

interpretation health: listener_registry
  "\<lambda>env r s. snd (run_state (handle_health_request env ops r) s)" callbacks registers withdraws
  for ops :: "healthd_mode_ops option"
proof
  fix env r and s :: health_state
  show "callbacks (snd (run_state (handle_health_request env ops r) s)) =
      filter (\<lambda>c. \<not> withdraws env c r) (callbacks s) @ registers r"
    by (rule callbacks_request [OF run_fst])
qed

lemma requests_fold:
  "snd (run_state (handle_health_requests env ops rs) s) =
   fold (\<lambda>r s. snd (run_state (handle_health_request env ops r) s)) rs s"
  by (induction rs arbitrary: s) (auto split: prod.split simp: case_prod_unfold)

lemma registry_fold: "registry env rs = fold (health.registry_step env) rs []"
  by (simp add: registry_def health.registry_step_def [abs_def])

lemma requests_registry:
  assumes "run_state (handle_health_requests env ops rs) s = (u, s')" and "callbacks s = registry env qs"
  shows "callbacks s' = registry env (qs @ rs)"
  using requests_fold [of env ops rs s] assms health.listeners_fold [of env ops rs s]
  by (simp add: registry_fold)

section \<open>The life of the service\<close>

definition registry_inv :: "health_env \<Rightarrow> health_state \<Rightarrow> bool" where
  "registry_inv env s \<longleftrightarrow> callbacks s = registry env (delivered (history s))"

lemma delivered_append [simp]: "delivered (tr @ tr') = delivered tr @ delivered tr'"
  by (simp add: delivered_def)

lemma delivered_simps [simp]: "delivered [] = []" "delivered (e # tr) = delivery e @ delivered tr"
  by (simp_all add: delivered_def)

text \<open>Whatever neither delivers requests nor touches the callbacks keeps both.\<close>

definition registry_frame :: "health_callback list \<Rightarrow> health_request list \<Rightarrow> health_state \<Rightarrow> bool" where
  "registry_frame cbs rs s \<longleftrightarrow> callbacks s = cbs \<and> delivered (history s) = rs"

lemma frame_call: "(\<And>r. delivery (ev r) = []) \<Longrightarrow> keeps (registry_frame cbs rs) (hcall reply ev)"
  by (auto intro!: keeps_hcall simp: registry_frame_def record_event_def)

lemma frame_battery_update: "keeps (registry_frame cbs rs) (healthd_battery_update env ops)"
  unfolding healthd_battery_update_def getImplementation_def update_def healthd_battery_update_internal_def
    wakealarm_set_interval_def
  by (auto intro!: keeps_rules frame_call simp: registry_frame_def)

lemma frame_register_event: "keeps (registry_frame cbs rs) (healthd_register_event env fd h w)"
  unfolding healthd_register_event_def by (auto intro!: keeps_rules frame_call simp: registry_frame_def)

lemma frame_inits:
  "keeps (registry_frame [] []) (initInstance env)" "keeps (registry_frame cbs rs) (wakealarm_init env)"
  "keeps (registry_frame cbs rs) (uevent_init env)"
  unfolding initInstance_def new_Health_def wakealarm_init_def uevent_init_def wakealarm_set_interval_def
  by (auto intro!: keeps_rules frame_call frame_register_event simp: registry_frame_def)

lemma frame_init: "keeps (registry_frame [] []) (healthd_init env (healthd_mode_service_2_0_ops env))"
  unfolding healthd_init_def healthd_mode_service_2_0_ops_def healthd_mode_service_2_0_init_def
    healthd_mode_ops.simps
  by (auto intro!: keeps_rules frame_call frame_register_event frame_inits simp: registry_frame_def)

text \<open>Handling a request delivers none.\<close>

lemma undelivered_call: "(\<And>r. delivery (ev r) = []) \<Longrightarrow> keeps (\<lambda>s. delivered (history s) = d) (hcall reply ev)"
  by (auto intro!: keeps_hcall simp: record_event_def)

lemma undelivered_parts:
  "keeps (\<lambda>s. delivered (history s) = d) (update env ops)"
  "keeps (\<lambda>s. delivered (history s) = d) (current_average env)"
  "keeps (\<lambda>s. delivered (history s) = d) (unregisterCallbackInternal env cb)"
  "keeps (\<lambda>s. delivered (history s) = d) (answer x)"
  unfolding update_def healthd_battery_update_internal_def wakealarm_set_interval_def current_average_def
    unregisterCallbackInternal_def answer_def
  by (auto intro!: keeps_rules undelivered_call split: prod.split option.split)

lemma undelivered_request: "keeps (\<lambda>s. delivered (history s) = d) (handle_health_request env ops r)"
  by (cases r)
     (auto simp: registerCallback_def unregisterCallback_def serviceDied_def getProperty_def Let_def
        getChargeCounter_def getCurrentNow_def getCurrentAverage_def getCapacity_def
        getEnergyCounter_def getChargeStatus_def getStorageInfo_def getDiskStats_def
        getHealthInfo_def debug_def debug_lambda_def write_string_def
        intro!: keeps_rules undelivered_call undelivered_parts split: option.split list.split)

lemma undelivered_requests: "keeps (\<lambda>s. delivered (history s) = d) (handle_health_requests env ops rs)"
  by (induction rs) (auto intro!: keeps_rules undelivered_request)

text \<open>A step that keeps every frame keeps the registry.\<close>

lemma registry_of_frame:
  assumes "\<And>cbs rs. keeps (registry_frame cbs rs) m"
  shows "keeps (registry_inv env) m"
proof (rule keepsI)
  fix s r s'
  assume "registry_inv env s" "run_state m s = (r, s')"
  with keepsD [OF assms, of "callbacks s" "delivered (history s)" s r s'] show "registry_inv env s'"
    by (simp add: registry_frame_def registry_inv_def)
qed

lemma registry_binder: "keeps (registry_inv env) (binder_event env ops)"
proof (rule keepsI)
  fix s r s'
  assume I: "registry_inv env s" and run: "run_state (binder_event env ops) s = (r, s')"
  show "registry_inv env s'"
  proof (cases "0 \<le> gBinderFd s")
    case True
    let ?rs = "env_transport_poll env (history s)"
    let ?s = "s\<lparr>history := history s @ [HandleTransportPoll (gBinderFd s) ?rs]\<rparr>"
    have req: "run_state (handle_health_requests env ops ?rs) ?s = ((), s')"
      using run True by (simp add: binder_event_def prod_eq_iff case_prod_unfold)
    from requests_registry [OF this, of "delivered (history s)"] I
    have "callbacks s' = registry env (delivered (history s) @ ?rs)" by (simp add: registry_inv_def)
    moreover from keepsD [OF undelivered_requests refl req]
    have "delivered (history s') = delivered (history s) @ ?rs" by simp
    ultimately show ?thesis by (simp add: registry_inv_def)
  next
    case False
    with I run show ?thesis by (simp add: binder_event_def)
  qed
qed

lemma registry_iteration:
  "keeps (registry_inv env) (mainloop_iteration env (healthd_mode_service_2_0_ops env) n)"
proof -
  let ?ops = "healthd_mode_service_2_0_ops env"
  have upd: "keeps (registry_inv env) (healthd_battery_update env ops)" for ops
    by (rule registry_of_frame) (rule frame_battery_update)
  have call: "(\<And>r. delivery (ev r) = []) \<Longrightarrow> keeps (registry_inv env) (hcall reply ev)" for reply ev
    by (rule registry_of_frame) (rule frame_call)
  have "keeps (registry_inv env) (run_handler env ops h)" for ops h
    by (cases h)
       (auto simp: uevent_event_def wakealarm_event_def periodic_chores_def
         intro!: keeps_rules upd call registry_binder split: prod.split option.split bool.split)
  then have "keeps (registry_inv env) (dispatch_events env ?ops es)" for es
    by (induction es) (auto intro!: keeps_rules split: option.split)
  then show ?thesis
    unfolding mainloop_iteration_def periodic_chores_def
    by (auto simp: healthd_mode_service_2_0_ops_def healthd_mode_service_2_0_heartbeat_def
        healthd_mode_service_2_0_preparetowait_def intro!: keeps_rules upd call split: wait_result.split)
qed

lemma registry_mainloop:
  "keeps (registry_inv env) (healthd_mainloop fuel env (healthd_mode_service_2_0_ops env) n)"
  by (induction fuel arbitrary: n)
     (auto intro!: keeps_rules registry_iteration split: sum.split option.split)

text \<open>C12: The registry refines its specification, over the whole life of the service. However long it has run, whatever it was sent and however the run ends, the registered callbacks are exactly what the delivered requests determine, in order and with multiplicity; and a callback is among them if and only if it was registered and no later request, an unregistration or a death notice, withdrew that interface.\<close>

theorem health_registry_refines_spec:
  assumes "run_state (service_main fuel env) initial_state = (r, s)"
  shows "callbacks s = registry env (delivered (history s)) \<and>
     (\<forall>cb. cb \<in> set (callbacks s) \<longleftrightarrow>
        (\<exists>xs q ys. delivered (history s) = xs @ q # ys \<and> cb \<in> set (registers q) \<and>
                   (\<forall>q' \<in> set ys. \<not> withdraws env cb q')))"
proof -
  let ?ops = "healthd_mode_service_2_0_ops env"
  have start: "registry_inv env s" if "registry_frame [] [] s" for s
    using that by (simp add: registry_frame_def registry_inv_def registry_def)
  have name: "keeps (registry_frame [] [])
      (modify (\<lambda>s. if gInstanceName s = [] then s\<lparr>gInstanceName := ''default''\<rparr> else s))"
    by (rule keeps_modify) (simp add: registry_frame_def)
  have init: "hoare (registry_frame [] []) (healthd_init env ?ops) (\<lambda>_. registry_inv env)"
    using frame_init unfolding keeps_def by (rule hoare_weaken) (auto intro: start)
  have rest: "keeps (registry_inv env) (case ret of Inl stop \<Rightarrow> return (Some (Inl stop))
      | Inr ret \<Rightarrow>
          if ret \<noteq> 0 then return (Some (Inl (Exit 2)))
          else healthd_mainloop fuel env ?ops 0 \<bind> (\<lambda>r. return (case r of None \<Rightarrow> None
              | Some (Inl stop) \<Rightarrow> Some (Inl stop) | Some (Inr _) \<Rightarrow> Some (Inr 3))))" for ret
    by (auto intro!: keeps_rules registry_mainloop split: sum.split)
  have "hoare (registry_frame [] []) (service_main fuel env) (\<lambda>_. registry_inv env)"
    unfolding service_main_def healthd_main_def option.case
    by (rule hoare_bind [OF name [unfolded keeps_def]], rule hoare_bind [OF init],
        rule rest [unfolded keeps_def])
  moreover have "registry_frame [] [] initial_state" by (simp add: registry_frame_def initial_state_def)
  ultimately have inv: "registry_inv env s" using assms by (rule hoareD)
  then show ?thesis
    using health.in_registry [of _ env "delivered (history s)" "[]"]
    by (simp add: registry_inv_def registry_fold health.standing_def)
qed

theorem health_registry_refines_spec_witness:
  "callbacks (snd (run_state (service_main 3 sample_health) initial_state)) = [1] \<and>
   1 \<in> set (registry sample_health (delivered (history (snd (run_state (service_main 3 sample_health) initial_state)))))"
proof -
  have "callbacks (snd (run_state (service_main 3 sample_health) initial_state)) = [1]"
    by code_simp
  then show ?thesis using health_registry_refines_spec [OF run_fst, of 3 sample_health] by simp
qed

end
