(* ===== verification/Shared_Pool.thy ===== *)
theory Shared_Pool
  imports Prelude
begin

text \<open>
  Threads that share memory: a pool is a shared state and a list of threads, and a step is one atomic
  access of one of them, given by an executable function that answers \<open>None\<close> when the thread cannot
  move. Invariants are proved thread by thread, in the manner of Owicki and Gries: each holds between
  one thread and the shared state, is kept by the thread's own steps and not disturbed by those of
  others (locale \<open>thread_modular\<close>). A measure that every step decreases bounds all runs (locale
  \<open>pool_measure\<close>).
\<close>

section \<open>Pools and schedules\<close>

type_synonym ('s, 't) shared_pool = "'s \<times> 't list"

inductive shared_step ::
  "(nat \<Rightarrow> 's \<Rightarrow> 't \<Rightarrow> ('s \<times> 't) option) \<Rightarrow> ('s, 't) shared_pool \<Rightarrow> ('s, 't) shared_pool \<Rightarrow> bool" for step where
  move: "i < length ts \<Longrightarrow> step i s (ts ! i) = Some (s', t') \<Longrightarrow> shared_step step (s, ts) (s', ts[i := t'])"

inductive_cases shared_stepE: "shared_step step (s, ts) p"

text \<open>A run under a given schedule, the threads that move in order; \<open>None\<close> if one of them cannot.\<close>

primrec run_schedule ::
  "(nat \<Rightarrow> 's \<Rightarrow> 't \<Rightarrow> ('s \<times> 't) option) \<Rightarrow> nat list \<Rightarrow> ('s, 't) shared_pool \<Rightarrow> ('s, 't) shared_pool option" where
  "run_schedule step [] p = Some p"
| "run_schedule step (i # is) p =
     (if i < length (snd p)
      then case step i (fst p) (snd p ! i) of
             None \<Rightarrow> None
           | Some (s', t') \<Rightarrow> run_schedule step is (s', (snd p)[i := t'])
      else None)"

text \<open>A thread that moves while the others rest.\<close>

definition alone :: "(nat \<Rightarrow> 's \<Rightarrow> 't \<Rightarrow> ('s \<times> 't) option) \<Rightarrow> nat \<Rightarrow> 's \<times> 't \<Rightarrow> 's \<times> 't \<Rightarrow> bool" where
  "alone step i = (\<lambda>x y. step i (fst x) (snd x) = Some y)\<^sup>*\<^sup>*"

section \<open>Lemmas\<close>

lemma run_schedule_steps: "run_schedule step is p = Some p' \<Longrightarrow> (shared_step step ^^ length is) p p'"
proof (induction "is" arbitrary: p)
  case (Cons i "is")
  then obtain s' t' where "i < length (snd p)" "step i (fst p) (snd p ! i) = Some (s', t')"
    and rest: "run_schedule step is (s', (snd p)[i := t']) = Some p'"
    by (auto split: if_splits option.splits)
  then have "shared_step step p (s', (snd p)[i := t'])"
    using shared_step.move [of i "snd p" step "fst p" s' t'] by simp
  with Cons.IH [OF rest] show ?case
    by (simp add: relpowp_Suc_I2 del: relpowp.simps)
qed simp

lemma run_schedule_reachable: "run_schedule step is p = Some p' \<Longrightarrow> (shared_step step)\<^sup>*\<^sup>* p p'"
  by (rule relpowp_imp_rtranclp [OF run_schedule_steps])

lemma pool_stuck:
  assumes "\<not> (\<exists>p. shared_step step (s, ts) p)" and "i < length ts"
  shows "step i s (ts ! i) = None"
  using assms(1) shared_step.move [OF assms(2), of step s] by (cases "step i s (ts ! i)") fastforce+

lemma pool_stuckI: "(\<And>i. i < length ts \<Longrightarrow> step i s (ts ! i) = None) \<Longrightarrow> \<not> (\<exists>p. shared_step step (s, ts) p)"
  by (auto elim!: shared_stepE)

lemma alone_refl: "alone step i x x"
  by (simp add: alone_def)

lemma alone_trans: "alone step i x y \<Longrightarrow> alone step i y z \<Longrightarrow> alone step i x z"
  unfolding alone_def by (rule rtranclp_trans)

lemma alone_step: "step i s t = Some y \<Longrightarrow> alone step i y z \<Longrightarrow> alone step i (s, t) z"
  unfolding alone_def by (rule converse_rtranclp_into_rtranclp) simp_all

lemma alone_one: "step i s t = Some y \<Longrightarrow> alone step i (s, t) y"
  by (erule alone_step) (rule alone_refl)

lemma alone_schedule:
  assumes "alone step i (s, t) (s', t')" and "i < length ts" and "ts ! i = t"
  shows "\<exists>n. run_schedule step (replicate n i) (s, ts) = Some (s', ts[i := t'])"
  using assms(1)[unfolded alone_def] assms(2,3)
proof (induction "(s, t)" arbitrary: s t ts rule: converse_rtranclp_induct)
  case base
  then show ?case by (intro exI [of _ 0]) auto
next
  case (step y)
  obtain s1 t1 where y: "y = (s1, t1)" by (rule prod.exhaust)
  from step(3) [OF y, of "ts[i := t1]"] step(4)
  obtain n where "run_schedule step (replicate n i) (s1, ts[i := t1]) = Some (s', ts[i := t'])"
    by auto
  with step(1,4,5) y show ?case by (intro exI [of _ "Suc n"]) simp
qed

lemma sum_list_update:
  "i < length xs \<Longrightarrow> (\<Sum>x\<leftarrow>xs[i := y]. f x) + f (xs ! i) = (\<Sum>x\<leftarrow>xs. f x) + (f y :: nat)"
  by (induction xs arbitrary: i) (auto split: nat.split)

section \<open>Invariants, thread by thread\<close>

text \<open>\<open>own i s t\<close> is between thread \<open>i\<close> and the shared state; \<open>glob n s\<close> is on the state alone, \<open>n\<close> threads
  running.\<close>

locale thread_modular =
  fixes step :: "nat \<Rightarrow> 's \<Rightarrow> 't \<Rightarrow> ('s \<times> 't) option"
    and own :: "nat \<Rightarrow> 's \<Rightarrow> 't \<Rightarrow> bool"
    and glob :: "nat \<Rightarrow> 's \<Rightarrow> bool"
  assumes own_kept: "step i s t = Some (s', t') \<Longrightarrow> own i s t \<Longrightarrow> own i s' t'"
    and own_undisturbed: "step i s t = Some (s', t') \<Longrightarrow> own i s t \<Longrightarrow> j \<noteq> i \<Longrightarrow> own j s u \<Longrightarrow> own j s' u"
    and glob_kept: "step i s t = Some (s', t') \<Longrightarrow> own i s t \<Longrightarrow> i < n \<Longrightarrow> glob n s \<Longrightarrow> glob n s'"
begin

definition pool_ok :: "nat \<Rightarrow> ('s, 't) shared_pool \<Rightarrow> bool" where
  "pool_ok n p \<longleftrightarrow> length (snd p) = n \<and> glob n (fst p) \<and> (\<forall>i < n. own i (fst p) (snd p ! i))"

lemma pool_ok_step: "shared_step step p p' \<Longrightarrow> pool_ok n p \<Longrightarrow> pool_ok n p'"
proof (induction rule: shared_step.induct)
  case (move i ts s s' t')
  then have i: "i < n" "own i s (ts ! i)" by (auto simp: pool_ok_def)
  have "own j s' (ts[i := t'] ! j)" if "j < n" for j
    using own_kept [OF move.hyps(2) i(2)] own_undisturbed [OF move.hyps(2) i(2), of j "ts ! j"] move that
    by (cases "j = i") (auto simp: pool_ok_def)
  with glob_kept [OF move.hyps(2) i(2,1)] move.prems show ?case by (simp add: pool_ok_def)
qed

lemma pool_ok_reachable: "(shared_step step)\<^sup>*\<^sup>* p p' \<Longrightarrow> pool_ok n p \<Longrightarrow> pool_ok n p'"
  by (induction rule: rtranclp_induct) (auto intro: pool_ok_step)

lemma pool_okD:
  "pool_ok n (s, ts) \<Longrightarrow> length ts = n \<and> glob n s"
  "pool_ok n (s, ts) \<Longrightarrow> i < n \<Longrightarrow> own i s (ts ! i)"
  by (simp_all add: pool_ok_def)

end

section \<open>Bounded runs\<close>

locale pool_measure =
  fixes step :: "nat \<Rightarrow> 's \<Rightarrow> 't \<Rightarrow> ('s \<times> 't) option"
    and inv :: "('s, 't) shared_pool \<Rightarrow> bool"
    and measure_of :: "('s, 't) shared_pool \<Rightarrow> nat"
  assumes inv_kept: "shared_step step p p' \<Longrightarrow> inv p \<Longrightarrow> inv p'"
    and decreases: "shared_step step p p' \<Longrightarrow> inv p \<Longrightarrow> measure_of p' < measure_of p"
begin

lemma run_bounded:
  "(shared_step step ^^ n) p p' \<Longrightarrow> inv p \<Longrightarrow> inv p' \<and> n + measure_of p' \<le> measure_of p"
proof (induction n arbitrary: p')
  case (Suc n)
  then obtain q where "(shared_step step ^^ n) p q" "shared_step step q p'" by auto
  with Suc decreases [of q p'] inv_kept [of q p'] show ?case by fastforce
qed simp

end

end
