(* ===== verification/Health_Mutex.thy ===== *)
theory Health_Mutex
  imports Health_Registry Thread_Pool Shared_Pool
begin

text \<open>
  The \<open>Health\<close> object of Health.cpp when several threads use it: \<open>callbacks_lock_\<close> of Health.h, the
  critical sections it opens, the loops over \<open>callbacks_\<close> as the code runs them, in place and one
  iterator position at a time, and \<open>update\<close>, which writes globals that no lock guards. A thread is a program counter with the requests it still has to serve; a
  step is one access to what the threads share. The lemmas show what the lock is worth: the list has
  one writer, iterators stay valid, and every critical section is one operation of the registry.
\<close>

section \<open>Threads\<close>

text \<open>What a thread is asked to do: a request of a client, or \<open>notifyListeners\<close>, which is not one.\<close>

datatype health_call = Request health_request | NotifyListeners

text \<open>\<open>unregisterCallbackInternal\<close> has two callers; they differ in what they do with its result.\<close>

datatype withdrawal = By_unregisterCallback | By_serviceDied

text \<open>\<open>update\<close> is called by \<open>registerCallback\<close>, by clients and by \<open>getHealthInfo\<close>; the latter by clients and by
  \<open>debug\<close>, whose lambda prints to the first descriptor of its handle.\<close>

datatype report = To_client | To_debug int "int list"

datatype update_caller = From_registerCallback health_callback | From_update | From_getHealthInfo report

text \<open>The points between two accesses, named after the access that comes next. \<open>it\<close> is the iterator, as
  an index into \<open>callbacks_\<close>; \<open>told\<close> is what \<open>notifyListeners\<close> has heard from the listeners so far (the
  code keeps none of it but the last). The points \<open>Update_\<close> are those of \<open>update\<close>,
  \<open>healthd_battery_update_internal\<close> and \<open>wakealarm_set_interval\<close>, with the new interval once it is known.\<close>

datatype health_pc =
    Idle
  | Register_lock health_callback
  | Register_push health_callback
  | Register_unlock health_callback
  | Register_link health_callback
  | Withdraw_lock withdrawal health_callback
  | Withdraw_loop withdrawal health_callback nat bool
  | Withdraw_unlink withdrawal health_callback bool
  | Withdraw_unlock withdrawal health_callback bool
  | Notify_read
  | Notify_lock HealthInfo
  | Notify_loop HealthInfo nat "(health_callback \<times> transaction) list"
  | Notify_next HealthInfo nat health_callback transaction "(health_callback \<times> transaction) list"
  | Notify_unlock HealthInfo "(health_callback \<times> transaction) list"
  | Update_test update_caller
  | Update_compare update_caller
  | Update_fd update_caller int
  | Update_write update_caller int
  | Update_set_timer update_caller int
  | Update_poll update_caller int
  | Info_report report

text \<open>How a call ended.\<close>

datatype health_outcome =
    Registered Result
  | Unregistered Result
  | Death_noticed
  | Answered
  | Notified_listeners HealthInfo

record health_thread =
  th_pc :: health_pc
  th_todo :: "health_call list"
  th_done :: "(health_call \<times> health_outcome) list"

section \<open>What they share\<close>

text \<open>What a critical section has done to the registry; a notification with what each listener it told
  answered.\<close>

datatype registry_commit =
    Added health_callback
  | Withdrawn health_callback bool
  | Notified "(health_callback \<times> transaction) list"

text \<open>The global state, the owner of the mutex, and the log of the critical sections so far with the
  threads that ran them. No step reads the log.\<close>

record health_shared =
  hal :: health_state
  callbacks_lock :: "nat option"
  commits :: "(nat \<times> registry_commit) list"

definition on_hal :: "'a health \<Rightarrow> health_shared \<Rightarrow> 'a \<times> health_shared" where
  "on_hal m sh = (case run_state m (hal sh) of (a, s) \<Rightarrow> (a, sh\<lparr>hal := s\<rparr>))"

text \<open>\<open>std::mutex\<close>: locking waits until it is free, its owner included; unlocking somebody else's is
  undefined, and the thread stops.\<close>

definition lock_mutex :: "nat \<Rightarrow> health_shared \<Rightarrow> health_shared option" where
  "lock_mutex i sh = (if callbacks_lock sh = None then Some (sh\<lparr>callbacks_lock := Some i\<rparr>) else None)"

definition unlock_mutex :: "nat \<Rightarrow> health_shared \<Rightarrow> health_shared option" where
  "unlock_mutex i sh = (if callbacks_lock sh = Some i then Some (sh\<lparr>callbacks_lock := None\<rparr>) else None)"

definition commit :: "nat \<Rightarrow> registry_commit \<Rightarrow> health_shared \<Rightarrow> health_shared" where
  "commit i c sh = sh\<lparr>commits := commits sh @ [(i, c)]\<rparr>"

text \<open>\<open>std::vector::erase\<close>: the elements behind the iterator move down to it.\<close>

definition erase_at :: "nat \<Rightarrow> 'a list \<Rightarrow> 'a list" where
  "erase_at it xs = take it xs @ drop (Suc it) xs"

section \<open>Steps of one thread\<close>

definition goto :: "health_thread \<Rightarrow> health_pc \<Rightarrow> health_shared \<Rightarrow> health_shared \<times> health_thread" where
  "goto th pc sh = (sh, th\<lparr>th_pc := pc\<rparr>)"

definition finish :: "health_thread \<Rightarrow> health_outcome \<Rightarrow> health_shared \<Rightarrow> health_shared \<times> health_thread" where
  "finish th out sh =
     (sh, th\<lparr>th_pc := Idle, th_todo := tl (th_todo th), th_done := th_done th @ [(hd (th_todo th), out)]\<rparr>)"

definition finish_answer ::
  "health_thread \<Rightarrow> health_outcome \<Rightarrow> Result \<Rightarrow> health_shared \<Rightarrow> health_shared \<times> health_thread" where
  "finish_answer th out r sh = finish th out (snd (on_hal (answer (ReplyResult r)) sh))"

text \<open>The result of \<open>unregisterCallbackInternal\<close> in the hands of its caller.\<close>

primrec finish_withdrawal ::
  "withdrawal \<Rightarrow> health_thread \<Rightarrow> bool \<Rightarrow> health_shared \<Rightarrow> health_shared \<times> health_thread" where
  "finish_withdrawal By_unregisterCallback th removed sh =
     (let r = (if removed then SUCCESS else NOT_FOUND) in finish_answer th (Unregistered r) r sh)"
| "finish_withdrawal By_serviceDied th removed sh = finish th Death_noticed sh"

text \<open>The result of \<open>update\<close> in the hands of its caller; \<open>getHealthInfo\<close> ignores it.\<close>

primrec return_from_update ::
  "health_thread \<Rightarrow> update_caller \<Rightarrow> Result \<Rightarrow> health_shared \<Rightarrow> health_shared \<times> health_thread" where
  "return_from_update th (From_registerCallback cb) r sh = finish_answer th (Registered r) r sh"
| "return_from_update th From_update r sh = finish_answer th Answered r sh"
| "return_from_update th (From_getHealthInfo rep) r sh = goto th (Info_report rep) sh"

text \<open>The rest of \<open>getHealthInfo\<close>, which reads the monitor and reports, and of \<open>debug\<close> around it.\<close>

definition info_report :: "health_env \<Rightarrow> report \<Rightarrow> unit health" where
  "info_report env rep =
     do {
       currentAvg \<leftarrow> current_average env;
       healthInfo \<leftarrow> return (health_info currentAvg (get_disk_stats []) (get_storage_info []));
       (case rep of
          To_client \<Rightarrow> answer (ReplyHealthInfo SUCCESS healthInfo)
        | To_debug fd fds \<Rightarrow>
            do {
              debug_lambda env fd SUCCESS healthInfo;
              hcall (\<lambda>_. ()) (\<lambda>_. Fsync fd);
              answer ReplyVoid
            })
     }"

text \<open>A call begins with the tests that precede its first access. Requests that only report constants
  are one step.\<close>

definition begin_call ::
  "health_env \<Rightarrow> healthd_mode_ops option \<Rightarrow> health_thread \<Rightarrow> health_call \<Rightarrow> health_shared \<Rightarrow>
   health_shared \<times> health_thread" where
  "begin_call env ops th c sh =
     (case c of
        NotifyListeners \<Rightarrow> goto th Notify_read sh
      | Request r \<Rightarrow>
          (case r of
             RegisterCallback None \<Rightarrow> finish_answer th (Registered SUCCESS) SUCCESS sh
           | RegisterCallback (Some cb) \<Rightarrow> goto th (Register_lock cb) sh
           | UnregisterCallback None \<Rightarrow> finish_withdrawal By_unregisterCallback th False sh
           | UnregisterCallback (Some cb) \<Rightarrow> goto th (Withdraw_lock By_unregisterCallback cb) sh
           | ServiceDied None \<Rightarrow> finish_withdrawal By_serviceDied th False sh
           | ServiceDied (Some cb) \<Rightarrow> goto th (Withdraw_lock By_serviceDied cb) sh
           | Update \<Rightarrow> goto th (Update_test From_update) sh
           | GetHealthInfo \<Rightarrow> goto th (Update_test (From_getHealthInfo To_client)) sh
           | Debug (Some (fd # fds)) \<Rightarrow>
               goto th (Update_test (From_getHealthInfo (To_debug fd fds)))
                 (snd (on_hal (hcall (\<lambda>_. ()) (\<lambda>_. MonitorDump fd)) sh))
           | _ \<Rightarrow> finish th Answered (snd (on_hal (handle_health_request env ops r) sh))))"

definition idle_step ::
  "health_env \<Rightarrow> healthd_mode_ops option \<Rightarrow> health_thread \<Rightarrow> health_shared \<Rightarrow>
   (health_shared \<times> health_thread) option" where
  "idle_step env ops th sh =
     (case th_todo th of [] \<Rightarrow> None | c # _ \<Rightarrow> Some (begin_call env ops th c sh))"

definition set_callbacks :: "health_callback list \<Rightarrow> health_shared \<Rightarrow> health_shared" where
  "set_callbacks cbs sh = sh\<lparr>hal := (hal sh)\<lparr>callbacks := cbs\<rparr>\<rparr>"

text \<open>One position of the loop of \<open>unregisterCallbackInternal\<close>; a position behind the end is undefined.\<close>

definition withdraw_loop_step ::
  "health_env \<Rightarrow> health_thread \<Rightarrow> withdrawal \<Rightarrow> health_callback \<Rightarrow> nat \<Rightarrow> bool \<Rightarrow> health_shared \<Rightarrow>
   (health_shared \<times> health_thread) option" where
  "withdraw_loop_step env th k cb it removed sh =
     (let cbs = callbacks (hal sh)
      in if it = length cbs then Some (goto th (Withdraw_unlink k cb removed) sh)
         else if length cbs < it then None
         else if env_interfacesEqual env (cbs ! it) cb
         then Some (goto th (Withdraw_loop k cb it True) (set_callbacks (erase_at it cbs) sh))
         else Some (goto th (Withdraw_loop k cb (Suc it) removed) sh))"

text \<open>The loop of \<open>notifyListeners\<close>, in two steps: the call, and what its result means for the iterator.\<close>

definition notify_loop_step ::
  "health_env \<Rightarrow> health_thread \<Rightarrow> HealthInfo \<Rightarrow> nat \<Rightarrow> (health_callback \<times> transaction) list \<Rightarrow>
   health_shared \<Rightarrow> (health_shared \<times> health_thread) option" where
  "notify_loop_step env th info it told sh =
     (let cbs = callbacks (hal sh)
      in if it = length cbs then Some (goto th (Notify_unlock info told) sh)
         else if length cbs < it then None
         else
           (case on_hal (hcall (\<lambda>tr. env_health_info_changed env tr (cbs ! it))
                          (HealthInfoChanged (cbs ! it) info)) sh of
              (ret, sh) \<Rightarrow> Some (goto th (Notify_next info it (cbs ! it) ret told) sh)))"

definition notify_next_step ::
  "health_thread \<Rightarrow> HealthInfo \<Rightarrow> nat \<Rightarrow> health_callback \<Rightarrow> transaction \<Rightarrow>
   (health_callback \<times> transaction) list \<Rightarrow> health_shared \<Rightarrow> (health_shared \<times> health_thread) option" where
  "notify_next_step th info it cb ret told sh =
     (if \<not> isOk ret \<and> isDeadObject ret
      then if it < length (callbacks (hal sh))
           then Some (goto th (Notify_loop info it (told @ [(cb, ret)]))
                       (set_callbacks (erase_at it (callbacks (hal sh))) sh))
           else None
      else Some (goto th (Notify_loop info (Suc it) (told @ [(cb, ret)])) sh))"

text \<open>\<open>update\<close>, one access to the globals at a time: \<open>healthd_mode_ops\<close>; the configuration and
  \<open>wakealarm_wake_interval\<close>, compared; \<open>wakealarm_fd\<close>; \<open>wakealarm_wake_interval\<close>, written; the timer, set;
  \<open>awake_poll_interval\<close>, written. Nothing guards them.\<close>

definition update_test_step ::
  "healthd_mode_ops option \<Rightarrow> health_thread \<Rightarrow> update_caller \<Rightarrow> health_shared \<Rightarrow> health_shared \<times> health_thread" where
  "update_test_step ops th c sh =
     (if (case ops of None \<Rightarrow> True | Some ops \<Rightarrow> Option.is_none (op_battery_update ops))
      then return_from_update th c UNKNOWN sh else goto th (Update_compare c) sh)"

definition update_compare_step ::
  "health_thread \<Rightarrow> update_caller \<Rightarrow> health_shared \<Rightarrow> health_shared \<times> health_thread" where
  "update_compare_step th c sh =
     (let new_wake_interval = periodic_chores_interval_fast (healthd_config (hal sh))
      in if new_wake_interval \<noteq> wakealarm_wake_interval (hal sh) then goto th (Update_fd c new_wake_interval) sh
         else goto th (Update_poll c new_wake_interval) sh)"

definition update_fd_step ::
  "health_thread \<Rightarrow> update_caller \<Rightarrow> int \<Rightarrow> health_shared \<Rightarrow> health_shared \<times> health_thread" where
  "update_fd_step th c interval sh =
     (if wakealarm_fd (hal sh) = -1 then goto th (Update_poll c interval) sh
      else goto th (Update_write c interval) sh)"

definition update_write_step ::
  "health_thread \<Rightarrow> update_caller \<Rightarrow> int \<Rightarrow> health_shared \<Rightarrow> health_shared \<times> health_thread" where
  "update_write_step th c interval sh =
     goto th (Update_set_timer c interval) (sh\<lparr>hal := (hal sh)\<lparr>wakealarm_wake_interval := interval\<rparr>\<rparr>)"

definition update_set_timer_step ::
  "health_env \<Rightarrow> health_thread \<Rightarrow> update_caller \<Rightarrow> int \<Rightarrow> health_shared \<Rightarrow> health_shared \<times> health_thread" where
  "update_set_timer_step env th c interval sh =
     (let seconds = (if interval = -1 then 0 else interval)
      in goto th (Update_poll c interval)
           (snd (on_hal (hcall (\<lambda>tr. env_timerfd_settime env tr seconds)
                    (TimerSetInterval (wakealarm_fd (hal sh)) seconds)) sh)))"

definition update_poll_step ::
  "health_thread \<Rightarrow> update_caller \<Rightarrow> int \<Rightarrow> health_shared \<Rightarrow> health_shared \<times> health_thread" where
  "update_poll_step th c interval sh =
     (let fast = periodic_chores_interval_fast (healthd_config (hal sh));
          awake = (if fast = -1 then -1 else if interval = fast then -1 else fast * 1000)
      in return_from_update th c SUCCESS (sh\<lparr>hal := (hal sh)\<lparr>awake_poll_interval := awake\<rparr>\<rparr>))"

text \<open>\<open>None\<close>: the thread has nothing left to do, waits for the mutex, or has left defined behaviour.\<close>

definition thread_step ::
  "health_env \<Rightarrow> healthd_mode_ops option \<Rightarrow> nat \<Rightarrow> health_shared \<Rightarrow> health_thread \<Rightarrow>
   (health_shared \<times> health_thread) option" where
  "thread_step env ops i sh th =
     (case th_pc th of
        Idle \<Rightarrow> idle_step env ops th sh
      | Register_lock cb \<Rightarrow> map_option (goto th (Register_push cb)) (lock_mutex i sh)
      | Register_push cb \<Rightarrow>
          Some (goto th (Register_unlock cb)
                 (commit i (Added cb) (set_callbacks (callbacks (hal sh) @ [cb]) sh)))
      | Register_unlock cb \<Rightarrow> map_option (goto th (Register_link cb)) (unlock_mutex i sh)
      | Register_link cb \<Rightarrow>
          Some (goto th (Update_test (From_registerCallback cb))
                 (snd (on_hal (hcall (\<lambda>_. ()) (\<lambda>_. LinkToDeath cb)) sh)))
      | Withdraw_lock k cb \<Rightarrow> map_option (goto th (Withdraw_loop k cb 0 False)) (lock_mutex i sh)
      | Withdraw_loop k cb it removed \<Rightarrow> withdraw_loop_step env th k cb it removed sh
      | Withdraw_unlink k cb removed \<Rightarrow>
          Some (goto th (Withdraw_unlock k cb removed)
                 (snd (on_hal (hcall (\<lambda>_. ()) (\<lambda>_. UnlinkToDeath cb)) sh)))
      | Withdraw_unlock k cb removed \<Rightarrow>
          map_option (\<lambda>sh. finish_withdrawal k th removed (commit i (Withdrawn cb removed) sh))
            (unlock_mutex i sh)
      | Notify_read \<Rightarrow>
          (case on_hal (current_average env) sh of
             (currentAvg, sh) \<Rightarrow>
               Some (goto th (Notify_lock (health_info currentAvg (get_disk_stats []) (get_storage_info []))) sh))
      | Notify_lock info \<Rightarrow> map_option (goto th (Notify_loop info 0 [])) (lock_mutex i sh)
      | Notify_loop info it told \<Rightarrow> notify_loop_step env th info it told sh
      | Notify_next info it cb ret told \<Rightarrow> notify_next_step th info it cb ret told sh
      | Notify_unlock info told \<Rightarrow>
          map_option (\<lambda>sh. finish th (Notified_listeners info) (commit i (Notified told) sh))
            (unlock_mutex i sh)
      | Update_test c \<Rightarrow> Some (update_test_step ops th c sh)
      | Update_compare c \<Rightarrow> Some (update_compare_step th c sh)
      | Update_fd c interval \<Rightarrow> Some (update_fd_step th c interval sh)
      | Update_write c interval \<Rightarrow> Some (update_write_step th c interval sh)
      | Update_set_timer c interval \<Rightarrow> Some (update_set_timer_step env th c interval sh)
      | Update_poll c interval \<Rightarrow> Some (update_poll_step th c interval sh)
      | Info_report rep \<Rightarrow> Some (finish th Answered (snd (on_hal (info_report env rep) sh))))"

section \<open>Pools\<close>

type_synonym health_pool = "(health_shared, health_thread) shared_pool"

abbreviation health_step :: "health_env \<Rightarrow> healthd_mode_ops option \<Rightarrow> health_pool \<Rightarrow> health_pool \<Rightarrow> bool" where
  "health_step env ops \<equiv> shared_step (thread_step env ops)"

definition health_pool :: "health_state \<Rightarrow> health_call list list \<Rightarrow> health_pool" where
  "health_pool s calls =
     (\<lparr>hal = s, callbacks_lock = None, commits = []\<rparr>,
      map (\<lambda>cs. \<lparr>th_pc = Idle, th_todo = cs, th_done = []\<rparr>) calls)"

end
