(* ===== verification/Health_Concurrency.thy ===== *)
theory Health_Concurrency
  imports Health_Mutex
begin

text \<open>
  What \<open>callbacks_lock_\<close> is worth: invariants of the pools of \<^theory_text>\<open>Health_Mutex\<close>, and the properties
  that follow from them.
\<close>

section \<open>The specification of a critical section\<close>

text \<open>The listeners a notification keeps: all but those whose transaction found the client dead.\<close>

definition survivors :: "(health_callback \<times> transaction) list \<Rightarrow> health_callback list" where
  "survivors told = map fst (filter (\<lambda>(_, ret). isOk ret \<or> \<not> isDeadObject ret) told)"

fun commit_step ::
  "health_env \<Rightarrow> registry_commit \<Rightarrow> health_callback list \<Rightarrow> health_callback list option" where
  "commit_step env (Added cb) L = Some (L @ [cb])"
| "commit_step env (Withdrawn cb removed) L =
     (if removed = (\<exists>c \<in> set L. env_interfacesEqual env c cb)
      then Some (filter (\<lambda>c. \<not> env_interfacesEqual env c cb) L) else None)"
| "commit_step env (Notified told) L = (if map fst told = L then Some (survivors told) else None)"

abbreviation registry_after ::
  "health_env \<Rightarrow> health_callback list \<Rightarrow> health_shared \<Rightarrow> health_callback list option" where
  "registry_after env L0 sh \<equiv> monitor (commit_step env) L0 (map snd (commits sh))"

section \<open>Inside a critical section\<close>

text \<open>The program points at which a thread is in a critical section, and how far it has got: \<open>L\<close> is the
  registry before it, \<open>C\<close> the list now.\<close>

definition in_section :: "health_pc \<Rightarrow> bool" where
  "in_section pc \<longleftrightarrow>
     (case pc of
        Register_push _ \<Rightarrow> True | Register_unlock _ \<Rightarrow> True
      | Withdraw_loop _ _ _ _ \<Rightarrow> True | Withdraw_unlink _ _ _ \<Rightarrow> True | Withdraw_unlock _ _ _ \<Rightarrow> True
      | Notify_loop _ _ _ \<Rightarrow> True | Notify_next _ _ _ _ _ \<Rightarrow> True | Notify_unlock _ _ \<Rightarrow> True
      | _ \<Rightarrow> False)"

definition section_ok ::
  "health_env \<Rightarrow> health_callback list \<Rightarrow> health_callback list \<Rightarrow> health_pc \<Rightarrow> bool" where
  "section_ok env L C pc \<longleftrightarrow>
     (case pc of
        Register_push _ \<Rightarrow> C = L
      | Register_unlock _ \<Rightarrow> C = L
      | Withdraw_loop _ cb it removed \<Rightarrow>
          it \<le> length C \<and>
          (\<exists>seen. L = seen @ drop it C \<and> take it C = filter (\<lambda>c. \<not> env_interfacesEqual env c cb) seen \<and>
                  removed = (\<exists>c \<in> set seen. env_interfacesEqual env c cb))
      | Withdraw_unlink _ cb removed \<Rightarrow> commit_step env (Withdrawn cb removed) L = Some C
      | Withdraw_unlock _ cb removed \<Rightarrow> commit_step env (Withdrawn cb removed) L = Some C
      | Notify_loop _ it told \<Rightarrow> it \<le> length C \<and> L = map fst told @ drop it C \<and> take it C = survivors told
      | Notify_next _ it cb _ told \<Rightarrow>
          it < length C \<and> cb = C ! it \<and> L = map fst told @ drop it C \<and> take it C = survivors told
      | Notify_unlock _ told \<Rightarrow> commit_step env (Notified told) L = Some C
      | _ \<Rightarrow> True)"

lemma erase_at_here: "it < length C \<Longrightarrow> take it (erase_at it C) = take it C \<and>
    drop it (erase_at it C) = drop (Suc it) C \<and> Suc (length (erase_at it C)) = length C"
  by (simp add: erase_at_def)

lemma on_hal_run: "on_hal m sh = (fst (run_state m (hal sh)), sh\<lparr>hal := snd (run_state m (hal sh))\<rparr>)"
  by (simp add: on_hal_def split: prod.split)

lemma callbacks_run: "keeps (\<lambda>s. callbacks s = C) m \<Longrightarrow> callbacks s = C \<Longrightarrow> callbacks (snd (run_state m s)) = C"
  using keepsD [of "\<lambda>s. callbacks s = C" m s "fst (run_state m s)" "snd (run_state m s)"] by simp

lemma callbacks_unlisted:
  "registers r = [] \<Longrightarrow> (\<And>c. \<not> withdraws env c r) \<Longrightarrow>
   callbacks (snd (run_state (handle_health_request env ops r) s)) = callbacks s"
  using callbacks_request [of env ops r s, OF run_fst] by simp


section \<open>Inside \<open>update\<close>\<close>

text \<open>The points of a call that is in \<open>update\<close> or reports what it has read, and the caller.\<close>

definition updating :: "health_pc \<Rightarrow> update_caller option" where
  "updating pc =
     (case pc of
        Update_test c \<Rightarrow> Some c | Update_compare c \<Rightarrow> Some c | Update_fd c _ \<Rightarrow> Some c
      | Update_write c _ \<Rightarrow> Some c | Update_set_timer c _ \<Rightarrow> Some c | Update_poll c _ \<Rightarrow> Some c
      | Info_report rep \<Rightarrow> Some (From_getHealthInfo rep)
      | _ \<Rightarrow> None)"

lemma updating_simps [simp]:
  "updating Idle = None" "updating (Register_lock cb) = None" "updating (Register_push cb) = None"
  "updating (Register_unlock cb) = None" "updating (Register_link cb) = None"
  "updating (Withdraw_lock k cb) = None" "updating (Withdraw_loop k cb it removed) = None"
  "updating (Withdraw_unlink k cb removed) = None" "updating (Withdraw_unlock k cb removed) = None"
  "updating Notify_read = None" "updating (Notify_lock info) = None" "updating (Notify_loop info it told) = None"
  "updating (Notify_next info it cb ret told) = None" "updating (Notify_unlock info told) = None"
  "updating (Update_test c) = Some c" "updating (Update_compare c) = Some c" "updating (Update_fd c n) = Some c"
  "updating (Update_write c n) = Some c" "updating (Update_set_timer c n) = Some c"
  "updating (Update_poll c n) = Some c" "updating (Info_report rep) = Some (From_getHealthInfo rep)"
  by (simp_all add: updating_def)

primrec caller_call :: "update_caller \<Rightarrow> health_call" where
  "caller_call (From_registerCallback cb) = Request (RegisterCallback (Some cb))"
| "caller_call From_update = Request Update"
| "caller_call (From_getHealthInfo rep) =
     Request (case rep of To_client \<Rightarrow> GetHealthInfo | To_debug fd fds \<Rightarrow> Debug (Some (fd # fds)))"

text \<open>The accesses still to come.\<close>

definition update_steps :: "health_pc \<Rightarrow> nat" where
  "update_steps pc =
     (case pc of
        Update_test _ \<Rightarrow> 7 | Update_compare _ \<Rightarrow> 6 | Update_fd _ _ \<Rightarrow> 5 | Update_write _ _ \<Rightarrow> 4
      | Update_set_timer _ _ \<Rightarrow> 3 | Update_poll _ _ \<Rightarrow> 2 | Info_report _ \<Rightarrow> 1 | _ \<Rightarrow> 0)"

lemmas update_step_defs = update_test_step_def update_compare_step_def update_fd_step_def
  update_write_step_def update_set_timer_step_def update_poll_step_def

lemma callbacks_info_report: "keeps (\<lambda>s. P (callbacks s)) (info_report env rep)"
  unfolding info_report_def current_average_def
  by (cases rep)
     (auto simp: debug_lambda_def write_string_def record_event_def
       intro!: keeps_rules callbacks_answer split: prod.split)

lemma return_from_update_run:
  "callbacks_lock (fst (return_from_update th c r sh)) = callbacks_lock sh \<and>
   commits (fst (return_from_update th c r sh)) = commits sh \<and>
   callbacks (hal (fst (return_from_update th c r sh))) = callbacks (hal sh) \<and>
   \<not> in_section (th_pc (snd (return_from_update th c r sh)))"
  by (cases c) (auto simp: goto_def finish_def finish_answer_def on_hal_run answer_def in_section_def)

lemma update_test_cases:
  "update_test_step ops th c sh = (sh', th') \<Longrightarrow>
   return_from_update th c UNKNOWN sh = (sh', th') \<or> goto th (Update_compare c) sh = (sh', th')"
  by (cases "case ops of None \<Rightarrow> True | Some ops \<Rightarrow> Option.is_none (op_battery_update ops)")
     (auto simp only: update_test_step_def if_True if_False)

lemma update_callers: "updating pc = Some c \<Longrightarrow>
    pc = Update_test c \<or> pc = Update_compare c \<or> (\<exists>n. pc = Update_fd c n) \<or> (\<exists>n. pc = Update_write c n) \<or>
    (\<exists>n. pc = Update_set_timer c n) \<or> (\<exists>n. pc = Update_poll c n) \<or>
    (\<exists>rep. pc = Info_report rep \<and> c = From_getHealthInfo rep)"
  by (simp add: updating_def split: health_pc.splits)

text \<open>The outcome \<open>update\<close>'s caller reports.\<close>

definition update_outcome :: "update_caller \<Rightarrow> health_outcome \<Rightarrow> bool" where
  "update_outcome c out \<longleftrightarrow>
     (case c of From_registerCallback _ \<Rightarrow> (case out of Registered _ \<Rightarrow> True | _ \<Rightarrow> False) | _ \<Rightarrow> out = Answered)"

lemma return_from_update_thread:
  assumes "return_from_update th c r sh = (sh', th')" and "updating (th_pc th) = Some c"
    and "1 < update_steps (th_pc th)"
  shows "(\<exists>pc. th' = th\<lparr>th_pc := pc\<rparr> \<and> updating pc = Some c \<and> update_steps pc < update_steps (th_pc th)) \<or>
    (\<exists>out x. th' = snd (finish th out x) \<and> update_outcome c out)"
  using assms
  by (cases c) (fastforce simp: goto_def finish_def finish_answer_def updating_def update_steps_def update_outcome_def)+

text \<open>Such a step goes on in the same call or ends it, and touches neither the list nor the lock.\<close>

lemma update_step_moves:
  assumes "thread_step env ops i sh th = Some (sh', th')" and c: "updating (th_pc th) = Some c"
  shows "(\<exists>pc. th' = th\<lparr>th_pc := pc\<rparr> \<and> updating pc = Some c \<and> update_steps pc < update_steps (th_pc th)) \<or>
    (\<exists>out x. th' = snd (finish th out x) \<and> update_outcome c out)"
proof -
  note ret = return_from_update_thread [OF _ c]
  show ?thesis
    using update_callers [OF c]
  proof (elim disjE exE conjE)
    assume pc: "th_pc th = Update_test c"
    with assms have "update_test_step ops th c sh = (sh', th')" by (simp add: thread_step_def)
    from update_test_cases [OF this] show ?thesis
    proof
      assume "return_from_update th c UNKNOWN sh = (sh', th')"
      from ret [OF this] pc show ?thesis by (simp add: update_steps_def)
    next
      assume "goto th (Update_compare c) sh = (sh', th')"
      with pc show ?thesis by (auto simp: goto_def updating_def update_steps_def)
    qed
  next
    fix n
    assume pc: "th_pc th = Update_poll c n"
    with assms obtain x where "return_from_update th c SUCCESS x = (sh', th')"
      by (auto simp: thread_step_def update_poll_step_def Let_def)
    from ret [OF this] pc show ?thesis by (simp add: update_steps_def)
  next
    fix rep
    assume "th_pc th = Info_report rep" "c = From_getHealthInfo rep"
    with assms show ?thesis by (auto simp: thread_step_def finish_def update_outcome_def)
  qed (use assms in \<open>auto simp: thread_step_def update_step_defs goto_def updating_def update_steps_def Let_def
      split: if_splits\<close>)
qed

lemma update_step_run:
  assumes "thread_step env ops i sh th = Some (sh', th')" and c: "updating (th_pc th) = Some c"
  shows "callbacks_lock sh' = callbacks_lock sh \<and> commits sh' = commits sh \<and>
    callbacks (hal sh') = callbacks (hal sh) \<and> \<not> in_section (th_pc th') \<and> \<not> in_section (th_pc th)"
proof -
  have ret: ?thesis if "return_from_update th c r x = (sh', th')" "callbacks_lock x = callbacks_lock sh"
    "commits x = commits sh" "callbacks (hal x) = callbacks (hal sh)" "\<not> in_section (th_pc th)" for r x
    using return_from_update_run [of th c r x] that by simp
  show ?thesis
    using update_callers [OF c]
  proof (elim disjE exE conjE)
    assume pc: "th_pc th = Update_test c"
    with assms have "update_test_step ops th c sh = (sh', th')" by (simp add: thread_step_def)
    from update_test_cases [OF this] pc show ?thesis
      by (auto simp: in_section_def goto_def dest: ret)
  next
    fix n
    assume "th_pc th = Update_poll c n"
    moreover from this assms obtain x where "return_from_update th c SUCCESS x = (sh', th')"
      "callbacks_lock x = callbacks_lock sh" "commits x = commits sh" "callbacks (hal x) = callbacks (hal sh)"
      by (fastforce simp: thread_step_def update_poll_step_def Let_def)
    ultimately show ?thesis by (intro ret [of SUCCESS x]) (auto simp: in_section_def)
  next
    fix rep
    assume "th_pc th = Info_report rep" "c = From_getHealthInfo rep"
    with assms show ?thesis
      by (auto simp: thread_step_def finish_def on_hal_run in_section_def
          callbacks_run [OF callbacks_info_report])
  qed (use assms in \<open>auto simp: thread_step_def update_step_defs goto_def on_hal_run Let_def in_section_def
      split: if_splits\<close>)
qed

text \<open>What holds between thread \<open>i\<close> and the shared state, \<open>L\<close> being the registry after the sections so
  far; and that a step of \<open>i\<close> keeps it, and leaves alone whoever holds the lock.\<close>

definition owns_ok ::
  "health_env \<Rightarrow> nat \<Rightarrow> health_callback list \<Rightarrow> health_shared \<Rightarrow> health_thread \<Rightarrow> bool" where
  "owns_ok env i L sh th \<longleftrightarrow>
     (in_section (th_pc th) \<longleftrightarrow> callbacks_lock sh = Some i) \<and>
     (callbacks_lock sh = None \<longrightarrow> callbacks (hal sh) = L) \<and>
     (callbacks_lock sh = Some i \<longrightarrow> section_ok env L (callbacks (hal sh)) (th_pc th))"

definition step_ok ::
  "health_env \<Rightarrow> health_callback list \<Rightarrow> nat \<Rightarrow> health_shared \<Rightarrow> health_shared \<Rightarrow> health_thread \<Rightarrow> bool" where
  "step_ok env L0 i sh sh' th' \<longleftrightarrow>
     (\<exists>L'. registry_after env L0 sh' = Some L' \<and> owns_ok env i L' sh' th' \<and>
        (\<forall>j. j \<noteq> i \<longrightarrow> callbacks_lock sh = Some j \<longrightarrow> callbacks_lock sh' = Some j \<and>
           callbacks (hal sh') = callbacks (hal sh) \<and> registry_after env L0 sh = Some L') \<and>
        (\<forall>j. j \<noteq> i \<longrightarrow> callbacks_lock sh' = Some j \<longrightarrow> callbacks_lock sh = Some j))"

lemmas section_defs = in_section_def section_ok_def owns_ok_def step_ok_def

lemmas move_defs = goto_def finish_def finish_answer_def on_hal_run set_callbacks_def commit_def
  lock_mutex_def unlock_mutex_def

lemma finish_withdrawal_run:
  "finish_withdrawal k th removed sh =
     (fst (finish_withdrawal k th removed sh), snd (finish_withdrawal k th removed sh)) \<and>
   callbacks_lock (fst (finish_withdrawal k th removed sh)) = callbacks_lock sh \<and>
   commits (fst (finish_withdrawal k th removed sh)) = commits sh \<and>
   callbacks (hal (fst (finish_withdrawal k th removed sh))) = callbacks (hal sh) \<and>
   th_pc (snd (finish_withdrawal k th removed sh)) = Idle"
  by (cases k) (simp_all add: move_defs answer_def)

lemma begin_call_run:
  assumes "begin_call env ops th c sh = (sh', th')"
  shows "callbacks_lock sh' = callbacks_lock sh \<and> commits sh' = commits sh \<and>
    callbacks (hal sh') = callbacks (hal sh) \<and> \<not> in_section (th_pc th')"
proof (cases c)
  case (Request r)
  note un = callbacks_unlisted [of r env ops "hal sh"]
  show ?thesis
  proof (cases r)
    case (Debug handle)
    with Request assms un show ?thesis
      by (cases handle; cases "the handle") (auto simp: begin_call_def move_defs in_section_def)
  next
    case (RegisterCallback cb)
    with Request assms show ?thesis
      by (cases cb) (auto simp: begin_call_def move_defs answer_def in_section_def)
  next
    case (UnregisterCallback cb)
    with Request assms finish_withdrawal_run [of By_unregisterCallback th False sh] show ?thesis
      by (cases cb) (auto simp: begin_call_def goto_def in_section_def)
  next
    case (ServiceDied cb)
    with Request assms finish_withdrawal_run [of By_serviceDied th False sh] show ?thesis
      by (cases cb) (auto simp: begin_call_def goto_def in_section_def)
  qed (use Request assms un in \<open>auto simp: begin_call_def move_defs in_section_def\<close>)
qed (use assms in \<open>auto simp: begin_call_def goto_def in_section_def\<close>)

lemma step_ok_begin:
  assumes "begin_call env ops th c sh = (sh', th')" and "registry_after env L0 sh = Some L"
    and "owns_ok env i L sh th" and "\<not> in_section (th_pc th)"
  shows "step_ok env L0 i sh sh' th'"
  using assms begin_call_run [OF assms(1)] by (auto simp: owns_ok_def step_ok_def)

lemma step_ok_lock:
  assumes "lock_mutex i sh = Some sh'" and "registry_after env L0 sh = Some L"
    and "owns_ok env i L sh th" and "in_section pc" and "section_ok env L L pc"
  shows "step_ok env L0 i sh sh' (th\<lparr>th_pc := pc\<rparr>)"
  using assms by (auto simp: owns_ok_def step_ok_def lock_mutex_def split: if_splits)

text \<open>A step inside a section, and one that leaves it with a commit.\<close>

lemma step_ok_inside:
  assumes "callbacks_lock sh = Some i" and "registry_after env L0 sh = Some L"
    and "callbacks_lock sh' = Some i" and "registry_after env L0 sh' = Some L'"
    and "in_section (th_pc th')" and "section_ok env L' (callbacks (hal sh')) (th_pc th')"
  shows "step_ok env L0 i sh sh' th'"
  using assms by (auto simp: owns_ok_def step_ok_def)

lemma step_ok_leave:
  assumes "callbacks_lock sh = Some i" and "callbacks_lock sh' = None"
    and "registry_after env L0 sh' = Some (callbacks (hal sh'))" and "\<not> in_section (th_pc th')"
  shows "step_ok env L0 i sh sh' th'"
  using assms by (auto simp: owns_ok_def step_ok_def)

text \<open>A step outside: it touches neither the list nor the lock.\<close>

lemma step_ok_outside:
  assumes "\<not> in_section (th_pc th)" and "owns_ok env i L sh th" and "registry_after env L0 sh = Some L"
    and "callbacks_lock sh' = callbacks_lock sh" and "commits sh' = commits sh"
    and "callbacks (hal sh') = callbacks (hal sh)" and "\<not> in_section (th_pc th')"
  shows "step_ok env L0 i sh sh' th'"
  using assms by (auto simp: owns_ok_def step_ok_def)

lemma withdraw_loop_ok:
  assumes "withdraw_loop_step env th k cb it removed sh = Some (sh', th')"
    and "section_ok env L (callbacks (hal sh)) (Withdraw_loop k cb it removed)"
  shows "callbacks_lock sh' = callbacks_lock sh \<and> commits sh' = commits sh \<and> in_section (th_pc th') \<and>
    section_ok env L (callbacks (hal sh')) (th_pc th')"
proof -
  let ?C = "callbacks (hal sh)" and ?same = "\<lambda>c. env_interfacesEqual env c cb"
  from assms(2) obtain seen where it: "it \<le> length ?C" and L: "L = seen @ drop it ?C"
    and seen: "take it ?C = filter (\<lambda>c. \<not> ?same c) seen" "removed = (\<exists>c \<in> set seen. ?same c)"
    by (auto simp: section_ok_def)
  show ?thesis
  proof (cases "it = length ?C")
    case True
    with assms(1) L seen show ?thesis
      by (auto simp: withdraw_loop_step_def goto_def in_section_def section_ok_def)
  next
    case False
    with it have lt: "it < length ?C" by simp
    then have L': "L = (seen @ [?C ! it]) @ drop (Suc it) ?C"
      using L by (simp add: Cons_nth_drop_Suc)
    show ?thesis
    proof (cases "?same (?C ! it)")
      case True
      with assms(1) lt L' seen erase_at_here [OF lt] show ?thesis
        by (auto simp: withdraw_loop_step_def goto_def set_callbacks_def in_section_def section_ok_def
            intro!: exI [of _ "seen @ [?C ! it]"])
    next
      case neq: False
      have "take (Suc it) ?C = filter (\<lambda>c. \<not> ?same c) (seen @ [?C ! it])"
        using neq lt seen by (simp add: take_Suc_conv_app_nth)
      with assms(1) lt L' seen neq show ?thesis
        by (auto simp: withdraw_loop_step_def goto_def in_section_def section_ok_def
            intro!: exI [of _ "seen @ [?C ! it]"])
    qed
  qed
qed

lemma survivors_snoc: "survivors (told @ [(cb, ret)]) = survivors told @ (if isOk ret \<or> \<not> isDeadObject ret then [cb] else [])"
  by (simp add: survivors_def)

lemma notify_loop_ok:
  assumes "notify_loop_step env th info it told sh = Some (sh', th')"
    and "section_ok env L (callbacks (hal sh)) (Notify_loop info it told)"
  shows "callbacks_lock sh' = callbacks_lock sh \<and> commits sh' = commits sh \<and> in_section (th_pc th') \<and>
    section_ok env L (callbacks (hal sh')) (th_pc th')"
  using assms by (auto simp: notify_loop_step_def move_defs Let_def section_ok_def in_section_def
      split: if_splits)

lemma notify_next_ok:
  assumes "notify_next_step th info it cb ret told sh = Some (sh', th')"
    and "section_ok env L (callbacks (hal sh)) (Notify_next info it cb ret told)"
  shows "callbacks_lock sh' = callbacks_lock sh \<and> commits sh' = commits sh \<and> in_section (th_pc th') \<and>
    section_ok env L (callbacks (hal sh')) (th_pc th')"
proof -
  let ?C = "callbacks (hal sh)"
  from assms(2) have it: "it < length ?C" and cb: "cb = ?C ! it"
    and L: "L = map fst told @ drop it ?C" and k: "take it ?C = survivors told" by (auto simp: section_ok_def)
  have L': "L = map fst (told @ [(cb, ret)]) @ drop (Suc it) ?C"
    using it cb L by (simp add: Cons_nth_drop_Suc)
  show ?thesis
  proof (cases "\<not> isOk ret \<and> isDeadObject ret")
    case True
    with assms(1) it L' k erase_at_here [OF it] show ?thesis
      by (auto simp: notify_next_step_def goto_def set_callbacks_def in_section_def section_ok_def survivors_snoc)
  next
    case False
    with assms(1) it L' k cb show ?thesis
      by (auto simp: notify_next_step_def goto_def in_section_def section_ok_def survivors_snoc
          take_Suc_conv_app_nth)
  qed
qed

lemma owner: "owns_ok env i L sh th \<Longrightarrow> in_section (th_pc th) \<Longrightarrow>
    callbacks_lock sh = Some i \<and> section_ok env L (callbacks (hal sh)) (th_pc th)"
  by (auto simp: owns_ok_def)

lemma thread_step_ok:
  assumes step: "thread_step env ops i sh th = Some (sh', th')"
    and reg: "registry_after env L0 sh = Some L" and own: "owns_ok env i L sh th"
  shows "step_ok env L0 i sh sh' th'"
proof -
  have in_own: "callbacks_lock sh = Some i \<and> section_ok env L (callbacks (hal sh)) (th_pc th)"
    if "in_section (th_pc th)" using owner [OF own that] .
  have outside: "step_ok env L0 i sh sh' th'"
    if "\<not> in_section (th_pc th)" "callbacks_lock sh' = callbacks_lock sh" "commits sh' = commits sh"
      "callbacks (hal sh') = callbacks (hal sh)" "\<not> in_section (th_pc th')"
    using step_ok_outside [OF that(1) own reg that(2-5)] .
  have locks: "step_ok env L0 i sh sh' (th\<lparr>th_pc := pc\<rparr>)"
    if "lock_mutex i sh = Some sh'" "in_section pc" "section_ok env L L pc" for pc
    using step_ok_lock [OF that(1) reg own that(2,3)] .
  have inside: "step_ok env L0 i sh sh' th'"
    if "in_section (th_pc th)" "callbacks_lock sh' = callbacks_lock sh \<and> commits sh' = commits sh \<and>
      in_section (th_pc th') \<and> section_ok env L (callbacks (hal sh')) (th_pc th')"
    using step_ok_inside [of sh i env L0 L sh' L th'] in_own [OF that(1)] that(2) reg by simp
  have update_outside: "step_ok env L0 i sh sh' th'" if "updating (th_pc th) \<noteq> None"
    using update_step_run [OF step] that by (intro outside) auto
  show ?thesis
  proof (cases "th_pc th")
    case Idle
    with step obtain c cs where "begin_call env ops th c sh = (sh', th')"
      by (auto simp: thread_step_def idle_step_def split: list.splits)
    from step_ok_begin [OF this reg own] Idle show ?thesis by (simp add: in_section_def)
  next
    case (Register_lock cb)
    with step obtain "lock_mutex i sh = Some sh'" "th' = th\<lparr>th_pc := Register_push cb\<rparr>"
      by (auto simp: thread_step_def goto_def)
    then show ?thesis by (auto intro!: locks simp: in_section_def section_ok_def)
  next
    case (Register_push cb)
    with step in_own reg show ?thesis
      by (intro step_ok_inside [of sh i env L0 L _ "L @ [cb]"])
         (auto simp: thread_step_def move_defs in_section_def section_ok_def)
  next
    case (Register_unlock cb)
    with step in_own reg show ?thesis
      by (intro step_ok_leave)
         (auto simp: thread_step_def goto_def unlock_mutex_def in_section_def section_ok_def split: if_splits)
  next
    case (Register_link cb)
    with step show ?thesis
      by (intro outside) (auto simp: thread_step_def move_defs in_section_def)
  next
    case (Withdraw_lock k cb)
    with step obtain "lock_mutex i sh = Some sh'" "th' = th\<lparr>th_pc := Withdraw_loop k cb 0 False\<rparr>"
      by (auto simp: thread_step_def goto_def)
    then show ?thesis by (auto intro!: locks simp: in_section_def section_ok_def)
  next
    case (Withdraw_loop k cb it removed)
    with step in_own withdraw_loop_ok [of env th k cb it removed sh sh' th' L] show ?thesis
      by (intro inside) (auto simp: thread_step_def in_section_def)
  next
    case (Withdraw_unlink k cb removed)
    with step in_own show ?thesis
      by (intro inside) (auto simp: thread_step_def move_defs in_section_def section_ok_def)
  next
    case (Withdraw_unlock k cb removed)
    with step obtain sh1 where "unlock_mutex i sh = Some sh1"
      and fin: "finish_withdrawal k th removed (commit i (Withdrawn cb removed) sh1) = (sh', th')"
      by (auto simp: thread_step_def)
    then show ?thesis
      using finish_withdrawal_run [of k th removed "commit i (Withdrawn cb removed) sh1"] Withdraw_unlock in_own reg
      by (intro step_ok_leave)
         (auto simp: unlock_mutex_def commit_def in_section_def section_ok_def split: if_splits)
  next
    case Notify_read
    with step show ?thesis
      by (intro outside)
         (auto simp: thread_step_def move_defs in_section_def current_average_def split: prod.splits)
  next
    case (Notify_lock info)
    with step obtain "lock_mutex i sh = Some sh'" "th' = th\<lparr>th_pc := Notify_loop info 0 []\<rparr>"
      by (auto simp: thread_step_def goto_def)
    then show ?thesis by (auto intro!: locks simp: in_section_def section_ok_def survivors_def)
  next
    case (Notify_loop info it told)
    with step in_own notify_loop_ok [of env th info it told sh sh' th' L] show ?thesis
      by (intro inside) (auto simp: thread_step_def in_section_def)
  next
    case (Notify_next info it cb ret told)
    with step in_own notify_next_ok [of th info it cb ret told sh sh' th' env L] show ?thesis
      by (intro inside) (auto simp: thread_step_def in_section_def)
  next
    case (Notify_unlock info told)
    with step in_own reg show ?thesis
      by (intro step_ok_leave)
         (auto simp: thread_step_def move_defs in_section_def section_ok_def split: if_splits)
  qed (rule update_outside, simp)+
qed

section \<open>The pool\<close>

text \<open>The same, the registry being what the log says; and what holds of the shared state alone.\<close>

definition owns :: "health_env \<Rightarrow> health_callback list \<Rightarrow> nat \<Rightarrow> health_shared \<Rightarrow> health_thread \<Rightarrow> bool" where
  "owns env L0 i sh th \<longleftrightarrow> (\<exists>L. registry_after env L0 sh = Some L \<and> owns_ok env i L sh th)"

definition lock_ok :: "health_env \<Rightarrow> health_callback list \<Rightarrow> nat \<Rightarrow> health_shared \<Rightarrow> bool" where
  "lock_ok env L0 n sh \<longleftrightarrow>
     (\<forall>j. callbacks_lock sh = Some j \<longrightarrow> j < n) \<and>
     (\<exists>L. registry_after env L0 sh = Some L \<and> (callbacks_lock sh = None \<longrightarrow> callbacks (hal sh) = L))"

lemma owns_step:
  "thread_step env ops i sh th = Some (sh', th') \<Longrightarrow> owns env L0 i sh th \<Longrightarrow> step_ok env L0 i sh sh' th'"
  unfolding owns_def using thread_step_ok by blast

lemma owns_undisturbed:
  assumes "step_ok env L0 i sh sh' th'" and "j \<noteq> i" and "owns env L0 j sh u"
  shows "owns env L0 j sh' u"
proof -
  from assms(1) obtain L' where reg: "registry_after env L0 sh' = Some L'" and own: "owns_ok env i L' sh' th'"
    and frame: "callbacks_lock sh = Some j \<Longrightarrow> callbacks_lock sh' = Some j \<and>
           callbacks (hal sh') = callbacks (hal sh) \<and> registry_after env L0 sh = Some L'"
    and keep: "callbacks_lock sh' = Some j \<Longrightarrow> callbacks_lock sh = Some j"
    unfolding step_ok_def using assms(2) by blast
  from reg frame keep own assms(3) show ?thesis
    by (cases "callbacks_lock sh = Some j") (auto simp: owns_def owns_ok_def)
qed

interpretation owners: thread_modular "thread_step env ops" "owns env L0" "lock_ok env L0"
  for env ops L0
proof
  fix i j n sh th sh' th' u
  assume step: "thread_step env ops i sh th = Some (sh', th')" and own: "owns env L0 i sh th"
  note ok = owns_step [OF step own]
  show "owns env L0 i sh' th'" using ok by (auto simp: step_ok_def owns_def)
  show "j \<noteq> i \<Longrightarrow> owns env L0 j sh u \<Longrightarrow> owns env L0 j sh' u" using owns_undisturbed [OF ok] .
  assume "i < n" "lock_ok env L0 n sh"
  with ok show "lock_ok env L0 n sh'"
    unfolding step_ok_def lock_ok_def owns_ok_def by (metis option.inject)
qed

lemma owners_start: "owners.pool_ok env (callbacks s) (length calls) (health_pool s calls)"
  by (simp add: owners.pool_ok_def lock_ok_def owns_def health_pool_def owns_ok_def in_section_def)

section \<open>What a thread has done\<close>

text \<open>The calls that open a critical section, and the commit that accounts for such a call and how it
  ended.\<close>

definition touches_registry :: "health_call \<Rightarrow> bool" where
  "touches_registry c \<longleftrightarrow>
     (case c of
        NotifyListeners \<Rightarrow> True
      | Request (RegisterCallback cb) \<Rightarrow> cb \<noteq> None
      | Request (UnregisterCallback cb) \<Rightarrow> cb \<noteq> None
      | Request (ServiceDied cb) \<Rightarrow> cb \<noteq> None
      | Request _ \<Rightarrow> False)"

definition accounts_for :: "health_call \<times> health_outcome \<Rightarrow> registry_commit \<Rightarrow> bool" where
  "accounts_for d c \<longleftrightarrow>
     (case c of
        Added cb \<Rightarrow>
          fst d = Request (RegisterCallback (Some cb)) \<and> (case snd d of Registered _ \<Rightarrow> True | _ \<Rightarrow> False)
      | Withdrawn cb removed \<Rightarrow>
          d = (Request (UnregisterCallback (Some cb)), Unregistered (if removed then SUCCESS else NOT_FOUND)) \<or>
          d = (Request (ServiceDied (Some cb)), Death_noticed)
      | Notified told \<Rightarrow>
          fst d = NotifyListeners \<and> (case snd d of Notified_listeners _ \<Rightarrow> True | _ \<Rightarrow> False))"

definition accounted :: "(health_call \<times> health_outcome) list \<Rightarrow> registry_commit list \<Rightarrow> bool" where
  "accounted ds cs \<longleftrightarrow> list_all2 accounts_for (filter (\<lambda>(c, _). touches_registry c) ds) cs"

definition withdrawal_call :: "withdrawal \<Rightarrow> health_callback \<Rightarrow> health_call" where
  "withdrawal_call k cb =
     Request (case k of By_unregisterCallback \<Rightarrow> UnregisterCallback (Some cb)
                      | By_serviceDied \<Rightarrow> ServiceDied (Some cb))"

text \<open>The call a thread is serving, known from its program counter, and the commits it made for it.\<close>

definition serving :: "health_pc \<Rightarrow> health_call option" where
  "serving pc =
     (case pc of
        Idle \<Rightarrow> None
      | Register_lock cb \<Rightarrow> Some (Request (RegisterCallback (Some cb)))
      | Register_push cb \<Rightarrow> Some (Request (RegisterCallback (Some cb)))
      | Register_unlock cb \<Rightarrow> Some (Request (RegisterCallback (Some cb)))
      | Register_link cb \<Rightarrow> Some (Request (RegisterCallback (Some cb)))
      | Withdraw_lock k cb \<Rightarrow> Some (withdrawal_call k cb)
      | Withdraw_loop k cb _ _ \<Rightarrow> Some (withdrawal_call k cb)
      | Withdraw_unlink k cb _ \<Rightarrow> Some (withdrawal_call k cb)
      | Withdraw_unlock k cb _ \<Rightarrow> Some (withdrawal_call k cb)
      | _ \<Rightarrow> (case updating pc of Some c \<Rightarrow> Some (caller_call c) | None \<Rightarrow> Some NotifyListeners))"

definition pending_commits :: "health_pc \<Rightarrow> registry_commit list" where
  "pending_commits pc =
     (case pc of Register_unlock cb \<Rightarrow> [Added cb] | Register_link cb \<Rightarrow> [Added cb]
      | _ \<Rightarrow> (case updating pc of Some (From_registerCallback cb) \<Rightarrow> [Added cb] | _ \<Rightarrow> []))"

definition thread_ok :: "nat \<Rightarrow> health_call list \<Rightarrow> health_shared \<Rightarrow> health_thread \<Rightarrow> bool" where
  "thread_ok i calls sh th \<longleftrightarrow>
     map fst (th_done th) @ th_todo th = calls \<and>
     (case serving (th_pc th) of None \<Rightarrow> True | Some c \<Rightarrow> \<exists>cs. th_todo th = c # cs) \<and>
     (\<exists>cs. calls_of i (commits sh) = cs @ pending_commits (th_pc th) \<and> accounted (th_done th) cs)"

lemma accounted_Nil: "accounted [] []"
  by (simp add: accounted_def)

lemma accounted_snoc:
  "accounted ds cs \<Longrightarrow> touches_registry (fst d) \<Longrightarrow> accounts_for d c \<Longrightarrow> accounted (ds @ [d]) (cs @ [c])"
  by (cases d) (auto simp: accounted_def intro: list_all2_appendI)

lemma accounted_other: "accounted ds cs \<Longrightarrow> \<not> touches_registry (fst d) \<Longrightarrow> accounted (ds @ [d]) cs"
  by (cases d) (auto simp: accounted_def)

text \<open>A step that goes on with the call, and one that ends it.\<close>

lemma thread_ok_goto:
  assumes "thread_ok i calls sh th"
    and "serving pc = serving (th_pc th) \<or> serving (th_pc th) = None \<and> th_todo th \<noteq> [] \<and> serving pc = Some (hd (th_todo th))"
    and "\<And>cs. calls_of i (commits sh) = cs @ pending_commits (th_pc th) \<Longrightarrow>
      calls_of i (commits sh') = cs @ pending_commits pc"
  shows "thread_ok i calls sh' (th\<lparr>th_pc := pc\<rparr>)"
  using assms by (auto simp: thread_ok_def split: option.splits) (metis list.collapse)+

lemma thread_ok_finish:
  assumes ok: "thread_ok i calls sh th" and todo: "th_todo th = c # cs"
    and acc: "\<And>xs. calls_of i (commits sh) = xs @ pending_commits (th_pc th) \<Longrightarrow> accounted (th_done th) xs \<Longrightarrow>
      accounted (th_done th @ [(c, out)]) (calls_of i (commits sh'))"
    and fin: "th' = snd (finish th out sh')"
  shows "thread_ok i calls sh' th'"
  using ok todo acc fin by (auto simp: thread_ok_def finish_def serving_def pending_commits_def)

text \<open>The log grows only by what the moving thread commits.\<close>

lemma commits_begin: "commits (fst (begin_call env ops th c sh)) = commits sh"
  using begin_call_run [of env ops th c sh "fst (begin_call env ops th c sh)" "snd (begin_call env ops th c sh)"]
  by simp

lemma thread_step_commits:
  assumes "thread_step env ops i sh th = Some (sh', th')"
  shows "\<exists>new. commits sh' = commits sh @ map (Pair i) new"
proof -
  have updates: "commits sh' = commits sh" if "updating (th_pc th) \<noteq> None"
    using update_step_run [OF assms] that by auto
  have "commits sh' = commits sh \<or> (\<exists>c. commits sh' = commits sh @ [(i, c)])"
  proof (cases "th_pc th")
    case Idle
    with assms commits_begin [of env ops th _ sh] show ?thesis
      by (auto simp: thread_step_def idle_step_def split: list.splits) (metis fst_conv)
  next
    case (Withdraw_unlock k cb removed)
    with assms obtain sh1 where "unlock_mutex i sh = Some sh1"
      and "finish_withdrawal k th removed (commit i (Withdrawn cb removed) sh1) = (sh', th')"
      by (auto simp: thread_step_def)
    with finish_withdrawal_run [of k th removed "commit i (Withdrawn cb removed) sh1"] show ?thesis
      by (auto simp: unlock_mutex_def commit_def split: if_splits)
  qed (use assms updates in \<open>auto simp: thread_step_def move_defs withdraw_loop_step_def notify_loop_step_def
    notify_next_step_def Let_def split: if_splits\<close>)
  then show ?thesis by (metis append_Nil2 list.simps(8,9))
qed

lemma calls_of_others: "i \<noteq> j \<Longrightarrow> calls_of j (map (Pair i) new) = []"
  by (induction new) simp_all

lemma thread_ok_finish_untouched:
  assumes "thread_ok i calls sh th" and "th_pc th = Idle" and "th_todo th = c # cs"
    and "\<not> touches_registry c" and "th' = snd (finish th out sh')" and "commits sh' = commits sh"
  shows "thread_ok i calls sh' th'"
  by (rule thread_ok_finish [OF assms(1,3) _ assms(5)])
     (use assms(2,4-6) in \<open>auto simp: finish_def pending_commits_def intro!: accounted_other\<close>)

lemma thread_ok_begin_goto:
  assumes "thread_ok i calls sh th" and "th_pc th = Idle" and "th_todo th = c # cs"
    and "serving pc = Some c" and "pending_commits pc = []" and "commits sh' = commits sh"
  shows "thread_ok i calls sh' (th\<lparr>th_pc := pc\<rparr>)"
  using assms by (intro thread_ok_goto [OF assms(1)]) (auto simp: serving_def pending_commits_def)

lemma thread_ok_begin:
  assumes ok: "thread_ok i calls sh th" and pc: "th_pc th = Idle" and todo: "th_todo th = c # cs"
    and run: "begin_call env ops th c sh = (sh', th')"
  shows "thread_ok i calls sh' th'"
proof -
  note untouched = thread_ok_finish_untouched [OF ok pc todo]
  note goes = thread_ok_begin_goto [OF ok pc todo]
  show ?thesis
  proof (cases c)
    case (Request r)
    show ?thesis
    proof (cases r)
      case (RegisterCallback cb)
      show ?thesis
      proof (cases cb)
        case None
        with Request RegisterCallback run show ?thesis
          by (intro untouched [where out = "Registered SUCCESS"])
             (auto simp: touches_registry_def begin_call_def move_defs)
      next
        case (Some x)
        with Request RegisterCallback run show ?thesis
          using goes [of "Register_lock x"]
          by (auto simp: begin_call_def goto_def serving_def pending_commits_def)
      qed
    next
      case (UnregisterCallback cb)
      show ?thesis
      proof (cases cb)
        case None
        with Request UnregisterCallback run show ?thesis
          by (intro untouched [where out = "Unregistered NOT_FOUND"])
             (auto simp: touches_registry_def begin_call_def move_defs)
      next
        case (Some x)
        with Request UnregisterCallback run show ?thesis
          using goes [of "Withdraw_lock By_unregisterCallback x"]
          by (auto simp: begin_call_def goto_def serving_def pending_commits_def withdrawal_call_def)
      qed
    next
      case (ServiceDied cb)
      show ?thesis
      proof (cases cb)
        case None
        with Request ServiceDied run show ?thesis
          by (intro untouched [where out = Death_noticed]) (auto simp: touches_registry_def begin_call_def move_defs)
      next
        case (Some x)
        with Request ServiceDied run show ?thesis
          using goes [of "Withdraw_lock By_serviceDied x"]
          by (auto simp: begin_call_def goto_def serving_def pending_commits_def withdrawal_call_def)
      qed
    next
      case Update
      with Request run show ?thesis
        using goes [of "Update_test From_update"]
        by (auto simp: begin_call_def goto_def serving_def pending_commits_def)
    next
      case GetHealthInfo
      with Request run show ?thesis
        using goes [of "Update_test (From_getHealthInfo To_client)"]
        by (auto simp: begin_call_def goto_def serving_def pending_commits_def)
    next
      case (Debug handle)
      show ?thesis
      proof (cases "handle = None \<or> handle = Some []")
        case True
        with Request Debug run show ?thesis
          by (intro untouched [where out = Answered]) (auto simp: touches_registry_def begin_call_def move_defs)
      next
        case False
        then obtain fd fds where "handle = Some (fd # fds)" by (cases handle; cases "the handle") auto
        with Request Debug run show ?thesis
          using goes [of "Update_test (From_getHealthInfo (To_debug fd fds))" sh']
          by (auto simp: begin_call_def goto_def serving_def pending_commits_def on_hal_run)
      qed
    qed (use Request run in \<open>auto intro!: untouched [where out = Answered]
      simp: touches_registry_def begin_call_def move_defs\<close>)
  next
    case NotifyListeners
    with run show ?thesis
      using goes [of Notify_read]
      by (auto simp: begin_call_def goto_def serving_def pending_commits_def)
  qed
qed

lemma updating_thread:
  assumes "updating pc = Some c"
  shows "serving pc = Some (caller_call c) \<and>
    pending_commits pc = (case c of From_registerCallback cb \<Rightarrow> [Added cb] | _ \<Rightarrow> []) \<and> pc \<noteq> Idle"
  using update_callers [OF assms]
  by (elim disjE exE conjE) (auto simp: serving_def pending_commits_def split: update_caller.split)

lemma thread_ok_update:
  assumes step: "thread_step env ops i sh th = Some (sh', th')" and ok: "thread_ok i calls sh th"
    and c: "updating (th_pc th) = Some c"
  shows "thread_ok i calls sh' th'"
proof -
  note here = updating_thread [OF c] and log = conjunct1 [OF conjunct2 [OF update_step_run [OF step c]]]
  from update_step_moves [OF step c] show ?thesis
  proof (elim disjE exE conjE)
    fix pc
    assume "th' = th\<lparr>th_pc := pc\<rparr>" "updating pc = Some c"
    with here updating_thread [of pc c] log show ?thesis by (auto intro!: thread_ok_goto [OF ok])
  next
    fix out x
    assume fin: "th' = snd (finish th out x)" and out: "update_outcome c out"
    from here ok obtain cs where todo: "th_todo th = caller_call c # cs" by (auto simp: thread_ok_def)
    from fin have fin: "th' = snd (finish th out sh')" by (simp add: finish_def)
    have "accounted (th_done th @ [(caller_call c, out)]) (calls_of i (commits sh'))"
      if "calls_of i (commits sh) = xs @ pending_commits (th_pc th)" "accounted (th_done th) xs" for xs
    proof (cases c)
      case (From_registerCallback cb)
      with that here log out show ?thesis
        by (auto simp: update_outcome_def touches_registry_def accounts_for_def intro!: accounted_snoc)
    qed (use that here log in \<open>auto simp: touches_registry_def intro!: accounted_other split: report.split\<close>)
    from thread_ok_finish [OF ok todo this fin] show ?thesis .
  qed
qed

text \<open>The thread that moves.\<close>

lemma thread_step_thread_ok:
  assumes step: "thread_step env ops i sh th = Some (sh', th')" and ok: "thread_ok i calls sh th"
  shows "thread_ok i calls sh' th'"
proof -
  have going: ?thesis
    if "\<exists>pc. th' = th\<lparr>th_pc := pc\<rparr> \<and> serving pc = serving (th_pc th) \<and> commits sh' = commits sh \<and>
      pending_commits pc = pending_commits (th_pc th)"
    using thread_ok_goto [OF ok, of _ sh'] that by auto
  have updates: ?thesis if "updating (th_pc th) \<noteq> None"
    using thread_ok_update [OF step ok] that by blast
  show ?thesis
  proof (cases "th_pc th")
    case Idle
    with step obtain c cs where "th_todo th = c # cs" "begin_call env ops th c sh = (sh', th')"
      by (auto simp: thread_step_def idle_step_def split: list.splits)
    from thread_ok_begin [OF ok Idle this] show ?thesis .
  next
    case (Register_push cb)
    with step show ?thesis
      using thread_ok_goto [OF ok, of "Register_unlock cb" sh']
      by (auto simp: thread_step_def move_defs serving_def pending_commits_def)
  next
    case (Withdraw_unlock k cb removed)
    with ok obtain cs where todo: "th_todo th = withdrawal_call k cb # cs"
      by (auto simp: thread_ok_def serving_def)
    from Withdraw_unlock step obtain sh1 where "unlock_mutex i sh = Some sh1"
      and fin: "finish_withdrawal k th removed (commit i (Withdrawn cb removed) sh1) = (sh', th')"
      by (auto simp: thread_step_def)
    then have log: "commits sh' = commits sh @ [(i, Withdrawn cb removed)]"
      using finish_withdrawal_run [of k th removed "commit i (Withdrawn cb removed) sh1"]
      by (auto simp: unlock_mutex_def commit_def split: if_splits)
    show ?thesis
    proof (cases k)
      case By_unregisterCallback
      with fin todo log Withdraw_unlock show ?thesis
        by (intro thread_ok_finish [OF ok, where out = "Unregistered (if removed then SUCCESS else NOT_FOUND)"])
           (auto simp: finish_answer_def finish_def pending_commits_def withdrawal_call_def Let_def
              touches_registry_def accounts_for_def intro!: accounted_snoc)
    next
      case By_serviceDied
      with fin todo log Withdraw_unlock show ?thesis
        by (intro thread_ok_finish [OF ok, where out = Death_noticed])
           (auto simp: finish_def pending_commits_def withdrawal_call_def touches_registry_def accounts_for_def
              intro!: accounted_snoc)
    qed
  next
    case (Notify_unlock info told)
    with ok obtain cs where "th_todo th = NotifyListeners # cs"
      by (auto simp: thread_ok_def serving_def)
    with step Notify_unlock show ?thesis
      by (intro thread_ok_finish [OF ok, where out = "Notified_listeners info"])
         (auto simp: thread_step_def move_defs pending_commits_def touches_registry_def accounts_for_def
            split: if_splits intro!: accounted_snoc)
  qed ((rule updates, simp; fail) | rule going, use step in \<open>force simp: thread_step_def move_defs
    withdraw_loop_step_def notify_loop_step_def notify_next_step_def Let_def serving_def pending_commits_def
    split: if_splits\<close>)+
qed

text \<open>So every thread serves the calls it was given.\<close>

definition serves :: "health_call list list \<Rightarrow> nat \<Rightarrow> health_shared \<Rightarrow> health_thread \<Rightarrow> bool" where
  "serves calls i sh th \<longleftrightarrow> thread_ok i (calls ! i) sh th"

interpretation servers: thread_modular "thread_step env ops" "serves calls" "\<lambda>_ _. True"
  for env ops calls
proof
  fix i j sh th sh' th' u
  assume step: "thread_step env ops i sh th = Some (sh', th')"
  show "serves calls i sh th \<Longrightarrow> serves calls i sh' th'"
    unfolding serves_def by (rule thread_step_thread_ok [OF step])
  obtain new where "commits sh' = commits sh @ map (Pair i) new" using thread_step_commits [OF step] by blast
  then show "j \<noteq> i \<Longrightarrow> serves calls j sh u \<Longrightarrow> serves calls j sh' u"
    using calls_of_others [of i j new] by (simp add: serves_def thread_ok_def)
qed simp

lemma servers_start: "servers.pool_ok calls (length calls) (health_pool s calls)"
  by (simp add: servers.pool_ok_def serves_def health_pool_def thread_ok_def serving_def pending_commits_def
      accounted_Nil)

lemma thread_ok_done:
  assumes "thread_ok i calls sh th" and "th_pc th = Idle" and "th_todo th = []"
  shows "map fst (th_done th) = calls \<and>
    list_all2 accounts_for (filter (\<lambda>(c, _). touches_registry c) (th_done th)) (calls_of i (commits sh))"
  using assms by (auto simp: thread_ok_def accounted_def pending_commits_def)

section \<open>Waiting\<close>

text \<open>A thread at the entrance of a critical section; and the iterator of one in a loop.\<close>

definition at_lock :: "health_pc \<Rightarrow> bool" where
  "at_lock pc \<longleftrightarrow>
     (case pc of Register_lock _ \<Rightarrow> True | Withdraw_lock _ _ \<Rightarrow> True | Notify_lock _ \<Rightarrow> True | _ \<Rightarrow> False)"

definition iterator :: "health_pc \<Rightarrow> nat option" where
  "iterator pc =
     (case pc of Withdraw_loop _ _ it _ \<Rightarrow> Some it | Notify_loop _ it _ \<Rightarrow> Some it
      | Notify_next _ it _ _ _ \<Rightarrow> Some it | _ \<Rightarrow> None)"

lemma thread_stuck:
  assumes "thread_step env ops i sh th = None" and "owns_ok env i L sh th"
  shows "th_pc th = Idle \<and> th_todo th = [] \<or> at_lock (th_pc th) \<and> (\<exists>j. j \<noteq> i \<and> callbacks_lock sh = Some j)"
  using assms
  by (auto simp: thread_step_def idle_step_def lock_mutex_def unlock_mutex_def owns_ok_def in_section_def
      at_lock_def section_ok_def withdraw_loop_step_def notify_loop_step_def notify_next_step_def Let_def
      split: health_pc.splits list.splits if_splits prod.splits)

lemma owner_iterator:
  "owns_ok env i L sh th \<Longrightarrow> iterator (th_pc th) = Some it \<Longrightarrow> it \<le> length (callbacks (hal sh))"
  by (auto simp: owns_ok_def in_section_def section_ok_def iterator_def split: health_pc.splits)

lemma owner_writes:
  assumes "thread_step env ops i sh th = Some (sh', th')" and "registry_after env L0 sh = Some L"
    and "owns_ok env i L sh th" and "callbacks_lock sh \<noteq> Some i"
  shows "callbacks (hal sh') = callbacks (hal sh)"
proof (cases "th_pc th")
  case Idle
  with assms(1) begin_call_run [of env ops th _ sh sh' th'] show ?thesis
    by (auto simp: thread_step_def idle_step_def split: list.splits)
qed (use assms update_step_run [OF assms(1)] in \<open>auto simp: thread_step_def move_defs owns_ok_def in_section_def
  current_average_def split: prod.splits if_splits\<close>)

text \<open>C3: Concurrent use of the Health object is linearizable. Whatever the threads are asked to do and however they are interleaved, the critical sections take effect one after the other: each finds the registry as the one before left it, a registration appends, a withdrawal drops every registration of the same interface and its result says whether there was one, a notification tells every listener registered at that moment exactly once, in order, and drops exactly the dead. Whenever the lock is free, the list is that registry. A thread that has served all its requests has made exactly the commits these requests and their results account for, in their order.\<close>

theorem health_calls_linearize:
  assumes "(health_step env ops)\<^sup>*\<^sup>* (health_pool s calls) (sh, ts)"
  shows "(\<exists>L. monitor (commit_step env) (callbacks s) (map snd (commits sh)) = Some L \<and>
            (callbacks_lock sh = None \<longrightarrow> callbacks (hal sh) = L)) \<and>
    length ts = length calls \<and>
    (\<forall>i < length calls. th_pc (ts ! i) = Idle \<and> th_todo (ts ! i) = [] \<longrightarrow>
       map fst (th_done (ts ! i)) = calls ! i \<and>
       list_all2 accounts_for (filter (\<lambda>(c, _). touches_registry c) (th_done (ts ! i)))
         (calls_of i (commits sh)))"
proof -
  note own = owners.pool_okD [OF owners.pool_ok_reachable [OF assms owners_start]]
    and ok = servers.pool_okD [OF servers.pool_ok_reachable [OF assms servers_start], unfolded serves_def]
  have "\<exists>L. registry_after env (callbacks s) sh = Some L \<and>
      (callbacks_lock sh = None \<longrightarrow> callbacks (hal sh) = L)" using own(1) by (auto simp: lock_ok_def)
  with own(1) thread_ok_done [OF ok(2)] show ?thesis by simp
qed

text \<open>C7: The lock does what it is there for. In every state the threads can reach, at most one of them is in a critical section, and it owns the lock; an iterator is never behind the end of the list, and at an element whenever it is about to be erased; only the owner changes the list; and a thread that cannot move has served all its requests, or waits for a lock that another thread holds: no thread waits for itself, unlocks what it does not own or steps behind the end.\<close>

theorem health_lock_protects:
  assumes "(health_step env ops)\<^sup>*\<^sup>* (health_pool s calls) (sh, ts)" and "i < length ts"
  shows "(in_section (th_pc (ts ! i)) \<longleftrightarrow> callbacks_lock sh = Some i) \<and>
    (\<forall>it. iterator (th_pc (ts ! i)) = Some it \<longrightarrow> it \<le> length (callbacks (hal sh))) \<and>
    (\<forall>info it cb ret told. th_pc (ts ! i) = Notify_next info it cb ret told \<longrightarrow>
       it < length (callbacks (hal sh)) \<and> callbacks (hal sh) ! it = cb) \<and>
    (\<forall>sh' th'. thread_step env ops i sh (ts ! i) = Some (sh', th') \<and>
       callbacks (hal sh') \<noteq> callbacks (hal sh) \<longrightarrow> callbacks_lock sh = Some i) \<and>
    (thread_step env ops i sh (ts ! i) = None \<longrightarrow>
       th_pc (ts ! i) = Idle \<and> th_todo (ts ! i) = [] \<or>
       at_lock (th_pc (ts ! i)) \<and> (\<exists>j < length ts. j \<noteq> i \<and> callbacks_lock sh = Some j))"
proof -
  note pool = owners.pool_okD [OF owners.pool_ok_reachable [OF assms(1) owners_start]]
  from pool assms(2) obtain L
    where reg: "registry_after env (callbacks s) sh = Some L"
      and own: "owns_ok env i L sh (ts ! i)" and bound: "\<And>j. callbacks_lock sh = Some j \<Longrightarrow> j < length ts"
    by (auto simp: owns_def lock_ok_def)
  have "it < length (callbacks (hal sh)) \<and> callbacks (hal sh) ! it = cb"
    if "th_pc (ts ! i) = Notify_next info it cb ret told" for info it cb ret told
    using own that by (auto simp: owns_ok_def in_section_def section_ok_def)
  moreover have "in_section (th_pc (ts ! i)) \<longleftrightarrow> callbacks_lock sh = Some i"
    using own by (simp add: owns_ok_def)
  ultimately show ?thesis
    using owner_iterator [OF own] owner_writes [OF _ reg own] thread_stuck [OF _ own] bound by blast
qed

section \<open>Every call ends\<close>

text \<open>A bound on the length of the list: its length now and the registrations still to be made.\<close>

definition registers_callback :: "health_call \<Rightarrow> bool" where
  "registers_callback c \<longleftrightarrow>
     (case c of Request (RegisterCallback cb) \<Rightarrow> cb \<noteq> None | _ \<Rightarrow> False)"

definition registrations_left :: "health_thread \<Rightarrow> nat" where
  "registrations_left th =
     length (filter registers_callback (th_todo th)) - length (pending_commits (th_pc th))"

definition capacity :: "health_pool \<Rightarrow> nat" where
  "capacity p = length (callbacks (hal (fst p))) + (\<Sum>th\<leftarrow>snd p. registrations_left th)"

text \<open>The steps a thread may still take when no list is longer than \<open>b\<close>; \<open>n\<close> is the length now.\<close>

definition steps_of_call :: "nat \<Rightarrow> nat \<Rightarrow> health_pc \<Rightarrow> nat" where
  "steps_of_call b n pc =
     (case pc of
        Idle \<Rightarrow> 2 * b + 12
      | Register_lock _ \<Rightarrow> 11 | Register_push _ \<Rightarrow> 10 | Register_unlock _ \<Rightarrow> 9 | Register_link _ \<Rightarrow> 8
      | Withdraw_lock _ _ \<Rightarrow> b + 4 | Withdraw_loop _ _ it _ \<Rightarrow> (n - it) + 3
      | Withdraw_unlink _ _ _ \<Rightarrow> 2 | Withdraw_unlock _ _ _ \<Rightarrow> 1
      | Notify_read \<Rightarrow> 2 * b + 5 | Notify_lock _ \<Rightarrow> 2 * b + 4 | Notify_loop _ it _ \<Rightarrow> 2 * (n - it) + 3
      | Notify_next _ it _ _ _ \<Rightarrow> 2 * (n - it) + 2 | Notify_unlock _ _ \<Rightarrow> 1
      | _ \<Rightarrow> update_steps pc)"

definition steps_left :: "nat \<Rightarrow> nat \<Rightarrow> health_thread \<Rightarrow> nat" where
  "steps_left b n th =
     (case th_todo th of [] \<Rightarrow> 0 | _ # cs \<Rightarrow> length cs * (2 * b + 12) + steps_of_call b n (th_pc th))"

definition pool_steps_left :: "nat \<Rightarrow> health_pool \<Rightarrow> nat" where
  "pool_steps_left b p = (\<Sum>th\<leftarrow>snd p. steps_left b (length (callbacks (hal (fst p)))) th)"

lemma begin_call_shape:
  assumes "begin_call env ops th c sh = (sh', th')" and "th_todo th = c # cs"
  shows "th_todo th' = cs \<and> th_pc th' = Idle \<and> (registers_callback c \<longrightarrow> False) \<or>
    th_todo th' = c # cs \<and> (\<exists>cb k u. th_pc th' = Register_lock cb \<or> th_pc th' = Withdraw_lock k cb \<or>
      th_pc th' = Notify_read \<or> th_pc th' = Update_test u \<and> caller_call u = c \<and> \<not> registers_callback c)"
  using assms
  by (auto simp: begin_call_def move_defs registers_callback_def
      split: health_call.splits health_request.splits option.splits list.splits)

lemma steps_left_Idle: "th_pc th = Idle \<Longrightarrow> steps_left b n th = length (th_todo th) * (2 * b + 12)"
  by (auto simp: steps_left_def steps_of_call_def split: list.split)

lemma steps_left_begin:
  assumes "begin_call env ops th c sh = (sh', th')" and "th_todo th = c # cs" and "th_pc th = Idle"
  shows "steps_left b n' th' < steps_left b n th"
  using begin_call_shape [OF assms(1,2)] assms(2,3)
  by (auto simp: steps_left_Idle) (auto simp: steps_left_def steps_of_call_def update_steps_def)

lemma steps_left_goto:
  assumes "th_todo th = c # cs" and "steps_of_call b n' pc < steps_of_call b n (th_pc th)"
  shows "steps_left b n' (th\<lparr>th_pc := pc\<rparr>) < steps_left b n th"
  using assms by (simp add: steps_left_def)

lemma updating_steps: "updating pc = Some c \<Longrightarrow> steps_of_call b n pc = update_steps pc \<and> 0 < update_steps pc"
  using update_callers [of pc c] by (auto simp: steps_of_call_def update_steps_def)

lemma steps_left_finish:
  assumes "th_todo th = c # cs" and "0 < steps_of_call b n (th_pc th)"
  shows "steps_left b n' (snd (finish th out sh)) < steps_left b n th"
  using assms by (auto simp: steps_left_def finish_def steps_of_call_def split: list.splits)

lemma finish_withdrawal_thread: "\<exists>out sh'. snd (finish_withdrawal k th removed sh) = snd (finish th out sh')"
  by (cases k) (auto simp: finish_answer_def Let_def)

lemma thread_step_decreases:
  assumes step: "thread_step env ops i sh th = Some (sh', th')" and ok: "thread_ok i calls sh th"
    and own: "owns_ok env i L sh th" and len: "length (callbacks (hal sh)) \<le> b"
  shows "steps_left b (length (callbacks (hal sh'))) th' < steps_left b (length (callbacks (hal sh))) th"
proof (cases "serving (th_pc th)")
  case None
  then have pc: "th_pc th = Idle" by (auto simp: serving_def split: health_pc.splits)
  with step obtain c cs where "begin_call env ops th c sh = (sh', th')" "th_todo th = c # cs"
    by (auto simp: thread_step_def idle_step_def split: list.splits)
  from steps_left_begin [OF this pc] show ?thesis .
next
  case (Some c)
  with ok obtain cs where todo: "th_todo th = c # cs" by (auto simp: thread_ok_def)
  let ?n = "length (callbacks (hal sh))" and ?n' = "length (callbacks (hal sh'))"
  have going: ?thesis
    if "th' = th\<lparr>th_pc := pc\<rparr>" "steps_of_call b ?n' pc < steps_of_call b ?n (th_pc th)" for pc
    using steps_left_goto [OF todo that(2)] that(1) by simp
  have ends: ?thesis if "\<exists>out x. th' = snd (finish th out x)" "0 < steps_of_call b ?n (th_pc th)"
    using steps_left_finish [OF todo that(2)] that(1) by auto
  have updates: ?thesis if up: "updating (th_pc th) \<noteq> None"
  proof -
    from up obtain c where c: "updating (th_pc th) = Some c" by blast
    note here = updating_steps [OF c, of b "?n"]
    from update_step_moves [OF step c] show ?thesis
    proof (elim disjE exE conjE)
      fix pc
      assume "th' = th\<lparr>th_pc := pc\<rparr>" "updating pc = Some c" "update_steps pc < update_steps (th_pc th)"
      with here updating_steps [of pc c b "?n'"] show ?thesis by (intro going) auto
    next
      fix out x
      assume "th' = snd (finish th out x)"
      with here show ?thesis by (intro ends) auto
    qed
  qed
  show ?thesis
  proof (cases "th_pc th")
    case Idle
    with Some show ?thesis by (simp add: serving_def)
  next
    case (Withdraw_loop k cb it removed)
    with own have "it \<le> ?n" by (auto simp: owns_ok_def in_section_def section_ok_def)
    with step Withdraw_loop show ?thesis
      by (intro going [of "th_pc th'"])
         (auto simp: thread_step_def withdraw_loop_step_def move_defs Let_def steps_of_call_def erase_at_here
            erase_at_def split: if_splits)
  next
    case (Withdraw_unlock k cb removed)
    with step obtain sh1 where "finish_withdrawal k th removed sh1 = (sh', th')"
      by (auto simp: thread_step_def)
    with finish_withdrawal_thread [of k th removed sh1] Withdraw_unlock show ?thesis
      by (intro ends) (auto simp: steps_of_call_def)
  next
    case (Notify_loop info it told)
    with own have "it \<le> ?n" by (auto simp: owns_ok_def in_section_def section_ok_def)
    with step Notify_loop show ?thesis
      by (intro going [of "th_pc th'"])
         (auto simp: thread_step_def notify_loop_step_def move_defs Let_def steps_of_call_def split: if_splits)
  next
    case (Notify_next info it cb ret told)
    with own have "it < ?n" by (auto simp: owns_ok_def in_section_def section_ok_def)
    with step Notify_next show ?thesis
      by (intro going [of "th_pc th'"])
         (auto simp: thread_step_def notify_next_step_def move_defs steps_of_call_def erase_at_def
            split: if_splits)
  next
    case (Notify_unlock info told)
    with step show ?thesis
      by (intro ends) (auto simp: thread_step_def finish_def steps_of_call_def)
  qed ((rule updates, simp; fail) | rule going [of "th_pc th'"], use step len in \<open>force simp: thread_step_def
    move_defs steps_of_call_def update_steps_def split: if_splits\<close>, use step len in \<open>force simp: thread_step_def
    move_defs steps_of_call_def update_steps_def split: if_splits\<close>)+
qed

lemma capacity_goto:
  assumes "th_todo th = c # cs" and "pending_commits pc = pending_commits (th_pc th)"
  shows "registrations_left (th\<lparr>th_pc := pc\<rparr>) = registrations_left th"
  using assms by (simp add: registrations_left_def)

lemma registrations_finish:
  assumes "th_todo th = c # cs"
    and "registers_callback c \<Longrightarrow> length (pending_commits (th_pc th)) = 1"
    and "\<not> registers_callback c \<Longrightarrow> pending_commits (th_pc th) = []"
  shows "registrations_left (snd (finish th out sh)) = registrations_left th"
  using assms by (simp add: registrations_left_def finish_def pending_commits_def)

lemma thread_step_capacity:
  assumes step: "thread_step env ops i sh th = Some (sh', th')" and ok: "thread_ok i calls sh th"
  shows "length (callbacks (hal sh')) + registrations_left th' \<le>
    length (callbacks (hal sh)) + registrations_left th"
proof (cases "serving (th_pc th)")
  case None
  then have pc: "th_pc th = Idle" by (auto simp: serving_def split: health_pc.splits)
  with step obtain c cs where b: "begin_call env ops th c sh = (sh', th')" "th_todo th = c # cs"
    by (auto simp: thread_step_def idle_step_def split: list.splits)
  then have "callbacks (hal sh') = callbacks (hal sh)" using begin_call_run by blast
  moreover have "registrations_left th' \<le> registrations_left th"
    using begin_call_shape [OF b] b(2) pc
    by (auto simp: registrations_left_def pending_commits_def split: update_caller.split)
  ultimately show ?thesis by simp
next
  case (Some c)
  with ok obtain cs where todo: "th_todo th = c # cs" by (auto simp: thread_ok_def)
  have going: ?thesis
    if "th' = th\<lparr>th_pc := pc\<rparr>" "pending_commits pc = pending_commits (th_pc th)"
      "length (callbacks (hal sh')) \<le> length (callbacks (hal sh))" for pc
    using capacity_goto [OF todo that(2)] that(1,3) by simp
  have ends: ?thesis
    if "\<exists>out x. th' = snd (finish th out x)" "callbacks (hal sh') = callbacks (hal sh)"
      "registers_callback c \<Longrightarrow> length (pending_commits (th_pc th)) = 1"
      "\<not> registers_callback c \<Longrightarrow> pending_commits (th_pc th) = []"
    using registrations_finish [OF todo that(3,4)] that(1,2) by auto
  have updates: ?thesis if up: "updating (th_pc th) \<noteq> None"
  proof -
    from up obtain u where u: "updating (th_pc th) = Some u" by blast
    with Some updating_thread [OF u] have "c = caller_call u" by simp
    then have pend: "registers_callback c \<Longrightarrow> length (pending_commits (th_pc th)) = 1"
      "\<not> registers_callback c \<Longrightarrow> pending_commits (th_pc th) = []"
      using updating_thread [OF u] by (auto simp: registers_callback_def split: update_caller.splits report.splits)
    from update_step_moves [OF step u] show ?thesis
    proof (elim disjE exE conjE)
      fix pc
      assume "th' = th\<lparr>th_pc := pc\<rparr>" "updating pc = Some u"
      with updating_thread [OF u] updating_thread [of pc u] update_step_run [OF step u] show ?thesis
        by (intro going) auto
    next
      fix out x
      assume "th' = snd (finish th out x)"
      with update_step_run [OF step u] pend show ?thesis by (intro ends) blast+
    qed
  qed
  show ?thesis
  proof (cases "th_pc th")
    case Idle
    with Some show ?thesis by (simp add: serving_def)
  next
    case (Register_push cb)
    with Some have "c = Request (RegisterCallback (Some cb))" by (simp add: serving_def)
    with step Register_push todo show ?thesis
      by (auto simp: thread_step_def move_defs registrations_left_def pending_commits_def registers_callback_def)
  next
    case (Withdraw_unlock k cb removed)
    with Some have "\<not> registers_callback c"
      by (auto simp: serving_def withdrawal_call_def registers_callback_def split: withdrawal.splits)
    moreover from step Withdraw_unlock obtain sh1 where "unlock_mutex i sh = Some sh1"
      and "finish_withdrawal k th removed (commit i (Withdrawn cb removed) sh1) = (sh', th')"
      by (auto simp: thread_step_def)
    moreover from this have "callbacks (hal sh') = callbacks (hal sh)"
      using finish_withdrawal_run [of k th removed "commit i (Withdrawn cb removed) sh1"]
      by (auto simp: unlock_mutex_def commit_def split: if_splits)
    ultimately show ?thesis
      using finish_withdrawal_thread [of k th removed "commit i (Withdrawn cb removed) sh1"] Withdraw_unlock
      by (intro ends) (auto simp: pending_commits_def)
  next
    case (Notify_unlock info told)
    with Some have "\<not> registers_callback c" by (auto simp: serving_def registers_callback_def)
    with step Notify_unlock show ?thesis
      by (intro ends) (auto simp: thread_step_def move_defs pending_commits_def split: if_splits)
  qed ((rule updates, simp; fail) | rule going [of "th_pc th'"], use step in \<open>force simp: thread_step_def move_defs withdraw_loop_step_def
    notify_loop_step_def notify_next_step_def Let_def split: if_splits\<close>, use step in \<open>force
    simp: thread_step_def move_defs withdraw_loop_step_def notify_loop_step_def notify_next_step_def Let_def
    pending_commits_def split: if_splits\<close>, use step in \<open>force simp: thread_step_def move_defs erase_at_def
    withdraw_loop_step_def notify_loop_step_def notify_next_step_def Let_def current_average_def
    split: if_splits prod.splits\<close>)+
qed

text \<open>A step of one thread leaves what the others have left to do as it was.\<close>

lemma steps_left_others:
  assumes "\<not> in_section (th_pc th) \<or> n' = n"
  shows "steps_left b n' th = steps_left b n th"
  using assms by (auto simp: steps_left_def steps_of_call_def in_section_def split: list.split health_pc.splits)

definition on_course ::
  "health_env \<Rightarrow> health_callback list \<Rightarrow> health_call list list \<Rightarrow> nat \<Rightarrow> health_pool \<Rightarrow> bool" where
  "on_course env L0 calls b p \<longleftrightarrow>
     owners.pool_ok env L0 (length calls) p \<and> servers.pool_ok calls (length calls) p \<and> capacity p \<le> b"

lemma pool_step_decreases:
  assumes step: "health_step env ops p p'" and course: "on_course env L0 calls b p"
  shows "pool_steps_left b p' < pool_steps_left b p \<and> capacity p' \<le> capacity p"
  using step
proof cases
  case (move i ts sh sh' th')
  note own_ok = owners.pool_okD [of env L0 "length calls" sh ts] and serves_ok = servers.pool_okD [of calls "length calls" sh ts]
  have i: "i < length ts" "i < length calls" using move course own_ok(1) by (simp_all add: on_course_def)
  have owns: "owns env L0 j sh (ts ! j)" if "j < length ts" for j
    using own_ok that move course by (simp add: on_course_def)
  then obtain L where reg: "registry_after env L0 sh = Some L" using i by (auto simp: owns_def)
  then have own: "owns_ok env j L sh (ts ! j)" if "j < length ts" for j
    using owns [OF that] by (simp add: owns_def)
  have th: "thread_ok i (calls ! i) sh (ts ! i)"
    using serves_ok(2) move course i by (simp add: on_course_def serves_def)
  let ?n = "length (callbacks (hal sh))" and ?n' = "length (callbacks (hal sh'))"
  have same: "steps_left b ?n' (ts ! j) = steps_left b ?n (ts ! j)" if "j < length ts" "j \<noteq> i" for j
  proof (rule steps_left_others)
    show "\<not> in_section (th_pc (ts ! j)) \<or> ?n' = ?n"
      using owner_writes [OF move(4) reg own [OF i(1)]] own [OF that(1)] that(2)
      by (auto simp: owns_ok_def)
  qed
  have "steps_left b ?n' th' < steps_left b ?n (ts ! i)"
    using thread_step_decreases [OF move(4) th own [OF i(1)]] course move by (simp add: on_course_def capacity_def)
  moreover have "(\<Sum>x\<leftarrow>ts[i := th']. steps_left b ?n' x) + steps_left b ?n' (ts ! i) =
      (\<Sum>x\<leftarrow>ts. steps_left b ?n' x) + steps_left b ?n' th'" by (rule sum_list_update [OF i(1)])
  moreover have "(\<Sum>x\<leftarrow>ts. steps_left b ?n' x) + steps_left b ?n (ts ! i) =
      (\<Sum>x\<leftarrow>ts. steps_left b ?n x) + steps_left b ?n' (ts ! i)"
  proof -
    have "(\<Sum>x\<leftarrow>ts. steps_left b m x) = (\<Sum>j \<in> {..<length ts} - {i}. steps_left b m (ts ! j)) + steps_left b m (ts ! i)"
      for m
      using i(1) by (simp add: sum_list_sum_nth atLeast0LessThan sum.remove [of "{..<length ts}" i])
    moreover have "(\<Sum>j \<in> {..<length ts} - {i}. steps_left b ?n' (ts ! j)) =
        (\<Sum>j \<in> {..<length ts} - {i}. steps_left b ?n (ts ! j))"
      by (rule sum.cong) (use same in auto)
    ultimately show ?thesis by simp
  qed
  moreover have "(\<Sum>x\<leftarrow>ts[i := th']. registrations_left x) + registrations_left (ts ! i) =
      (\<Sum>x\<leftarrow>ts. registrations_left x) + registrations_left th'" by (rule sum_list_update [OF i(1)])
  ultimately show ?thesis
    using thread_step_capacity [OF move(4) th] move by (simp add: pool_steps_left_def capacity_def)
qed

interpretation calls_end: pool_measure "thread_step env ops" "on_course env L0 calls b" "pool_steps_left b"
  for env ops L0 calls b
proof
  fix p p'
  assume step: "health_step env ops p p'" and course: "on_course env L0 calls b p"
  note less = pool_step_decreases [OF step course]
  then show "pool_steps_left b p' < pool_steps_left b p" by simp
  from less owners.pool_ok_step [OF step] servers.pool_ok_step [OF step] course
  show "on_course env L0 calls b p'" by (auto simp: on_course_def)
qed

lemma on_course_start:
  "on_course env (callbacks s) calls (capacity (health_pool s calls)) (health_pool s calls)"
  using owners_start servers_start by (simp add: on_course_def)

lemma stuck_pool:
  assumes "\<not> (\<exists>p'. health_step env ops (sh, ts) p')" and "on_course env L0 calls b (sh, ts)"
    and "i < length calls"
  shows "th_pc (ts ! i) = Idle \<and> th_todo (ts ! i) = [] \<and> callbacks_lock sh = None"
proof -
  have pool: "owners.pool_ok env L0 (length calls) (sh, ts)" using assms(2) by (simp add: on_course_def)
  note ok = owners.pool_okD [OF pool]
  have len: "length ts = length calls" and bound: "\<And>j. callbacks_lock sh = Some j \<Longrightarrow> j < length calls"
    using ok(1) by (auto simp: lock_ok_def)
  have own: "\<exists>L. owns_ok env j L sh (ts ! j)" if "j < length calls" for j
    using ok(2) [OF that] by (auto simp: owns_def)
  have stuck: "th_pc (ts ! j) = Idle \<and> th_todo (ts ! j) = [] \<or>
      at_lock (th_pc (ts ! j)) \<and> (\<exists>k. k \<noteq> j \<and> callbacks_lock sh = Some k)" if "j < length calls" for j
    using own [OF that] thread_stuck [OF pool_stuck [OF assms(1)]] that len by metis
  have "callbacks_lock sh = None"
  proof (rule ccontr)
    assume "callbacks_lock sh \<noteq> None"
    then obtain j where j: "callbacks_lock sh = Some j" by blast
    with own [OF bound [OF j]] have "in_section (th_pc (ts ! j))" by (auto simp: owns_ok_def)
    with stuck [OF bound [OF j]] j show False
      by (auto simp: in_section_def at_lock_def split: health_pc.splits)
  qed
  with stuck [OF assms(3)] show ?thesis by auto
qed

text \<open>C8: Every call on the Health object ends, whoever else is using it. No schedule goes on forever: the number of steps is bounded, whatever the listeners answer and however often the lock is contended. And when no thread can move, it is not because they wait for one another: all have served all they were asked, and the lock is free.\<close>

theorem health_calls_complete:
  "\<exists>N. \<forall>n sh ts. (health_step env ops ^^ n) (health_pool s calls) (sh, ts) \<longrightarrow>
     n \<le> N \<and>
     (\<not> (\<exists>p. health_step env ops (sh, ts) p) \<longrightarrow>
        (\<forall>i < length calls. th_pc (ts ! i) = Idle \<and> map fst (th_done (ts ! i)) = calls ! i \<and>
           callbacks_lock sh = None))"
proof (intro exI allI impI)
  fix n sh ts
  let ?p = "health_pool s calls"
  assume "(health_step env ops ^^ n) ?p (sh, ts)"
  note run = calls_end.run_bounded [OF this on_course_start]
  have "th_pc (ts ! i) = Idle \<and> map fst (th_done (ts ! i)) = calls ! i \<and> callbacks_lock sh = None"
    if stuck: "\<not> (\<exists>p. health_step env ops (sh, ts) p)" and i: "i < length calls" for i
  proof -
    have "servers.pool_ok calls (length calls) (sh, ts)" using run by (simp add: on_course_def)
    from servers.pool_okD(2) [OF this i] have "map fst (th_done (ts ! i)) @ th_todo (ts ! i) = calls ! i"
      by (simp add: serves_def thread_ok_def)
    with stuck_pool [OF stuck conjunct1 [OF run] i] show ?thesis by simp
  qed
  with run show "n \<le> pool_steps_left (capacity ?p) ?p \<and>
     (\<not> (\<exists>p. health_step env ops (sh, ts) p) \<longrightarrow>
        (\<forall>i < length calls. th_pc (ts ! i) = Idle \<and> map fst (th_done (ts ! i)) = calls ! i \<and>
           callbacks_lock sh = None))" by simp
qed

end
