(* ===== verification/Health_Alone.thy ===== *)
theory Health_Alone
  imports Health_Concurrency
begin

text \<open>
  The step by step calls of \<^theory_text>\<open>Health_Mutex\<close> against the functions of \<^theory_text>\<open>Health_Service\<close>: a
  thread that nobody interrupts does to the global state what the function does, loops in place
  included. So everything that is shown of the functions holds of such a thread.
\<close>

section \<open>A thread that moves alone\<close>

definition sequential_call ::
  "health_env \<Rightarrow> healthd_mode_ops option \<Rightarrow> health_call \<Rightarrow> health_state \<Rightarrow> health_state" where
  "sequential_call env ops c s =
     (case c of
        Request r \<Rightarrow> snd (run_state (handle_health_request env ops r) s)
      | NotifyListeners \<Rightarrow> snd (run_state (notifyListeners env) s))"

section \<open>The loops\<close>

lemma set_callbacks_same: "callbacks (hal sh) = cbs \<Longrightarrow> set_callbacks cbs sh = sh"
  by (auto simp: set_callbacks_def)

lemma set_callbacks_twice [simp]: "set_callbacks a (set_callbacks b sh) = set_callbacks a sh"
  by (simp add: set_callbacks_def)

lemma erase_at_middle [simp]: "erase_at (length pre) (pre @ x # rest) = pre @ rest"
  by (simp add: erase_at_def)

lemma alone_withdraw_loop:
  assumes "callbacks (hal sh) = pre @ rest" and "th_pc th = Withdraw_loop k cb (length pre) removed"
  shows "alone (thread_step env ops) i (sh, th)
    (set_callbacks (pre @ filter (\<lambda>c. \<not> env_interfacesEqual env c cb) rest) sh,
     th\<lparr>th_pc := Withdraw_unlink k cb (removed \<or> (\<exists>c \<in> set rest. env_interfacesEqual env c cb))\<rparr>)"
  using assms
proof (induction rest arbitrary: pre removed sh th)
  case Nil
  then show ?case
    by (intro alone_one) (simp add: thread_step_def withdraw_loop_step_def goto_def set_callbacks_same)
next
  case (Cons x rest)
  show ?case
  proof (cases "env_interfacesEqual env x cb")
    case True
    with Cons.prems have "thread_step env ops i sh th =
        Some (set_callbacks (pre @ rest) sh, th\<lparr>th_pc := Withdraw_loop k cb (length pre) True\<rparr>)"
      by (simp add: thread_step_def withdraw_loop_step_def goto_def)
    then show ?thesis
      using Cons.IH [of "set_callbacks (pre @ rest) sh" pre "th\<lparr>th_pc := Withdraw_loop k cb (length pre) True\<rparr>"
          True] True
      by (intro alone_step) (auto simp: set_callbacks_def)
  next
    case False
    with Cons.prems have "thread_step env ops i sh th =
        Some (sh, th\<lparr>th_pc := Withdraw_loop k cb (length (pre @ [x])) removed\<rparr>)"
      by (simp add: thread_step_def withdraw_loop_step_def goto_def)
    then show ?thesis
      using Cons.IH [of sh "pre @ [x]" "th\<lparr>th_pc := Withdraw_loop k cb (length (pre @ [x])) removed\<rparr>" removed]
        Cons.prems False
      by (intro alone_step) auto
  qed
qed

lemma alone_notify_loop:
  assumes "run_state (notify_loop env info rest) s = (kept, s')"
    and "hal sh = s\<lparr>callbacks := pre @ rest\<rparr>" and "th_pc th = Notify_loop info (length pre) told"
  shows "\<exists>told'. alone (thread_step env ops) i (sh, th)
    (sh\<lparr>hal := s'\<lparr>callbacks := pre @ kept\<rparr>\<rparr>, th\<lparr>th_pc := Notify_unlock info told'\<rparr>)"
  using assms
proof (induction rest arbitrary: pre s kept sh th told)
  case Nil
  then have "thread_step env ops i sh th = Some (sh, th\<lparr>th_pc := Notify_unlock info told\<rparr>)"
    by (simp add: thread_step_def notify_loop_step_def goto_def)
  moreover have "sh\<lparr>hal := s'\<lparr>callbacks := pre @ kept\<rparr>\<rparr> = sh" using Nil by auto
  ultimately show ?case by (metis alone_one)
next
  case (Cons x rest)
  let ?ret = "env_health_info_changed env (history s) x"
  let ?s1 = "s\<lparr>history := history s @ [HealthInfoChanged x info ?ret]\<rparr>"
  let ?sh1 = "sh\<lparr>hal := ?s1\<lparr>callbacks := pre @ x # rest\<rparr>\<rparr>"
  obtain kept1 where loop: "run_state (notify_loop env info rest) ?s1 = (kept1, s')"
    and kept: "kept = (if \<not> isOk ?ret \<and> isDeadObject ?ret then kept1 else x # kept1)"
    using Cons.prems(1) by (auto split: prod.splits)
  have call: "thread_step env ops i sh th =
      Some (?sh1, th\<lparr>th_pc := Notify_next info (length pre) x ?ret told\<rparr>)"
    using Cons.prems(2,3)
    by (simp add: thread_step_def notify_loop_step_def goto_def on_hal_def Let_def)
  show ?case
  proof (cases "\<not> isOk ?ret \<and> isDeadObject ?ret")
    case True
    let ?sh2 = "sh\<lparr>hal := ?s1\<lparr>callbacks := pre @ rest\<rparr>\<rparr>"
    let ?th2 = "th\<lparr>th_pc := Notify_loop info (length pre) (told @ [(x, ?ret)])\<rparr>"
    have "thread_step env ops i ?sh1 (th\<lparr>th_pc := Notify_next info (length pre) x ?ret told\<rparr>) =
        Some (?sh2, ?th2)"
      using True by (simp add: thread_step_def notify_next_step_def goto_def set_callbacks_def)
    moreover obtain told' where "alone (thread_step env ops) i (?sh2, ?th2)
        (?sh2\<lparr>hal := s'\<lparr>callbacks := pre @ kept1\<rparr>\<rparr>, ?th2\<lparr>th_pc := Notify_unlock info told'\<rparr>)"
      using Cons.IH [OF loop, of ?sh2 pre ?th2] by auto
    ultimately show ?thesis
      using call kept True by (intro exI [of _ told']) (auto intro: alone_step)
  next
    case False
    let ?th2 = "th\<lparr>th_pc := Notify_loop info (length (pre @ [x])) (told @ [(x, ?ret)])\<rparr>"
    have "thread_step env ops i ?sh1 (th\<lparr>th_pc := Notify_next info (length pre) x ?ret told\<rparr>) =
        Some (?sh1, ?th2)"
      using False by (auto simp: thread_step_def notify_next_step_def goto_def)
    moreover obtain told' where "alone (thread_step env ops) i (?sh1, ?th2)
        (?sh1\<lparr>hal := s'\<lparr>callbacks := (pre @ [x]) @ kept1\<rparr>\<rparr>, ?th2\<lparr>th_pc := Notify_unlock info told'\<rparr>)"
      using Cons.IH [OF loop, of ?sh1 "pre @ [x]" ?th2] by auto
    ultimately show ?thesis
      using call kept False by (intro exI [of _ told']) (auto intro: alone_step)
  qed
qed

section \<open>The calls\<close>

text \<open>\<open>c\<close> has been served alone: the lock is free again, and the global state is that of the function.\<close>

definition served_alone ::
  "health_env \<Rightarrow> healthd_mode_ops option \<Rightarrow> nat \<Rightarrow> health_call \<Rightarrow> health_shared \<Rightarrow> health_thread \<Rightarrow> bool" where
  "served_alone env ops i c sh th \<longleftrightarrow>
     (\<exists>sh' th'. alone (thread_step env ops) i (sh, th) (sh', th') \<and> th_pc th' = Idle \<and> th_todo th' = tl (th_todo th) \<and>
        map fst (th_done th') = map fst (th_done th) @ [hd (th_todo th)] \<and>
        callbacks_lock sh' = None \<and> hal sh' = sequential_call env ops c (hal sh))"

lemma served_alone_step:
  assumes "thread_step env ops i sh th = Some (sh', th')" and "th_pc th' = Idle"
    and "th_todo th' = tl (th_todo th)" and "map fst (th_done th') = map fst (th_done th) @ [hd (th_todo th)]"
    and "callbacks_lock sh' = None" and "hal sh' = sequential_call env ops c (hal sh)"
  shows "served_alone env ops i c sh th"
  unfolding served_alone_def using alone_one [of "thread_step env ops", OF assms(1)] assms(2-) by blast

lemma finish_withdrawal_alone:
  "th_pc (snd (finish_withdrawal k th removed sh)) = Idle \<and>
   th_todo (snd (finish_withdrawal k th removed sh)) = tl (th_todo th) \<and>
   map fst (th_done (snd (finish_withdrawal k th removed sh))) = map fst (th_done th) @ [hd (th_todo th)]"
  using finish_withdrawal_thread [of k th removed sh] by (auto simp: finish_def)

lemma alone_withdrawal:
  assumes pc: "th_pc th = Withdraw_lock k cb" and free: "callbacks_lock sh = None"
  shows "served_alone env ops i (withdrawal_call k cb) sh th"
proof -
  let ?C = "callbacks (hal sh)" and ?same = "\<lambda>c. env_interfacesEqual env c cb"
  let ?removed = "\<exists>c \<in> set ?C. ?same c"
  let ?sh1 = "sh\<lparr>callbacks_lock := Some i\<rparr>" and ?th1 = "th\<lparr>th_pc := Withdraw_loop k cb 0 False\<rparr>"
  let ?sh2 = "set_callbacks (filter (\<lambda>c. \<not> ?same c) ?C) ?sh1"
  let ?sh3 = "snd (on_hal (hcall (\<lambda>_. ()) (\<lambda>_. UnlinkToDeath cb)) ?sh2)"
  let ?sh4 = "commit i (Withdrawn cb ?removed) (?sh3\<lparr>callbacks_lock := None\<rparr>)"
  let ?th2 = "th\<lparr>th_pc := Withdraw_unlink k cb ?removed\<rparr>" and ?th3 = "th\<lparr>th_pc := Withdraw_unlock k cb ?removed\<rparr>"
  have "thread_step env ops i sh th = Some (?sh1, ?th1)"
    using pc free by (simp add: thread_step_def lock_mutex_def goto_def)
  moreover have "alone (thread_step env ops) i (?sh1, ?th1) (?sh2, ?th2)"
    using alone_withdraw_loop [of ?sh1 "[]" ?C ?th1 k cb False env ops i] by simp
  moreover have "thread_step env ops i ?sh2 ?th2 = Some (?sh3, ?th3)"
    by (simp add: thread_step_def goto_def)
  moreover have "thread_step env ops i ?sh3 ?th3 = Some (finish_withdrawal k ?th3 ?removed ?sh4)"
    by (simp add: thread_step_def unlock_mutex_def on_hal_run set_callbacks_def)
  ultimately have "alone (thread_step env ops) i (sh, th) (finish_withdrawal k ?th3 ?removed ?sh4)"
    by (meson alone_one alone_step alone_trans)
  moreover have "hal (fst (finish_withdrawal k ?th3 ?removed ?sh4)) =
      sequential_call env ops (withdrawal_call k cb) (hal sh)"
    by (cases k)
       (auto simp: sequential_call_def withdrawal_call_def unregisterCallback_def serviceDied_def
          unregisterCallbackInternal_def unregister_loop_filter move_defs answer_def Let_def)
  moreover have "callbacks_lock (fst (finish_withdrawal k ?th3 ?removed ?sh4)) = None"
    using finish_withdrawal_run [of k ?th3 ?removed ?sh4] by (simp add: commit_def)
  ultimately show ?thesis
    unfolding served_alone_def
    using finish_withdrawal_alone [of k ?th3 ?removed ?sh4]
    by (intro exI [of _ "fst (finish_withdrawal k ?th3 ?removed ?sh4)"]
        exI [of _ "snd (finish_withdrawal k ?th3 ?removed ?sh4)"]) simp
qed

text \<open>\<open>update\<close> access by access.\<close>

lemma return_from_update_pc [simp]:
  "return_from_update (th\<lparr>th_pc := pc\<rparr>) c r sh = return_from_update th c r sh"
  by (cases c) (simp_all add: goto_def finish_def finish_answer_def)

lemma run_update_internal:
  "run_state (healthd_battery_update_internal env True) s =
     ((), (let fast = periodic_chores_interval_fast (healthd_config s);
               seconds = (if fast = -1 then 0 else fast)
           in if fast = wakealarm_wake_interval s \<or> wakealarm_fd s = -1 then s
              else s\<lparr>wakealarm_wake_interval := fast,
                     history := history s @ [TimerSetInterval (wakealarm_fd s) seconds
                       (env_timerfd_settime env (history s) seconds)]\<rparr>)\<lparr>awake_poll_interval := -1\<rparr>)"
  by (simp add: healthd_battery_update_internal_def wakealarm_set_interval_def Let_def run_state_if)

lemma alone_update_poll:
  assumes "th_pc th = Update_poll c (periodic_chores_interval_fast (healthd_config (hal sh)))"
  shows "alone (thread_step env ops) i (sh, th)
    (return_from_update th c SUCCESS (sh\<lparr>hal := (hal sh)\<lparr>awake_poll_interval := -1\<rparr>\<rparr>))"
  using assms by (intro alone_one) (simp add: thread_step_def update_poll_step_def Let_def)

lemma alone_update_compare:
  assumes pc: "th_pc th = Update_compare c"
    and run: "run_state (healthd_battery_update_internal env True) (hal sh) = (u, s')"
  shows "alone (thread_step env ops) i (sh, th) (return_from_update th c SUCCESS (sh\<lparr>hal := s'\<rparr>))"
proof -
  let ?fast = "periodic_chores_interval_fast (healthd_config (hal sh))" and ?th = "\<lambda>pc. th\<lparr>th_pc := pc\<rparr>"
  note poll = alone_update_poll [of "?th (Update_poll c ?fast)" c _ env ops i, simplified]
  note run = run [unfolded run_update_internal Let_def]
  consider (same) "?fast = wakealarm_wake_interval (hal sh)"
    | (no_timer) "?fast \<noteq> wakealarm_wake_interval (hal sh)" "wakealarm_fd (hal sh) = -1"
    | (timer) "?fast \<noteq> wakealarm_wake_interval (hal sh)" "wakealarm_fd (hal sh) \<noteq> -1" by blast
  then show ?thesis
  proof cases
    case same
    with pc have "thread_step env ops i sh th = Some (sh, ?th (Update_poll c ?fast))"
      by (simp add: thread_step_def update_compare_step_def goto_def)
    with same run poll [of sh] show ?thesis by (auto intro: alone_step)
  next
    case no_timer
    with pc have "thread_step env ops i sh th = Some (sh, ?th (Update_fd c ?fast))"
      by (simp add: thread_step_def update_compare_step_def goto_def)
    moreover from no_timer have "thread_step env ops i sh (?th (Update_fd c ?fast)) = Some (sh, ?th (Update_poll c ?fast))"
      by (simp add: thread_step_def update_fd_step_def goto_def)
    ultimately show ?thesis using no_timer run poll [of sh] by (auto intro: alone_step)
  next
    case timer
    let ?seconds = "if ?fast = -1 then 0 else ?fast"
    let ?sh1 = "sh\<lparr>hal := (hal sh)\<lparr>wakealarm_wake_interval := ?fast\<rparr>\<rparr>"
    let ?ok = "env_timerfd_settime env (history (hal sh)) ?seconds"
    let ?sh2 = "sh\<lparr>hal := (hal ?sh1)\<lparr>history := history (hal sh) @
      [TimerSetInterval (wakealarm_fd (hal sh)) ?seconds ?ok]\<rparr>\<rparr>"
    from timer pc have "thread_step env ops i sh th = Some (sh, ?th (Update_fd c ?fast))"
      by (simp add: thread_step_def update_compare_step_def goto_def)
    moreover from timer
    have "thread_step env ops i sh (?th (Update_fd c ?fast)) = Some (sh, ?th (Update_write c ?fast))"
      by (simp add: thread_step_def update_fd_step_def goto_def)
    moreover have "thread_step env ops i sh (?th (Update_write c ?fast)) = Some (?sh1, ?th (Update_set_timer c ?fast))"
      by (simp add: thread_step_def update_write_step_def goto_def)
    moreover have "thread_step env ops i ?sh1 (?th (Update_set_timer c ?fast)) = Some (?sh2, ?th (Update_poll c ?fast))"
      by (simp add: thread_step_def update_set_timer_step_def goto_def on_hal_run Let_def)
    moreover have "alone (thread_step env ops) i (?sh2, ?th (Update_poll c ?fast))
        (return_from_update th c SUCCESS (?sh2\<lparr>hal := (hal ?sh2)\<lparr>awake_poll_interval := -1\<rparr>\<rparr>))"
      using poll [of ?sh2] by simp
    moreover have "sh\<lparr>hal := s'\<rparr> = ?sh2\<lparr>hal := (hal ?sh2)\<lparr>awake_poll_interval := -1\<rparr>\<rparr>"
      using timer run by auto
    ultimately show ?thesis by (metis (no_types, lifting) alone_step)
  qed
qed

lemma alone_update:
  assumes pc: "th_pc th = Update_test c" and run: "run_state (update env ops) (hal sh) = (r, s')"
  shows "alone (thread_step env ops) i (sh, th) (return_from_update th c r (sh\<lparr>hal := s'\<rparr>))"
proof (cases "case ops of None \<Rightarrow> True | Some ops \<Rightarrow> Option.is_none (op_battery_update ops)")
  case True
  with run have "r = UNKNOWN" "s' = hal sh" by (simp_all only: update_def if_True) auto
  with True pc show ?thesis
    by (intro alone_one) (simp add: thread_step_def update_test_step_def)
next
  case False
  with run obtain u where u: "run_state (healthd_battery_update_internal env True) (hal sh) = (u, s')" "r = SUCCESS"
    by (simp only: update_def if_False) (auto split: prod.splits)
  from False pc have "thread_step env ops i sh th = Some (sh, th\<lparr>th_pc := Update_compare c\<rparr>)"
    by (simp only: thread_step_def update_test_step_def if_False) (simp add: goto_def)
  with alone_update_compare [of "th\<lparr>th_pc := Update_compare c\<rparr>" c env sh u s' ops i] u show ?thesis
    by (auto intro: alone_step)
qed

text \<open>What remains of a call that is at \<open>update\<close>.\<close>

definition after_update ::
  "health_env \<Rightarrow> healthd_mode_ops option \<Rightarrow> update_caller \<Rightarrow> health_state \<Rightarrow> health_state" where
  "after_update env ops c s =
     snd (run_state
       (do {
          r \<leftarrow> update env ops;
          case c of From_getHealthInfo rep \<Rightarrow> info_report env rep | _ \<Rightarrow> answer (ReplyResult r)
        }) s)"

lemma alone_updating:
  assumes pc: "th_pc th = Update_test c"
  shows "\<exists>sh' th'. alone (thread_step env ops) i (sh, th) (sh', th') \<and> th_pc th' = Idle \<and> th_todo th' = tl (th_todo th) \<and>
    map fst (th_done th') = map fst (th_done th) @ [hd (th_todo th)] \<and>
    callbacks_lock sh' = callbacks_lock sh \<and> hal sh' = after_update env ops c (hal sh)"
proof -
  obtain r s' where run: "run_state (update env ops) (hal sh) = (r, s')" by (rule run_state_obtain1)
  note upd = alone_update [OF pc run, of i]
  show ?thesis
  proof (cases c)
    case (From_getHealthInfo rep)
    let ?th = "th\<lparr>th_pc := Info_report rep\<rparr>" and ?sh = "sh\<lparr>hal := s'\<rparr>"
    let ?fin = "finish ?th Answered (snd (on_hal (info_report env rep) ?sh))"
    have "thread_step env ops i ?sh ?th = Some ?fin" by (simp add: thread_step_def)
    with upd From_getHealthInfo have "alone (thread_step env ops) i (sh, th) ?fin"
      by (auto simp: goto_def intro: alone_trans alone_one)
    with From_getHealthInfo run show ?thesis
      by (intro exI [of _ "fst ?fin"] exI [of _ "snd ?fin"]) (simp add: after_update_def finish_def on_hal_run)
  qed (use upd run in \<open>fastforce simp: after_update_def finish_answer_def finish_def on_hal_run\<close>)+
qed

lemma served_alone_update:
  assumes "alone (thread_step env ops) i (sh, th) (sh1, th\<lparr>th_pc := Update_test c\<rparr>)"
    and "callbacks_lock sh1 = None" and "after_update env ops c (hal sh1) = sequential_call env ops q (hal sh)"
  shows "served_alone env ops i q sh th"
  using alone_updating [of "th\<lparr>th_pc := Update_test c\<rparr>" c env ops i sh1] assms
  unfolding served_alone_def by (auto intro: alone_trans)

lemma alone_registration:
  assumes pc: "th_pc th = Register_lock cb" and free: "callbacks_lock sh = None"
  shows "served_alone env ops i (Request (RegisterCallback (Some cb))) sh th"
proof -
  let ?sh1 = "sh\<lparr>callbacks_lock := Some i\<rparr>"
  let ?sh2 = "commit i (Added cb) (set_callbacks (callbacks (hal sh) @ [cb]) ?sh1)"
  let ?sh3 = "?sh2\<lparr>callbacks_lock := None\<rparr>"
  let ?sh4 = "snd (on_hal (hcall (\<lambda>_. ()) (\<lambda>_. LinkToDeath cb)) ?sh3)"
  let ?th = "\<lambda>pc. th\<lparr>th_pc := pc\<rparr>"
  have "thread_step env ops i sh th = Some (?sh1, ?th (Register_push cb))"
    using pc free by (simp add: thread_step_def lock_mutex_def goto_def)
  moreover have "thread_step env ops i ?sh1 (?th (Register_push cb)) = Some (?sh2, ?th (Register_unlock cb))"
    by (simp add: thread_step_def goto_def)
  moreover have "thread_step env ops i ?sh2 (?th (Register_unlock cb)) = Some (?sh3, ?th (Register_link cb))"
    by (simp add: thread_step_def goto_def unlock_mutex_def commit_def set_callbacks_def)
  moreover have "thread_step env ops i ?sh3 (?th (Register_link cb)) =
      Some (?sh4, ?th (Update_test (From_registerCallback cb)))"
    by (simp add: thread_step_def goto_def)
  ultimately have "alone (thread_step env ops) i (sh, th) (?sh4, ?th (Update_test (From_registerCallback cb)))"
    by (meson alone_one alone_step)
  then show ?thesis
    by (rule served_alone_update)
       (simp_all add: after_update_def sequential_call_def registerCallback_def move_defs case_prod_unfold)
qed

lemma alone_notification:
  assumes pc: "th_pc th = Notify_read" and free: "callbacks_lock sh = None"
  shows "served_alone env ops i NotifyListeners sh th"
proof -
  obtain avg s1 where avg: "run_state (current_average env) (hal sh) = (avg, s1)" by (rule run_state_obtain1)
  let ?info = "health_info avg (get_disk_stats []) (get_storage_info [])"
  obtain alive s2 where loop: "run_state (notify_loop env ?info (callbacks s1)) s1 = (alive, s2)"
    by (rule run_state_obtain1)
  let ?sh1 = "sh\<lparr>hal := s1\<rparr>" and ?th1 = "th\<lparr>th_pc := Notify_lock ?info\<rparr>"
  let ?sh2 = "?sh1\<lparr>callbacks_lock := Some i\<rparr>" and ?th2 = "th\<lparr>th_pc := Notify_loop ?info 0 []\<rparr>"
  have "thread_step env ops i sh th = Some (?sh1, ?th1)"
    using pc avg by (simp add: thread_step_def on_hal_run goto_def)
  moreover have "thread_step env ops i ?sh1 ?th1 = Some (?sh2, ?th2)"
    using free by (simp add: thread_step_def lock_mutex_def goto_def)
  moreover obtain told where "alone (thread_step env ops) i (?sh2, ?th2)
      (?sh2\<lparr>hal := s2\<lparr>callbacks := alive\<rparr>\<rparr>, ?th2\<lparr>th_pc := Notify_unlock ?info told\<rparr>)"
    using alone_notify_loop [OF loop, of ?sh2 "[]" ?th2 "[]" ops i] by auto
  moreover
  let ?sh3 = "?sh2\<lparr>hal := s2\<lparr>callbacks := alive\<rparr>\<rparr>" and ?th3 = "?th2\<lparr>th_pc := Notify_unlock ?info told\<rparr>"
  let ?fin = "finish ?th3 (Notified_listeners ?info) (commit i (Notified told) (?sh3\<lparr>callbacks_lock := None\<rparr>))"
  have "thread_step env ops i ?sh3 ?th3 = Some ?fin"
    by (simp add: thread_step_def unlock_mutex_def)
  ultimately have "alone (thread_step env ops) i (sh, th) ?fin" by (meson alone_one alone_step alone_trans)
  moreover have "hal (fst ?fin) = sequential_call env ops NotifyListeners (hal sh)"
    using avg loop by (simp add: sequential_call_def notifyListeners_def move_defs)
  ultimately show ?thesis
    unfolding served_alone_def
    by (intro exI [of _ "fst ?fin"] exI [of _ "snd ?fin"]) (simp add: move_defs)
qed

lemma served_alone_goto:
  assumes "thread_step env ops i sh th = Some (sh, th\<lparr>th_pc := pc\<rparr>)"
    and "served_alone env ops i c sh (th\<lparr>th_pc := pc\<rparr>)"
  shows "served_alone env ops i c sh th"
  using assms by (auto simp: served_alone_def intro: alone_step)

lemma alone_call:
  assumes pc: "th_pc th = Idle" and todo: "th_todo th = c # cs" and free: "callbacks_lock sh = None"
  shows "served_alone env ops i c sh th"
proof -
  have step: "thread_step env ops i sh th = Some (begin_call env ops th c sh)"
    using pc todo by (simp add: thread_step_def idle_step_def)
  have going: ?thesis if "begin_call env ops th c sh = (sh, th\<lparr>th_pc := pc\<rparr>)"
    "served_alone env ops i c sh (th\<lparr>th_pc := pc\<rparr>)" for pc
    by (rule served_alone_goto [OF _ that(2)]) (simp add: step that(1))
  have ends: ?thesis if "hal (fst (begin_call env ops th c sh)) = sequential_call env ops c (hal sh)"
    "\<exists>out sh'. snd (begin_call env ops th c sh) = snd (finish th out sh')"
    by (rule served_alone_step [of env ops i sh th "fst (begin_call env ops th c sh)" "snd (begin_call env ops th c sh)"])
       (use step that begin_call_run [of env ops th c sh "fst (begin_call env ops th c sh)" "snd (begin_call env ops th c sh)"] free in \<open>auto simp: finish_def\<close>)
  note unfold = begin_call_def sequential_call_def move_defs
  show ?thesis
  proof (cases c)
    case (Request r)
    show ?thesis
    proof (cases r)
      case (RegisterCallback cb)
      show ?thesis
      proof (cases cb)
        case None
        with Request RegisterCallback show ?thesis by (intro ends) (auto simp: unfold registerCallback_def)
      next
        case (Some x)
        with Request RegisterCallback free alone_registration [of "th\<lparr>th_pc := Register_lock x\<rparr>" x sh env ops i]
        show ?thesis by (intro going [of "Register_lock x"]) (auto simp: unfold)
      qed
    next
      case (UnregisterCallback cb)
      show ?thesis
      proof (cases cb)
        case None
        with Request UnregisterCallback show ?thesis
          by (intro ends) (auto simp: unfold unregisterCallback_def unregisterCallbackInternal_def)
      next
        case (Some x)
        let ?pc = "Withdraw_lock By_unregisterCallback x"
        from Some Request UnregisterCallback free
          alone_withdrawal [of "th\<lparr>th_pc := ?pc\<rparr>" By_unregisterCallback x sh env ops i]
        show ?thesis by (intro going [of ?pc]) (auto simp: unfold withdrawal_call_def)
      qed
    next
      case (ServiceDied cb)
      show ?thesis
      proof (cases cb)
        case None
        with Request ServiceDied show ?thesis
          by (intro ends) (auto simp: unfold serviceDied_def unregisterCallbackInternal_def)
      next
        case (Some x)
        let ?pc = "Withdraw_lock By_serviceDied x"
        from Some Request ServiceDied free
          alone_withdrawal [of "th\<lparr>th_pc := ?pc\<rparr>" By_serviceDied x sh env ops i]
        show ?thesis by (intro going [of ?pc]) (auto simp: unfold withdrawal_call_def)
      qed
    next
      case Update
      with Request free step show ?thesis
        by (intro served_alone_update [of env ops i sh th sh From_update])
           (auto simp: unfold after_update_def intro: alone_one)
    next
      case GetHealthInfo
      with Request free step show ?thesis
        by (intro served_alone_update [of env ops i sh th sh "From_getHealthInfo To_client"])
           (auto simp: unfold after_update_def getHealthInfo_def info_report_def case_prod_unfold intro: alone_one)
    next
      case (Debug handle)
      show ?thesis
      proof (cases "handle = None \<or> handle = Some []")
        case True
        with Request Debug show ?thesis by (intro ends) (auto simp: unfold)
      next
        case False
        then obtain fd fds where "handle = Some (fd # fds)" by (cases handle; cases "the handle") auto
        with Request Debug free step show ?thesis
          by (intro served_alone_update [of env ops i sh th "fst (begin_call env ops th c sh)"
                "From_getHealthInfo (To_debug fd fds)"])
             (auto simp: unfold after_update_def debug_def getHealthInfo_def info_report_def case_prod_unfold
                intro: alone_one)
      qed
    qed (rule ends, use Request in \<open>simp add: unfold\<close>, use Request in \<open>force simp: unfold\<close>)+
  next
    case NotifyListeners
    with free alone_notification [of "th\<lparr>th_pc := Notify_read\<rparr>" sh env ops i] show ?thesis
      by (intro going [of Notify_read]) (auto simp: begin_call_def goto_def)
  qed
qed

lemma alone_calls:
  assumes "th_pc th = Idle" and "th_todo th = cs" and "callbacks_lock sh = None"
  shows "\<exists>sh' th'. alone (thread_step env ops) i (sh, th) (sh', th') \<and> th_pc th' = Idle \<and> th_todo th' = [] \<and>
    map fst (th_done th') = map fst (th_done th) @ cs \<and> callbacks_lock sh' = None \<and>
    hal sh' = fold (sequential_call env ops) cs (hal sh)"
  using assms
proof (induction cs arbitrary: sh th)
  case Nil
  then show ?case using alone_refl by fastforce
next
  case (Cons c cs)
  from alone_call [OF Cons.prems(1,2,3), of env ops i] Cons.prems(2)
  obtain sh1 th1 where one: "alone (thread_step env ops) i (sh, th) (sh1, th1)" "th_pc th1 = Idle" "th_todo th1 = cs"
    "map fst (th_done th1) = map fst (th_done th) @ [c]" "callbacks_lock sh1 = None"
    "hal sh1 = sequential_call env ops c (hal sh)" by (auto simp: served_alone_def)
  from Cons.IH [OF one(2,3,5)] one(1,4,6) show ?case by (auto intro: alone_trans)
qed

text \<open>C22: A thread that nobody interrupts is the sequential code. If one thread of a pool serves its requests while the others rest, it needs no more than a number of steps of its own to serve them all, and leaves the global state that the functions of Health.cpp leave when they are called one after the other: the in-place loops erase what the specification functions filter, and the calls and answers are the same.\<close>

theorem lone_thread_is_sequential:
  assumes "i < length calls"
  shows "\<exists>n sh ts. run_schedule (thread_step env ops) (replicate n i) (health_pool s calls) = Some (sh, ts) \<and>
    th_pc (ts ! i) = Idle \<and> map fst (th_done (ts ! i)) = calls ! i \<and> callbacks_lock sh = None \<and>
    hal sh = fold (sequential_call env ops) (calls ! i) s"
proof -
  let ?th = "\<lparr>th_pc = Idle, th_todo = calls ! i, th_done = []\<rparr>"
  let ?sh = "\<lparr>hal = s, callbacks_lock = None, commits = []\<rparr>"
  from alone_calls [of ?th "calls ! i" ?sh env ops i]
  obtain sh' th' where outcome: "alone (thread_step env ops) i (?sh, ?th) (sh', th')" "th_pc th' = Idle"
    "map fst (th_done th') = calls ! i" "callbacks_lock sh' = None"
    "hal sh' = fold (sequential_call env ops) (calls ! i) s" by auto
  from alone_schedule [OF outcome(1), of "snd (health_pool s calls)"] assms
  obtain n where "run_schedule (thread_step env ops) (replicate n i) (health_pool s calls) =
      Some (sh', (snd (health_pool s calls))[i := th'])"
    by (auto simp: health_pool_def)
  with outcome(2-) assms show ?thesis by (fastforce simp: health_pool_def)
qed

section \<open>Samples\<close>

text \<open>Three threads: one registers listener 4, one notifies (listener 2 is dead), one withdraws 3.\<close>

definition sample_health_pool :: health_pool where
  "sample_health_pool = health_pool (initial_state\<lparr>callbacks := [1, 2, 3]\<rparr>)
     [[Request (RegisterCallback (Some 4))], [NotifyListeners], [Request (UnregisterCallback (Some 3))]]"

definition sample_health_schedule :: "nat list" where
  "sample_health_schedule = [0, 0, 1, 1, 2, 0, 0, 1, 0, 1, 1, 1, 0] @ replicate 7 1 @ replicate 7 2"

definition is_Idle :: "health_pc \<Rightarrow> bool" where
  "is_Idle pc = (case pc of Idle \<Rightarrow> True | _ \<Rightarrow> False)"

lemma is_Idle: "is_Idle pc \<longleftrightarrow> pc = Idle"
  by (simp add: is_Idle_def split: health_pc.split)

definition outcome_of :: "health_pool \<Rightarrow>
    health_callback list \<times> nat option \<times> (nat \<times> registry_commit) list \<times> (bool \<times> health_call list \<times> health_call list) list" where
  "outcome_of p = (callbacks (hal (fst p)), callbacks_lock (fst p), commits (fst p),
     map (\<lambda>th. (is_Idle (th_pc th), th_todo th, map fst (th_done th))) (snd p))"

lemma sample_health_run:
  "map_option outcome_of (run_schedule (thread_step sample_health None) sample_health_schedule sample_health_pool) =
   Some ([1, 4], None,
     [(0, Added 4), (1, Notified [(1, Tx_ok), (2, Tx_dead), (3, Tx_ok), (4, Tx_ok)]), (2, Withdrawn 3 True)],
     [(True, [], [Request (RegisterCallback (Some 4))]), (True, [], [NotifyListeners]),
      (True, [], [Request (UnregisterCallback (Some 3))])])"
  by code_simp

text \<open>In the middle of the notification the other two wait.\<close>

lemma sample_contention:
  "(case run_schedule (thread_step sample_health None) ([0, 0, 1, 1, 2, 0, 0, 1, 1, 1, 1]) sample_health_pool of
      None \<Rightarrow> False
    | Some p \<Rightarrow> callbacks_lock (fst p) = Some 1 \<and> at_lock (th_pc (snd p ! 2)) \<and>
        iterator (th_pc (snd p ! 1)) = Some 1 \<and> length (callbacks (hal (fst p))) = 4 \<and> length (snd p) = 3 \<and>
        Option.is_none (thread_step sample_health None 2 (fst p) (snd p ! 2)))"
  by code_simp

theorem health_calls_linearize_witness:
  "\<exists>p. run_schedule (thread_step sample_health None) sample_health_schedule sample_health_pool = Some p \<and> callbacks (hal (fst p)) = [1, 4] \<and>
     monitor (commit_step sample_health) [1, 2, 3] (map snd (commits (fst p))) = Some [1, 4]"
proof -
  obtain sh ts where run: "run_schedule (thread_step sample_health None) sample_health_schedule sample_health_pool = Some (sh, ts)"
    and "callbacks (hal sh) = [1, 4]" "callbacks_lock sh = None"
    using sample_health_run by (auto simp: outcome_of_def)
  with health_calls_linearize [OF run_schedule_reachable [OF run [unfolded sample_health_pool_def]]]
  show ?thesis by auto
qed

theorem health_lock_protects_witness:
  "\<exists>p. run_schedule (thread_step sample_health None) [0, 0, 1, 1, 2, 0, 0, 1, 1, 1, 1] sample_health_pool = Some p \<and>
     \<not> in_section (th_pc (snd p ! 2)) \<and> at_lock (th_pc (snd p ! 2)) \<and> callbacks_lock (fst p) = Some 1 \<and>
     in_section (th_pc (snd p ! 1))"
proof -
  obtain sh ts where run: "run_schedule (thread_step sample_health None) [0, 0, 1, 1, 2, 0, 0, 1, 1, 1, 1] sample_health_pool = Some (sh, ts)"
    and p: "callbacks_lock sh = Some 1" "at_lock (th_pc (ts ! 2))" "length ts = 3"
    using sample_contention by (auto split: option.splits)
  note reach = run_schedule_reachable [OF run [unfolded sample_health_pool_def]]
  from health_lock_protects [OF reach, of 2] health_lock_protects [OF reach, of 1] p run
  show ?thesis by auto
qed

theorem health_calls_complete_witness:
  "\<exists>p. run_schedule (thread_step sample_health None) sample_health_schedule sample_health_pool = Some p \<and> callbacks_lock (fst p) = None \<and>
     map fst (th_done (snd p ! 1)) = [NotifyListeners]"
proof -
  obtain sh ts where run: "run_schedule (thread_step sample_health None) sample_health_schedule sample_health_pool = Some (sh, ts)"
    and fin: "\<forall>th \<in> set ts. th_pc th = Idle \<and> th_todo th = []"
    using sample_health_run by (auto simp: outcome_of_def is_Idle map_eq_Cons_conv)
  have "thread_step sample_health None i sh (ts ! i) = None" if "i < length ts" for i
    using fin that by (simp add: thread_step_def idle_step_def)
  then have "\<not> (\<exists>p. health_step sample_health None (sh, ts) p)" by (rule pool_stuckI)
  with health_calls_complete [of sample_health None "initial_state\<lparr>callbacks := [1, 2, 3]\<rparr>"
      "[[Request (RegisterCallback (Some 4))], [NotifyListeners], [Request (UnregisterCallback (Some 3))]]"]
    run_schedule_steps [OF run [unfolded sample_health_pool_def]]
  have "\<forall>i < 3. map fst (th_done (ts ! i)) = [[Request (RegisterCallback (Some 4))], [NotifyListeners],
      [Request (UnregisterCallback (Some 3))]] ! i \<and> callbacks_lock sh = None"
    by fastforce
  from spec [OF this, of 1] have "map fst (th_done (ts ! 1)) = [NotifyListeners] \<and> callbacks_lock sh = None"
    by simp
  with run show ?thesis by auto
qed

theorem lone_thread_is_sequential_witness:
  "\<exists>n sh ts. run_schedule (thread_step sample_health None) (replicate n 2) sample_health_pool = Some (sh, ts) \<and>
     callbacks (hal sh) = [1, 2]"
proof -
  have "callbacks (sequential_call sample_health None (Request (UnregisterCallback (Some 3)))
      (initial_state\<lparr>callbacks := [1, 2, 3]\<rparr>)) = [1, 2]"
    by (simp add: sequential_call_def unregisterCallback_def unregisterCallbackInternal_def
        unregister_loop_filter answer_def sample_health_def)
  with lone_thread_is_sequential [of 2 "[[Request (RegisterCallback (Some 4))], [NotifyListeners],
      [Request (UnregisterCallback (Some 3))]]" sample_health None "initial_state\<lparr>callbacks := [1, 2, 3]\<rparr>"]
  show ?thesis unfolding sample_health_pool_def by fastforce
qed

text \<open>What the lock does not cover: \<open>registerCallback\<close> links to the death of its client after it has left
  the critical section. A withdrawal in between unlinks first, and leaves a link without a
  registration.\<close>

definition death_link :: "health_event \<Rightarrow> (bool \<times> health_callback) option" where
  "death_link e =
     (case e of LinkToDeath cb \<Rightarrow> Some (True, cb) | UnlinkToDeath cb \<Rightarrow> Some (False, cb) | _ \<Rightarrow> None)"

lemma link_after_withdrawal:
  "map_option (\<lambda>p. (callbacks (hal (fst p)), List.map_filter death_link (history (hal (fst p)))))
     (run_schedule (thread_step sample_health None) ([0, 0, 0, 0] @ replicate 6 1 @ [0])
        (health_pool initial_state
           [[Request (RegisterCallback (Some 4))], [Request (UnregisterCallback (Some 4))]])) =
   Some ([], [(False, 4), (True, 4)])"
  by code_simp

end
