(* ===== verification/Health_Updates.thy ===== *)
theory Health_Updates
  imports Health_Alone
begin

text \<open>
  \<open>update\<close> run by several threads at once. It reads and writes \<open>wakealarm_wake_interval\<close> and
  \<open>awake_poll_interval\<close> outside every critical section. The theory shows what comes of the race: every
  thread writes the same values, so the threads agree with one sequential \<open>update\<close>, and the cost is that
  each may set the timer once.
\<close>

section \<open>What \<open>update\<close> works on\<close>

definition sets_timer :: "health_event \<Rightarrow> bool" where
  "sets_timer e = (case e of TimerSetInterval _ _ _ \<Rightarrow> True | _ \<Rightarrow> False)"

abbreviation timers :: "health_state \<Rightarrow> health_event list" where
  "timers s \<equiv> filter sets_timer (history s)"

definition alarm_view :: "health_state \<Rightarrow> healthd_config \<times> int \<times> int \<times> int \<times> health_event list" where
  "alarm_view s =
     (healthd_config s, wakealarm_fd s, wakealarm_wake_interval s, awake_poll_interval s, timers s)"

text \<open>The effect of a step at a program point.\<close>

definition alarm_effect :: "health_env \<Rightarrow> health_pc \<Rightarrow> health_state \<Rightarrow> health_state" where
  "alarm_effect env pc s =
     (case pc of
        Update_write _ n \<Rightarrow> s\<lparr>wakealarm_wake_interval := n\<rparr>
      | Update_set_timer _ n \<Rightarrow>
          (let seconds = (if n = -1 then 0 else n)
           in record_event (TimerSetInterval (wakealarm_fd s) seconds
                (env_timerfd_settime env (history s) seconds)) s)
      | Update_poll _ n \<Rightarrow>
          (let fast = periodic_chores_interval_fast (healthd_config s)
           in s\<lparr>awake_poll_interval := (if fast = -1 then -1 else if n = fast then -1 else fast * 1000)\<rparr>)
      | _ \<Rightarrow> s)"

lemma view_event: "\<not> sets_timer e \<Longrightarrow> alarm_view (record_event e s) = alarm_view s"
  by (simp add: alarm_view_def record_event_def)

lemma view_call:
  "(\<And>r. \<not> sets_timer (ev r)) \<Longrightarrow> keeps (\<lambda>s. alarm_view s = v) (hcall reply ev)"
  by (rule keeps_hcall) (simp add: view_event)

lemma view_on_hal:
  "keeps (\<lambda>s. alarm_view s = alarm_view (hal sh)) m \<Longrightarrow>
   alarm_view (hal (snd (on_hal m sh))) = alarm_view (hal sh)"
  using keepsD [of "\<lambda>s. alarm_view s = alarm_view (hal sh)" m "hal sh" "fst (run_state m (hal sh))"
      "snd (run_state m (hal sh))"] by (simp add: on_hal_run)

lemma view_answer: "keeps (\<lambda>s. alarm_view s = v) (answer r)"
  unfolding answer_def by (rule view_call) (simp add: sets_timer_def)

lemma view_average: "keeps (\<lambda>s. alarm_view s = v) (current_average env)"
  unfolding current_average_def
  by (auto intro!: keeps_rules view_call simp: sets_timer_def split: prod.split)

lemma view_info_report: "keeps (\<lambda>s. alarm_view s = v) (info_report env rep)"
  unfolding info_report_def
  by (cases rep)
     (auto simp: debug_lambda_def write_string_def sets_timer_def
       intro!: keeps_rules view_answer view_average view_call)

text \<open>The requests served in one step.\<close>

definition constant_request :: "health_request \<Rightarrow> bool" where
  "constant_request r \<longleftrightarrow>
     (case r of
        RegisterCallback _ \<Rightarrow> False | UnregisterCallback _ \<Rightarrow> False | ServiceDied _ \<Rightarrow> False
      | Update \<Rightarrow> False | GetHealthInfo \<Rightarrow> False | Debug (Some (fd # fds)) \<Rightarrow> False | _ \<Rightarrow> True)"

lemma view_constant_request:
  assumes "constant_request r"
  shows "keeps (\<lambda>s. alarm_view s = v) (handle_health_request env ops r)"
proof (cases r)
  case (Debug handle)
  with assms show ?thesis
    by (cases handle; cases "the handle") (auto simp: constant_request_def debug_def intro!: keeps_rules view_answer)
qed (use assms in \<open>auto simp: constant_request_def getChargeCounter_def getCurrentNow_def getCurrentAverage_def
  getCapacity_def getEnergyCounter_def getChargeStatus_def getStorageInfo_def getDiskStats_def
  getProperty_def Let_def intro!: keeps_rules view_answer\<close>)

text \<open>The pieces of a step that leave the alarm alone.\<close>

lemma view_finish_answer: "alarm_view (hal (fst (finish_answer th out r sh))) = alarm_view (hal sh)"
  by (simp add: finish_answer_def finish_def view_on_hal [OF view_answer])

lemma view_finish_withdrawal:
  "alarm_view (hal (fst (finish_withdrawal k th removed sh))) = alarm_view (hal sh)"
  by (cases k) (simp_all add: Let_def view_finish_answer, simp add: finish_def)

lemma view_return_from_update: "alarm_view (hal (fst (return_from_update th c r sh))) = alarm_view (hal sh)"
  by (cases c) (simp_all add: view_finish_answer, simp add: goto_def)

lemma view_callbacks [simp]: "alarm_view (hal (set_callbacks cbs sh)) = alarm_view (hal sh)"
  by (simp add: alarm_view_def set_callbacks_def)

lemma view_hcall:
  "(\<And>r. \<not> sets_timer (ev r)) \<Longrightarrow> alarm_view (hal (snd (on_hal (hcall reply ev) sh))) = alarm_view (hal sh)"
  by (rule view_on_hal) (rule view_call)

lemma view_begin_call: "alarm_view (hal (fst (begin_call env ops th c sh))) = alarm_view (hal sh)"
proof (cases c)
  case (Request r)
  have const: ?thesis
    if "constant_request r"
      "fst (begin_call env ops th c sh) = fst (finish th Answered (snd (on_hal (handle_health_request env ops r) sh)))"
    using view_on_hal [OF view_constant_request [OF that(1)]] that(2) by (simp add: finish_def)
  show ?thesis
  proof (cases r)
    case (RegisterCallback cb)
    with Request show ?thesis by (cases cb) (simp_all add: begin_call_def view_finish_answer, simp add: goto_def)
  next
    case (UnregisterCallback cb)
    with Request show ?thesis
      by (cases cb) (simp_all only: begin_call_def health_call.case health_request.case option.case
          view_finish_withdrawal, simp add: goto_def)
  next
    case (ServiceDied cb)
    with Request show ?thesis
      by (cases cb) (simp_all only: begin_call_def health_call.case health_request.case option.case
          view_finish_withdrawal, simp add: goto_def)
  next
    case (Debug handle)
    show ?thesis
    proof (cases "\<exists>fd fds. handle = Some (fd # fds)")
      case True
      with Request Debug show ?thesis
        by (auto simp: begin_call_def goto_def sets_timer_def intro!: view_hcall)
    next
      case False
      with Request Debug show ?thesis
        by (intro const) (auto simp: constant_request_def begin_call_def split: option.split list.split)
    qed
  next
    case Update
    with Request show ?thesis by (simp add: begin_call_def goto_def)
  next
    case GetHealthInfo
    with Request show ?thesis by (simp add: begin_call_def goto_def)
  qed (rule const, simp add: constant_request_def, use Request in \<open>simp add: begin_call_def
    del: handle_health_request.simps\<close>)+
qed (simp add: begin_call_def goto_def)

lemma alarm_step:
  assumes "thread_step env ops i sh th = Some (sh', th')"
  shows "alarm_view (hal sh') = alarm_view (alarm_effect env (th_pc th) (hal sh))"
proof -
  have out: ?thesis if "m = (sh', th')" "alarm_view (hal (fst m)) = alarm_view (alarm_effect env (th_pc th) (hal sh))"
    for m using that by auto
  show ?thesis
  proof (cases "th_pc th")
    case Idle
    with assms obtain c cs where "begin_call env ops th c sh = (sh', th')"
      by (auto simp: thread_step_def idle_step_def split: list.splits)
    from out [OF this] Idle show ?thesis by (simp add: view_begin_call alarm_effect_def)
  next
    case (Withdraw_unlock k cb removed)
    with assms obtain sh1 where sh1: "unlock_mutex i sh = Some sh1"
      and fin: "finish_withdrawal k th removed (commit i (Withdrawn cb removed) sh1) = (sh', th')"
      by (auto simp: thread_step_def)
    from out [OF fin] sh1 Withdraw_unlock show ?thesis
      by (auto simp: view_finish_withdrawal alarm_effect_def commit_def unlock_mutex_def split: if_splits)
  next
    case (Update_test c)
    with assms have "update_test_step ops th c sh = (sh', th')" by (simp add: thread_step_def)
    from update_test_cases [OF this] Update_test show ?thesis
      using view_return_from_update [of th c UNKNOWN sh] by (auto simp: alarm_effect_def goto_def)
  next
    case (Update_poll c n)
    let ?sh = "sh\<lparr>hal := alarm_effect env (th_pc th) (hal sh)\<rparr>"
    from assms Update_poll have "return_from_update th c SUCCESS ?sh = (sh', th')"
      by (simp add: thread_step_def update_poll_step_def alarm_effect_def Let_def)
    from out [OF this] show ?thesis by (simp add: view_return_from_update)
  next
    case (Notify_loop info it told)
    with assms show ?thesis
      by (auto simp: thread_step_def notify_loop_step_def goto_def alarm_effect_def on_hal_run Let_def
          view_event [unfolded record_event_def] sets_timer_def split: if_splits)
  next
    case (Notify_next info it cb ret told)
    with assms show ?thesis
      by (auto simp: thread_step_def notify_next_step_def goto_def alarm_effect_def split: if_splits)
  next
    case (Withdraw_loop k cb it removed)
    with assms show ?thesis
      by (auto simp: thread_step_def withdraw_loop_step_def goto_def alarm_effect_def Let_def split: if_splits)
  next
    case Notify_read
    with assms view_on_hal [OF view_average [of _ env], of sh] show ?thesis
      by (auto simp: thread_step_def goto_def alarm_effect_def on_hal_run split: prod.splits)
  next
    case (Info_report rep)
    with assms view_on_hal [OF view_info_report [of _ env rep], of sh] show ?thesis
      by (auto simp: thread_step_def finish_def alarm_effect_def)
  next
    case (Update_set_timer c n)
    with assms show ?thesis
      by (auto simp: thread_step_def update_set_timer_step_def goto_def alarm_effect_def on_hal_run Let_def
          record_event_def)
  qed (use assms in \<open>auto simp: thread_step_def update_step_defs goto_def finish_def alarm_effect_def Let_def
    lock_mutex_def unlock_mutex_def commit_def on_hal_run view_event [unfolded record_event_def] sets_timer_def
    split: if_splits\<close>)
qed

section \<open>The invariant\<close>

definition mode_updates :: "healthd_mode_ops option \<Rightarrow> bool" where
  "mode_updates ops \<longleftrightarrow> (case ops of None \<Rightarrow> False | Some ops \<Rightarrow> \<not> Option.is_none (op_battery_update ops))"

abbreviation fast_interval :: "health_state \<Rightarrow> int" where
  "fast_interval s \<equiv> periodic_chores_interval_fast (healthd_config s)"

text \<open>Whether an \<open>update\<close> in state \<open>s\<close> sets the timer, and what it leaves.\<close>

definition rearms :: "healthd_mode_ops option \<Rightarrow> health_state \<Rightarrow> bool" where
  "rearms ops s \<longleftrightarrow> mode_updates ops \<and> fast_interval s \<noteq> wakealarm_wake_interval s \<and> wakealarm_fd s \<noteq> -1"

definition target_interval :: "healthd_mode_ops option \<Rightarrow> health_state \<Rightarrow> int" where
  "target_interval ops s = (if rearms ops s then fast_interval s else wakealarm_wake_interval s)"

definition target_poll :: "healthd_mode_ops option \<Rightarrow> health_state \<Rightarrow> int" where
  "target_poll ops s = (if mode_updates ops then -1 else awake_poll_interval s)"

lemma run_update:
  assumes "run_state (update env ops) s = (r, u)"
  shows "wakealarm_wake_interval u = target_interval ops s \<and> awake_poll_interval u = target_poll ops s"
proof (cases "case ops of None \<Rightarrow> True | Some ops \<Rightarrow> Option.is_none (op_battery_update ops)")
  case True
  then have "\<not> mode_updates ops" by (simp add: mode_updates_def split: option.splits)
  moreover from True assms have "u = s" by (simp only: update_def if_True) simp
  ultimately show ?thesis by (simp add: target_interval_def target_poll_def rearms_def)
next
  case False
  then have "mode_updates ops" by (simp add: mode_updates_def split: option.splits)
  moreover from False assms have "u = snd (run_state (healthd_battery_update_internal env True) s)"
    by (simp only: update_def if_False) (simp split: prod.splits)
  ultimately show ?thesis
    by (auto simp: run_update_internal target_interval_def target_poll_def rearms_def Let_def)
qed

text \<open>In every state that threads reach from \<open>s\<close>; and once an \<open>update\<close> has run to its end.\<close>

definition alarm_ok :: "healthd_mode_ops option \<Rightarrow> health_state \<Rightarrow> health_state \<Rightarrow> bool" where
  "alarm_ok ops s x \<longleftrightarrow>
     healthd_config x = healthd_config s \<and> wakealarm_fd x = wakealarm_fd s \<and>
     wakealarm_wake_interval x \<in> {wakealarm_wake_interval s, target_interval ops s} \<and>
     awake_poll_interval x \<in> {awake_poll_interval s, target_poll ops s}"

definition settled :: "healthd_mode_ops option \<Rightarrow> health_state \<Rightarrow> health_state \<Rightarrow> bool" where
  "settled ops s x \<longleftrightarrow>
     wakealarm_wake_interval x = target_interval ops s \<and> awake_poll_interval x = target_poll ops s"

definition update_point_ok ::
  "healthd_mode_ops option \<Rightarrow> health_state \<Rightarrow> health_state \<Rightarrow> health_pc \<Rightarrow> bool" where
  "update_point_ok ops s x pc \<longleftrightarrow>
     (case pc of
        Update_compare _ \<Rightarrow> mode_updates ops
      | Update_fd _ n \<Rightarrow> mode_updates ops \<and> n = fast_interval s \<and> n \<noteq> wakealarm_wake_interval s
      | Update_write _ n \<Rightarrow> rearms ops s \<and> n = fast_interval s
      | Update_set_timer _ n \<Rightarrow> rearms ops s \<and> n = fast_interval s \<and> wakealarm_wake_interval x = n
      | Update_poll _ n \<Rightarrow>
          mode_updates ops \<and> n = fast_interval s \<and> wakealarm_wake_interval x = target_interval ops s
      | Info_report _ \<Rightarrow> settled ops s x
      | _ \<Rightarrow> True)"

lemma alarm_view_fields:
  assumes "alarm_view x = alarm_view y"
  shows "healthd_config x = healthd_config y" "wakealarm_fd x = wakealarm_fd y"
    "wakealarm_wake_interval x = wakealarm_wake_interval y" "awake_poll_interval x = awake_poll_interval y"
    "timers x = timers y"
  using assms by (simp_all add: alarm_view_def)

lemma alarm_view_cong:
  assumes "alarm_view x = alarm_view y"
  shows "alarm_ok ops s x = alarm_ok ops s y" "settled ops s x = settled ops s y"
    "update_point_ok ops s x pc = update_point_ok ops s y pc"
  using alarm_view_fields [OF assms]
  by (simp_all add: alarm_ok_def settled_def update_point_ok_def cong: health_pc.case_cong)

text \<open>What a thread does to the alarm, and that it spoils nothing for the others.\<close>

lemma alarm_moves:
  assumes step: "thread_step env ops i sh th = Some (sh', th')" and ok: "alarm_ok ops s (hal sh)"
    and pc: "update_point_ok ops s (hal sh) (th_pc th)"
  shows "alarm_ok ops s (hal sh') \<and>
    wakealarm_wake_interval (hal sh') \<in> {wakealarm_wake_interval (hal sh), target_interval ops s} \<and>
    awake_poll_interval (hal sh') \<in> {awake_poll_interval (hal sh), target_poll ops s}"
  using ok pc alarm_view_fields(1-4) [OF alarm_step [OF step]]
  by (cases "th_pc th")
     (simp_all add: alarm_ok_def update_point_ok_def alarm_effect_def record_event_def target_interval_def
      target_poll_def Let_def)

lemma undisturbed_point:
  assumes "wakealarm_wake_interval y \<in> {wakealarm_wake_interval x, target_interval ops s}"
    and "awake_poll_interval y \<in> {awake_poll_interval x, target_poll ops s}"
  shows "settled ops s x \<Longrightarrow> settled ops s y"
    and "update_point_ok ops s x pc \<Longrightarrow> update_point_ok ops s y pc"
proof -
  show settled: "settled ops s x \<Longrightarrow> settled ops s y" using assms by (auto simp: settled_def)
  show "update_point_ok ops s x pc \<Longrightarrow> update_point_ok ops s y pc"
    using assms settled by (cases pc) (auto simp: update_point_ok_def target_interval_def)
qed

text \<open>The thread's own next point.\<close>

lemma begin_call_point: "update_point_ok ops s x (th_pc (snd (begin_call env ops th c sh)))"
  by (auto simp: begin_call_def goto_def finish_def finish_answer_def update_point_ok_def
      split: health_call.split health_request.split option.split list.split)

lemma return_from_update_point:
  assumes "return_from_update th c r sh1 = (sh', th')" and "settled ops s (hal sh1)"
  shows "settled ops s (hal sh') \<and> update_point_ok ops s (hal sh') (th_pc th')"
proof -
  have view: "alarm_view (hal sh') = alarm_view (hal sh1)"
    using view_return_from_update [of th c r sh1] assms(1) by simp
  with assms alarm_view_cong(2) have "settled ops s (hal sh')" by blast
  with assms(1) show ?thesis
    by (cases c) (auto simp: goto_def finish_def finish_answer_def update_point_ok_def)
qed

lemma point_step:
  assumes step: "thread_step env ops i sh th = Some (sh', th')" and ok: "alarm_ok ops s (hal sh)"
    and pc: "update_point_ok ops s (hal sh) (th_pc th)"
  shows "update_point_ok ops s (hal sh') (th_pc th') \<and>
    (updating (th_pc th) \<noteq> None \<and> th_done th' \<noteq> th_done th \<longrightarrow> settled ops s (hal sh'))"
proof (cases "th_pc th")
  case Idle
  with step obtain c cs where "begin_call env ops th c sh = (sh', th')"
    by (auto simp: thread_step_def idle_step_def split: list.splits)
  with Idle begin_call_point [of ops s "hal sh'" env th c sh] show ?thesis by simp
next
  case (Withdraw_unlock k cb removed)
  with step obtain sh1 where "finish_withdrawal k th removed sh1 = (sh', th')"
    by (auto simp: thread_step_def)
  with Withdraw_unlock finish_withdrawal_alone [of k th removed sh1] show ?thesis by (simp add: update_point_ok_def)
next
  case (Update_test c)
  with step have "update_test_step ops th c sh = (sh', th')" by (simp add: thread_step_def)
  then consider (off) "\<not> mode_updates ops" "return_from_update th c UNKNOWN sh = (sh', th')"
    | (on) "mode_updates ops" "goto th (Update_compare c) sh = (sh', th')"
    by (cases "mode_updates ops") (auto simp: update_test_step_def mode_updates_def split: option.splits)
  then show ?thesis
  proof cases
    case off
    with ok have "settled ops s (hal sh)"
      by (auto simp: alarm_ok_def settled_def target_interval_def target_poll_def rearms_def)
    from return_from_update_point [OF off(2) this] show ?thesis by simp
  qed (auto simp: goto_def update_point_ok_def)
next
  case (Update_poll c n)
  let ?sh = "sh\<lparr>hal := alarm_effect env (th_pc th) (hal sh)\<rparr>"
  from step Update_poll have run: "return_from_update th c SUCCESS ?sh = (sh', th')"
    by (simp add: thread_step_def update_poll_step_def alarm_effect_def Let_def)
  have "settled ops s (hal ?sh)"
    using Update_poll pc ok
    by (simp add: alarm_effect_def update_point_ok_def settled_def alarm_ok_def target_poll_def Let_def
        target_interval_def)
  from return_from_update_point [OF run this] show ?thesis by simp
next
  case (Info_report rep)
  with step have "th_pc th' = Idle" by (auto simp: thread_step_def finish_def)
  moreover have "settled ops s (hal sh')"
    using alarm_view_cong(2) [OF alarm_step [OF step]] Info_report pc
    by (simp add: alarm_effect_def update_point_ok_def)
  ultimately show ?thesis by (simp add: update_point_ok_def)
next
  case (Update_compare c)
  with step pc ok show ?thesis
    by (auto simp: thread_step_def update_compare_step_def goto_def update_point_ok_def Let_def alarm_ok_def
        target_interval_def rearms_def split: if_splits)
next
  case (Update_fd c n)
  with step pc ok show ?thesis
    by (auto simp: thread_step_def update_fd_step_def goto_def update_point_ok_def alarm_ok_def
        target_interval_def rearms_def split: if_splits)
next
  case (Update_write c n)
  with step pc show ?thesis
    by (auto simp: thread_step_def update_write_step_def goto_def update_point_ok_def)
next
  case (Update_set_timer c n)
  with step pc show ?thesis
    by (auto simp: thread_step_def update_set_timer_step_def goto_def update_point_ok_def Let_def on_hal_run
        target_interval_def rearms_def mode_updates_def)
next
  case (Withdraw_loop k cb it removed)
  with step show ?thesis
    by (auto simp: thread_step_def withdraw_loop_step_def goto_def update_point_ok_def Let_def split: if_splits)
next
  case (Notify_loop info it told)
  with step show ?thesis
    by (auto simp: thread_step_def notify_loop_step_def goto_def update_point_ok_def Let_def on_hal_run
        split: if_splits)
next
  case (Notify_next info it cb ret told)
  with step show ?thesis
    by (auto simp: thread_step_def notify_next_step_def goto_def update_point_ok_def split: if_splits)
qed (use step in \<open>auto simp: thread_step_def goto_def finish_def update_point_ok_def split: prod.splits\<close>)

section \<open>Who has updated\<close>

definition runs_update :: "health_call \<Rightarrow> bool" where
  "runs_update c \<longleftrightarrow>
     (case c of
        Request (RegisterCallback (Some _)) \<Rightarrow> True | Request Update \<Rightarrow> True | Request GetHealthInfo \<Rightarrow> True
      | Request (Debug (Some (_ # _))) \<Rightarrow> True | _ \<Rightarrow> False)"

lemma begin_call_done:
  assumes "begin_call env ops th c sh = (sh', th')" and "th_todo th = c # cs"
  shows "th_done th' = th_done th \<or> (\<exists>out. th_done th' = th_done th @ [(c, out)]) \<and> \<not> runs_update c"
  using assms
  by (auto simp: begin_call_def move_defs runs_update_def
      split: health_call.splits health_request.splits option.splits list.splits)

text \<open>A call that updates ends in \<open>update\<close>, or just behind it.\<close>

lemma done_step:
  assumes step: "thread_step env ops i sh th = Some (sh', th')" and ok: "thread_ok i calls sh th"
    and "d \<in> set (th_done th')" and "d \<notin> set (th_done th)" and "runs_update (fst d)"
  shows "updating (th_pc th) \<noteq> None \<and> th_done th' \<noteq> th_done th"
proof (rule ccontr)
  assume "\<not> ?thesis"
  with assms(3,4) have none: "updating (th_pc th) = None" by auto
  show False
  proof (cases "serving (th_pc th)")
    case None
    then have "th_pc th = Idle" by (auto simp: serving_def split: health_pc.splits option.splits)
    with step obtain c cs where "begin_call env ops th c sh = (sh', th')" "th_todo th = c # cs"
      by (auto simp: thread_step_def idle_step_def split: list.splits)
    from begin_call_done [OF this] assms(3-5) show False by auto
  next
    case (Some c)
    with ok obtain cs where todo: "th_todo th = c # cs" by (auto simp: thread_ok_def)
    show False
    proof (cases "th_pc th")
      case Idle
      with Some show False by (simp add: serving_def)
    next
      case (Withdraw_unlock k cb removed)
      with step obtain sh1 where "finish_withdrawal k th removed sh1 = (sh', th')"
        by (auto simp: thread_step_def)
      then obtain out where "th_done th' = th_done th @ [(c, out)]"
        using finish_withdrawal_thread [of k th removed sh1] todo by (auto simp: finish_def)
      with Withdraw_unlock Some assms(3-5) show False
        by (cases k) (auto simp: serving_def withdrawal_call_def runs_update_def)
    next
      case (Notify_unlock info told)
      with step todo Some assms(3-5) show False
        by (auto simp: thread_step_def finish_def serving_def runs_update_def split: if_splits)
    qed (use step none assms(3,4) in \<open>auto simp: thread_step_def goto_def withdraw_loop_step_def notify_loop_step_def
      notify_next_step_def Let_def split: if_splits prod.splits\<close>)
  qed
qed

section \<open>The pool\<close>

definition updates_ok ::
  "healthd_mode_ops option \<Rightarrow> health_state \<Rightarrow> health_call list list \<Rightarrow> nat \<Rightarrow> health_shared \<Rightarrow> health_thread \<Rightarrow> bool" where
  "updates_ok ops s calls i sh th \<longleftrightarrow>
     serves calls i sh th \<and> alarm_ok ops s (hal sh) \<and> update_point_ok ops s (hal sh) (th_pc th) \<and>
     (\<forall>d \<in> set (th_done th). runs_update (fst d) \<longrightarrow> settled ops s (hal sh))"

interpretation updaters: thread_modular "thread_step env ops" "updates_ok ops s calls" "\<lambda>_ sh. alarm_ok ops s (hal sh)"
  for env ops s calls
proof
  fix i j sh th sh' th' u
  assume step: "thread_step env ops i sh th = Some (sh', th')" and own: "updates_ok ops s calls i sh th"
  then have ok: "alarm_ok ops s (hal sh)" and pc: "update_point_ok ops s (hal sh) (th_pc th)"
    and th: "thread_ok i (calls ! i) sh th"
    by (simp_all add: updates_ok_def serves_def)
  note moves = alarm_moves [OF step ok pc]
  then have same: "wakealarm_wake_interval (hal sh') \<in> {wakealarm_wake_interval (hal sh), target_interval ops s}"
    "awake_poll_interval (hal sh') \<in> {awake_poll_interval (hal sh), target_poll ops s}" by simp_all
  note kept = undisturbed_point [OF same]
  have "settled ops s (hal sh')" if "d \<in> set (th_done th')" "runs_update (fst d)" for d
  proof (cases "d \<in> set (th_done th)")
    case True
    with own that kept(1) show ?thesis by (auto simp: updates_ok_def)
  next
    case False
    from done_step [OF step th that(1) this that(2)] point_step [OF step ok pc] show ?thesis by blast
  qed
  then show "updates_ok ops s calls i sh' th'"
    using moves point_step [OF step ok pc] servers.own_kept [OF step] own by (auto simp: updates_ok_def)
  show "j \<noteq> i \<Longrightarrow> updates_ok ops s calls j sh u \<Longrightarrow> updates_ok ops s calls j sh' u"
    using moves kept servers.own_undisturbed [OF step, of calls j u] own by (auto simp: updates_ok_def)
  show "alarm_ok ops s (hal sh')" if "alarm_ok ops s (hal sh)" using moves by simp
qed

lemma alarm_ok_refl: "alarm_ok ops s s"
  by (simp add: alarm_ok_def)

lemma updaters_start: "updaters.pool_ok ops s calls (length calls) (health_pool s calls)"
  using servers_start [of calls s] alarm_ok_refl [of ops s]
  by (simp add: updaters.pool_ok_def servers.pool_ok_def updates_ok_def health_pool_def update_point_ok_def)

section \<open>How often the timer is set\<close>

definition at_timer :: "health_pc \<Rightarrow> bool" where
  "at_timer pc = (case pc of Update_set_timer _ _ \<Rightarrow> True | _ \<Rightarrow> False)"

text \<open>A thread that found the old interval, and has not set the timer yet.\<close>

definition arming :: "health_pc \<Rightarrow> bool" where
  "arming pc = (case pc of Update_fd _ _ \<Rightarrow> True | Update_write _ _ \<Rightarrow> True | _ \<Rightarrow> at_timer pc)"

lemma at_timer_arming: "at_timer pc \<Longrightarrow> arming pc"
  by (cases pc) (simp_all add: arming_def at_timer_def)

definition arming_threads :: "health_thread list \<Rightarrow> nat" where
  "arming_threads ts = (\<Sum>th\<leftarrow>ts. of_bool (arming (th_pc th)))"

definition arms :: "healthd_mode_ops option \<Rightarrow> health_state \<Rightarrow> health_event \<Rightarrow> bool" where
  "arms ops s e \<longleftrightarrow>
     (\<exists>ok. e = TimerSetInterval (wakealarm_fd s) (if target_interval ops s = -1 then 0 else target_interval ops s) ok)"

definition timers_ok :: "healthd_mode_ops option \<Rightarrow> health_state \<Rightarrow> health_pool \<Rightarrow> bool" where
  "timers_ok ops s p \<longleftrightarrow>
     (\<exists>new. timers (hal (fst p)) = timers s @ new \<and> list_all (arms ops s) new \<and>
        length new + arming_threads (snd p) \<le> length (snd p) \<and>
        (if wakealarm_wake_interval (hal (fst p)) = wakealarm_wake_interval s then new = []
         else new \<noteq> [] \<or> (\<exists>th \<in> set (snd p). at_timer (th_pc th))))"

lemma arming_threads_bound: "arming_threads ts \<le> length ts"
  unfolding arming_threads_def by (induction ts) auto

lemma arming_threads_update:
  "i < length ts \<Longrightarrow> arming_threads (ts[i := th]) + of_bool (arming (th_pc (ts ! i))) =
     arming_threads ts + of_bool (arming (th_pc th))"
  unfolding arming_threads_def by (rule sum_list_update)

lemma return_from_update_arming: "return_from_update th c r x = (sh', th') \<Longrightarrow> \<not> arming (th_pc th')"
  by (cases c) (auto simp: goto_def finish_def finish_answer_def arming_def at_timer_def)

text \<open>A thread starts on its way to the timer by finding that the interval is not the one it wants.\<close>

lemma arming_from:
  assumes step: "thread_step env ops i sh th = Some (sh', th')" and "arming (th_pc th')"
  shows "arming (th_pc th) \<and> \<not> at_timer (th_pc th) \<or>
    (\<exists>c. th_pc th = Update_compare c \<and> fast_interval (hal sh) \<noteq> wakealarm_wake_interval (hal sh))"
proof (cases "th_pc th")
  case Idle
  with step obtain c cs where "begin_call env ops th c sh = (sh', th')" "th_todo th = c # cs"
    by (auto simp: thread_step_def idle_step_def split: list.splits)
  from begin_call_shape [OF this] assms(2) show ?thesis by (auto simp: arming_def at_timer_def)
next
  case (Withdraw_unlock k cb removed)
  with step obtain sh1 where "finish_withdrawal k th removed sh1 = (sh', th')"
    by (auto simp: thread_step_def)
  with finish_withdrawal_alone [of k th removed sh1] assms(2) show ?thesis by (simp add: arming_def at_timer_def)
next
  case (Update_test c)
  with step have "update_test_step ops th c sh = (sh', th')" by (simp add: thread_step_def)
  from update_test_cases [OF this] assms(2) return_from_update_arming [of th c UNKNOWN sh sh' th']
  show ?thesis by (auto simp: goto_def arming_def at_timer_def)
next
  case (Update_poll c n)
  with step assms(2) show ?thesis
    by (auto simp: thread_step_def update_poll_step_def Let_def dest: return_from_update_arming)
qed (use assms in \<open>auto simp: thread_step_def withdraw_loop_step_def notify_loop_step_def notify_next_step_def
  update_compare_step_def update_fd_step_def update_write_step_def update_set_timer_step_def goto_def finish_def
  arming_def at_timer_def Let_def split: if_splits prod.splits\<close>)

lemma timers_step:
  assumes step: "thread_step env ops i sh th = Some (sh', th')" and ok: "alarm_ok ops s (hal sh)"
    and pc: "update_point_ok ops s (hal sh) (th_pc th)"
  shows "if at_timer (th_pc th)
     then \<exists>e. timers (hal sh') = timers (hal sh) @ [e] \<and> arms ops s e \<and> \<not> arming (th_pc th') \<and>
       wakealarm_wake_interval (hal sh') \<noteq> wakealarm_wake_interval s
     else timers (hal sh') = timers (hal sh) \<and>
       (at_timer (th_pc th') \<and> arming (th_pc th) \<and> wakealarm_wake_interval (hal sh') \<noteq> wakealarm_wake_interval s \<or>
        wakealarm_wake_interval (hal sh') = wakealarm_wake_interval (hal sh) \<and>
        (arming (th_pc th') \<longrightarrow> arming (th_pc th) \<or> wakealarm_wake_interval (hal sh) = wakealarm_wake_interval s))"
proof -
  note fields = alarm_view_fields [OF alarm_step [OF step]]
  show ?thesis
  proof (cases "th_pc th")
    case (Update_set_timer c n)
    with step have "\<not> arming (th_pc th')"
      by (auto simp: thread_step_def update_set_timer_step_def goto_def arming_def at_timer_def Let_def)
    with Update_set_timer fields pc ok show ?thesis
      by (auto simp: at_timer_def alarm_effect_def record_event_def sets_timer_def arms_def update_point_ok_def
          alarm_ok_def target_interval_def rearms_def Let_def)
  next
    case (Update_write c n)
    with step fields pc show ?thesis
      by (auto simp: thread_step_def update_write_step_def goto_def at_timer_def arming_def alarm_effect_def
          update_point_ok_def rearms_def)
  next
    case (Update_poll c n)
    with fields arming_from [OF step] show ?thesis by (auto simp: at_timer_def arming_def alarm_effect_def Let_def)
  qed (use fields arming_from [OF step] ok in \<open>auto simp: at_timer_def arming_def alarm_effect_def alarm_ok_def
    target_interval_def split: if_splits\<close>)
qed

lemma at_timer_stays:
  assumes "\<exists>th \<in> set ts. at_timer (th_pc th)" and "\<not> at_timer (th_pc (ts ! i))"
  shows "\<exists>th \<in> set (ts[i := th']). at_timer (th_pc th)"
proof -
  from assms(1) obtain j where "j < length ts" "at_timer (th_pc (ts ! j))" by (auto simp: in_set_conv_nth)
  with assms(2) have "j < length (ts[i := th'])" "at_timer (th_pc (ts[i := th'] ! j))"
    by (metis length_list_update, metis nth_list_update_neq)
  then show ?thesis by (meson nth_mem)
qed

lemma timers_ok_step:
  assumes step: "health_step env ops p p'" and own: "updaters.pool_ok ops s calls (length calls) p"
    and ok: "timers_ok ops s p"
  shows "timers_ok ops s p'"
  using step
proof cases
  case (move i ts sh sh' th')
  note pool = updaters.pool_okD [of ops s calls "length calls" sh ts]
  have "updates_ok ops s calls i sh (ts ! i)" using pool own move(1,3) by simp
  then have here: "alarm_ok ops s (hal sh)" "update_point_ok ops s (hal sh) (th_pc (ts ! i))"
    by (simp_all add: updates_ok_def)
  note moved = timers_step [OF move(4) here]
  from ok move(1) obtain new where new: "timers (hal sh) = timers s @ new" "list_all (arms ops s) new"
    and few: "length new + arming_threads ts \<le> length ts"
    and old: "wakealarm_wake_interval (hal sh) = wakealarm_wake_interval s \<Longrightarrow> new = []"
    and set: "wakealarm_wake_interval (hal sh) \<noteq> wakealarm_wake_interval s \<Longrightarrow>
      new \<noteq> [] \<or> (\<exists>th \<in> set ts. at_timer (th_pc th))"
    by (auto simp: timers_ok_def split: if_splits)
  note count = arming_threads_update [OF move(3), of th'] and bound = arming_threads_bound [of "ts[i := th']"]
  show ?thesis
  proof (cases "at_timer (th_pc (ts ! i))")
    case True
    then have "arming (th_pc (ts ! i))" by (simp add: at_timer_arming)
    with True moved obtain e where e: "timers (hal sh') = timers (hal sh) @ [e]" "arms ops s e"
      "\<not> arming (th_pc th')" "wakealarm_wake_interval (hal sh') \<noteq> wakealarm_wake_interval s" by auto
    with count few \<open>arming (th_pc (ts ! i))\<close> have "length (new @ [e]) + arming_threads (ts[i := th']) \<le> length ts"
      by simp
    with e new move(2) show ?thesis unfolding timers_ok_def by (intro exI [of _ "new @ [e]"]) simp
  next
    case False
    with moved have same: "timers (hal sh') = timers (hal sh)" by simp
    have "length new + arming_threads (ts[i := th']) \<le> length ts"
    proof (cases "arming (th_pc th') \<longrightarrow> arming (th_pc (ts ! i))")
      case True
      with count few show ?thesis by (auto simp: of_bool_def split: if_splits)
    next
      case start: False
      with moved False old have "new = []" by auto
      with bound show ?thesis by simp
    qed
    moreover have "if wakealarm_wake_interval (hal sh') = wakealarm_wake_interval s then new = []
      else new \<noteq> [] \<or> (\<exists>th \<in> set (ts[i := th']). at_timer (th_pc th))"
    proof (cases "at_timer (th_pc th') \<and> wakealarm_wake_interval (hal sh') \<noteq> wakealarm_wake_interval s")
      case True
      with set_update_memI [OF move(3), of th'] show ?thesis by auto
    next
      case stay: False
      with moved False have wake: "wakealarm_wake_interval (hal sh') = wakealarm_wake_interval (hal sh)" by auto
      with old set at_timer_stays [OF _ False, of th'] show ?thesis by auto
    qed
    ultimately show ?thesis using same new move(2) by (auto simp: timers_ok_def)
  qed
qed

lemma timers_ok_reachable:
  assumes "(health_step env ops)\<^sup>*\<^sup>* (health_pool s calls) p"
  shows "updaters.pool_ok ops s calls (length calls) p \<and> timers_ok ops s p"
  using assms
proof (induction rule: rtranclp_induct)
  case base
  have "arming_threads (snd (health_pool s calls)) = 0"
    by (simp add: health_pool_def arming_threads_def comp_def arming_def at_timer_def)
  then show ?case using updaters_start by (simp add: timers_ok_def health_pool_def)
next
  case (step p p')
  then show ?case using updaters.pool_ok_step timers_ok_step by blast
qed

text \<open>C9: The race in \<open>update\<close> is benign. Several threads may be inside \<open>update\<close> at once, and nothing guards the intervals it compares and writes. Still, in every state they reach, each interval is the one they started from or the one a single \<open>update\<close> would leave; once any of them has finished a call that updates, both are the latter and stay so. The timer is set at most once per thread, each time to the very same value; and when all threads rest, it has been set if and only if the interval has changed.\<close>

theorem concurrent_updates_agree:
  assumes "(health_step env ops)\<^sup>*\<^sup>* (health_pool s calls) (sh, ts)" and "run_state (update env ops) s = (r, u)"
  shows "wakealarm_wake_interval (hal sh) \<in> {wakealarm_wake_interval s, wakealarm_wake_interval u} \<and>
    awake_poll_interval (hal sh) \<in> {awake_poll_interval s, awake_poll_interval u} \<and>
    (\<forall>i < length calls. \<forall>d \<in> set (th_done (ts ! i)). runs_update (fst d) \<longrightarrow>
       wakealarm_wake_interval (hal sh) = wakealarm_wake_interval u \<and>
       awake_poll_interval (hal sh) = awake_poll_interval u) \<and>
    (\<exists>new. timers (hal sh) = timers s @ new \<and> length new \<le> length calls \<and>
       (\<forall>e \<in> set new. \<exists>ok. e = TimerSetInterval (wakealarm_fd s)
          (if wakealarm_wake_interval u = -1 then 0 else wakealarm_wake_interval u) ok) \<and>
       ((\<forall>i < length calls. th_pc (ts ! i) = Idle) \<longrightarrow>
          (new \<noteq> [] \<longleftrightarrow> wakealarm_wake_interval (hal sh) \<noteq> wakealarm_wake_interval s)))"
proof -
  note u = run_update [OF assms(2)]
  note reach = timers_ok_reachable [OF assms(1)]
  note pool = updaters.pool_okD [OF conjunct1 [OF reach]]
  have len: "length ts = length calls" and ok: "alarm_ok ops s (hal sh)" using pool(1) by simp_all
  have "settled ops s (hal sh)" if "i < length calls" "d \<in> set (th_done (ts ! i))" "runs_update (fst d)" for i d
    using pool(2) [OF that(1)] that(2,3) by (auto simp: updates_ok_def)
  moreover from reach obtain new where new: "timers (hal sh) = timers s @ new" "list_all (arms ops s) new"
    "length new \<le> length ts"
    "if wakealarm_wake_interval (hal sh) = wakealarm_wake_interval s then new = []
     else new \<noteq> [] \<or> (\<exists>th \<in> set ts. at_timer (th_pc th))"
    unfolding timers_ok_def fst_conv snd_conv by (elim conjE exE) simp
  moreover have "\<not> (\<exists>th \<in> set ts. at_timer (th_pc th))" if "\<forall>i < length calls. th_pc (ts ! i) = Idle"
    using that len by (auto simp: in_set_conv_nth at_timer_def)
  ultimately have "\<exists>new. timers (hal sh) = timers s @ new \<and> length new \<le> length calls \<and>
       (\<forall>e \<in> set new. \<exists>ok. e = TimerSetInterval (wakealarm_fd s)
          (if wakealarm_wake_interval u = -1 then 0 else wakealarm_wake_interval u) ok) \<and>
       ((\<forall>i < length calls. th_pc (ts ! i) = Idle) \<longrightarrow>
          (new \<noteq> [] \<longleftrightarrow> wakealarm_wake_interval (hal sh) \<noteq> wakealarm_wake_interval s))"
    using u len by (intro exI [of _ new]) (auto simp: arms_def list_all_iff split: if_splits)
  with ok u \<open>\<And>d i. \<lbrakk>i < length calls; d \<in> set (th_done (ts ! i)); runs_update (fst d)\<rbrakk> \<Longrightarrow> settled ops s (hal sh)\<close>
  show ?thesis by (simp add: alarm_ok_def settled_def)
qed

section \<open>Samples\<close>

text \<open>Two threads update an alarm that wakes every ten minutes; both find that interval before either
  writes.\<close>

definition sample_alarm :: health_state where
  "sample_alarm = initial_state\<lparr>wakealarm_wake_interval := 600, wakealarm_fd := 7\<rparr>"

definition sample_update_pool :: health_pool where
  "sample_update_pool = health_pool sample_alarm [[Request Update], [Request GetHealthInfo]]"

definition sample_ops :: "healthd_mode_ops option" where
  "sample_ops = Some (healthd_mode_service_2_0_ops sample_health)"

definition sample_update_schedule :: "nat list" where
  "sample_update_schedule = [0, 0, 0, 1, 1, 1] @ replicate 4 0 @ replicate 5 1"

lemma sample_updates_run:
  "map_option (\<lambda>p. (wakealarm_wake_interval (hal (fst p)), awake_poll_interval (hal (fst p)),
      length (timers (hal (fst p))), map (\<lambda>th. (is_Idle (th_pc th), map fst (th_done th))) (snd p)))
     (run_schedule (thread_step sample_health sample_ops) sample_update_schedule sample_update_pool) =
   Some (60, -1, 2, [(True, [Request Update]), (True, [Request GetHealthInfo])])"
  by code_simp

text \<open>The price of the race: \<open>update\<close> may report success before the timer has been set, by another
  thread.\<close>

lemma update_before_alarm:
  "map_option (\<lambda>p. (length (timers (hal (fst p))), map (\<lambda>th. map fst (th_done th)) (snd p)))
     (run_schedule (thread_step sample_health sample_ops) (replicate 5 0 @ replicate 5 1) sample_update_pool) =
   Some (0, [[], [Request GetHealthInfo]])"
  by code_simp

theorem concurrent_updates_agree_witness:
  "\<exists>p. run_schedule (thread_step sample_health sample_ops) sample_update_schedule sample_update_pool = Some p \<and>
     wakealarm_wake_interval (snd (run_state (update sample_health sample_ops) sample_alarm)) = 60 \<and>
     awake_poll_interval (snd (run_state (update sample_health sample_ops) sample_alarm)) = -1 \<and>
     (\<forall>e \<in> set (timers (hal (fst p))). \<exists>ok. e = TimerSetInterval 7 60 ok) \<and> length (timers (hal (fst p))) = 2"
proof -
  obtain sh ts where run: "run_schedule (thread_step sample_health sample_ops) sample_update_schedule sample_update_pool = Some (sh, ts)"
    and outcome: "wakealarm_wake_interval (hal sh) = 60" "awake_poll_interval (hal sh) = -1" "length (timers (hal sh)) = 2"
      "map fst (th_done (ts ! 0)) = [Request Update]"
    using sample_updates_run by (auto simp: map_eq_Cons_conv)
  obtain r u where u: "run_state (update sample_health sample_ops) sample_alarm = (r, u)" by (rule run_state_obtain1)
  from outcome(4) obtain d where d: "d \<in> set (th_done (ts ! 0))" "fst d = Request Update"
    by (auto simp: map_eq_Cons_conv)
  note agree = concurrent_updates_agree [OF run_schedule_reachable [OF run [unfolded sample_update_pool_def]] u]
  have "runs_update (fst d)" using d(2) by (simp add: runs_update_def)
  with conjunct1 [OF conjunct2 [OF conjunct2 [OF agree]], THEN spec [of _ 0]] d(1) outcome(1,2)
  have intervals: "wakealarm_wake_interval u = 60" "awake_poll_interval u = -1" by auto
  have "\<exists>ok. e = TimerSetInterval 7 60 ok" if "e \<in> set (timers (hal sh))" for e
    using conjunct2 [OF conjunct2 [OF conjunct2 [OF agree]]] that intervals(1)
    by (auto simp: sample_alarm_def initial_state_def)
  with intervals run outcome(3) u show ?thesis by simp
qed

end
