(* ===== verification/Health_Types.thy ===== *)
theory Health_Types
  imports Health_Properties
begin

text \<open>
  Well-formedness of the health service's globals, for every environment and with no assumption on it:
  how many events are registered, and what the intervals can be.
\<close>

section \<open>Well-formed states\<close>

fun registration :: "health_event \<Rightarrow> bool" where
  "registration (EpollAdd _ _ _ _ ok) = ok"
| "registration _ = False"

text \<open>\<open>eventct\<close>, the size of the array of \<open>healthd_mainloop\<close>, counts the successful registrations; polling
  while awake is off; the alarm has its initial interval or the fast one.\<close>

definition well_formed :: "int \<Rightarrow> health_state \<Rightarrow> bool" where
  "well_formed k s \<longleftrightarrow>
     eventct s = int (length (filter registration (history s))) \<and> eventct s \<le> k \<and>
     awake_poll_interval s = -1 \<and>
     (wakealarm_wake_interval s = 60 \<or>
      wakealarm_wake_interval s = periodic_chores_interval_fast (healthd_config s))"

text \<open>The same, before the alarm is set up.\<close>

definition well_formed_init :: "int \<Rightarrow> health_state \<Rightarrow> bool" where
  "well_formed_init k s \<longleftrightarrow> well_formed k s \<and> wakealarm_wake_interval s = 60"

section \<open>Lemmas\<close>

lemmas wf_defs = well_formed_def well_formed_init_def

lemma wf_call:
  assumes "\<And>r. \<not> registration (ev r)"
  shows "keeps (well_formed k) (hcall reply ev)" "keeps (well_formed_init k) (hcall reply ev)"
  using assms by (auto intro!: keeps_hcall simp: wf_defs record_event_def)

text \<open>Well-formedness is a frame of the handlers.\<close>

lemma quiet_registers_nothing: "quiet e \<Longrightarrow> \<not> registration e"
  by (cases e) auto

interpretation wf: handler_frame env "well_formed k" for env k
proof unfold_locales
  show "keeps (well_formed k) (healthd_battery_update_internal env True)"
    by (rule keepsI) (auto simp: healthd_battery_update_internal_def wakealarm_set_interval_def
        well_formed_def split: if_splits)
qed (auto simp: well_formed_def record_event_def dest: quiet_registers_nothing)

lemma wf_iteration: "keeps (well_formed k) (mainloop_iteration env (healthd_mode_service_2_0_ops env) n)"
  unfolding mainloop_iteration_def periodic_chores_def
  by (auto simp: healthd_mode_service_2_0_ops_def healthd_mode_service_2_0_heartbeat_def
      healthd_mode_service_2_0_preparetowait_def
      intro!: keeps_rules wf_call wf.battery_update_frame wf.dispatch_frame split: wait_result.split)

lemma wf_mainloop: "keeps (well_formed k) (healthd_mainloop fuel env (healthd_mode_service_2_0_ops env) n)"
  by (induction fuel arbitrary: n) (auto intro!: keeps_rules wf_iteration split: sum.split option.split)

text \<open>A registration raises the bound by one.\<close>

lemma wf_register:
  "hoare (well_formed k) (healthd_register_event env fd h w) (\<lambda>_. well_formed (k + 1))"
  "hoare (well_formed_init k) (healthd_register_event env fd h w) (\<lambda>_. well_formed_init (k + 1))"
  by (auto simp: hoare_def healthd_register_event_def wf_defs)

lemma wf_more: "well_formed k s \<Longrightarrow> well_formed (k + 1) s" "well_formed_init k s \<Longrightarrow> well_formed_init (k + 1) s"
  by (auto simp: wf_defs)

lemma wf_initInstance: "keeps (well_formed_init k) (initInstance env)"
  unfolding initInstance_def new_Health_def
  by (intro keeps_rules wf_call) (auto simp: wf_defs healthd_board_init_def)

lemma wf_mode_init:
  "hoare (well_formed_init k) (op_init (healthd_mode_service_2_0_ops env)) (\<lambda>_. well_formed_init (k + 1))"
proof -
  have reg: "hoare (well_formed_init k)
      (if 0 \<le> fd then do {
          _ \<leftarrow> healthd_register_event env fd Binder_event EVENT_NO_WAKEUP_FD;
          return ()
        } else return ()) (\<lambda>_. well_formed_init (k + 1))" for fd
    using wf_register(2) [of k env fd Binder_event EVENT_NO_WAKEUP_FD] wf_more(2)
    by (auto simp: hoare_def split: prod.splits)
  have rest: "keeps (well_formed_init (k + 1)) (do {
       initInstance env;
       name \<leftarrow> gets gInstanceName;
       ok \<leftarrow> hcall (env_register_service env) (RegisterAsService name);
       if ok then returnOk () else return (Inl Abort)
     })"
    by (intro keeps_rules wf_initInstance wf_call) simp
  have fd: "keeps (well_formed_init k) (modify (\<lambda>s. s\<lparr>gBinderFd := fd\<rparr>))" for fd
    by (rule keeps_modify) (auto simp: wf_defs)
  have poll: "keeps (well_formed_init k) (hcall (env_setup_polling env) SetupTransportPolling)"
    by (rule wf_call) simp
  show ?thesis
    unfolding healthd_mode_service_2_0_ops_def healthd_mode_ops.simps healthd_mode_service_2_0_init_def
    by (rule hoare_bind [OF poll [unfolded keeps_def]], rule hoare_bind [OF fd [unfolded keeps_def]],
        rule hoare_bind [OF reg], rule rest [unfolded keeps_def])
qed

lemma wf_wakealarm_init: "hoare (well_formed_init k) (wakealarm_init env) (\<lambda>_. well_formed (k + 1))"
  by (auto simp: hoare_def wakealarm_init_def healthd_register_event_def wakealarm_set_interval_def wf_defs)

lemma wf_uevent_init: "hoare (well_formed k) (uevent_init env) (\<lambda>_. well_formed (k + 1))"
  by (auto simp: hoare_def uevent_init_def healthd_register_event_def well_formed_def)

lemma wf_healthd_init:
  "hoare (well_formed_init 0) (healthd_init env (healthd_mode_service_2_0_ops env)) (\<lambda>_. well_formed 3)"
proof -
  have up: "well_formed_init 0 s \<Longrightarrow> well_formed 3 s" "well_formed_init 1 s \<Longrightarrow> well_formed 3 s" for s
    by (auto simp: wf_defs)
  have create: "keeps (well_formed_init 0) (hcall (env_epoll_create env) EpollCreate)"
    by (rule wf_call) simp
  have fd: "keeps (well_formed_init 0) (modify (\<lambda>s. s\<lparr>epollfd := fd\<rparr>))" for fd
    by (rule keeps_modify) (auto simp: wf_defs)
  have rest: "hoare (well_formed_init 1) (do { wakealarm_init env; uevent_init env; returnOk 0 })
      (\<lambda>_. well_formed 3)"
    using wf_wakealarm_init [of 1 env] wf_uevent_init [of 2 env]
    by (fastforce simp: hoare_def split: prod.splits)
  have init: "hoare (well_formed_init 0) (op_init (healthd_mode_service_2_0_ops env)) (\<lambda>_. well_formed_init 1)"
    using wf_mode_init [of 0 env] by simp
  show ?thesis
    unfolding healthd_init_def
    by (rule hoare_bind [OF create [unfolded keeps_def]], rule hoare_bind [OF fd [unfolded keeps_def]])
       (auto intro!: hoare_bindE [OF init] rest intro: up simp: hoare_def [of _ "return _"])
qed

section \<open>The property\<close>

text \<open>C27: The globals of the health service are well formed at every moment of its life, whatever the kernel and its clients do: \<open>eventct\<close>, which sizes the array of the main loop, is exactly the number of successful registrations and never exceeds the three event sources; polling while awake stays off; and the alarm is at its initial interval or at the configured fast one, never at the slow one.\<close>

theorem health_state_well_formed:
  assumes "run_state (service_main fuel env) initial_state = (r, s)"
  shows "eventct s = int (length (filter registration (history s))) \<and> 0 \<le> eventct s \<and> eventct s \<le> 3 \<and>
     awake_poll_interval s = -1 \<and>
     wakealarm_wake_interval s \<in> {60, periodic_chores_interval_fast (healthd_config s)}"
proof -
  let ?ops = "healthd_mode_service_2_0_ops env"
  have name: "keeps (well_formed_init 0)
      (modify (\<lambda>s. if gInstanceName s = [] then s\<lparr>gInstanceName := ''default''\<rparr> else s))"
    by (rule keeps_modify) (auto simp: wf_defs)
  have rest: "keeps (well_formed 3) (case ret of Inl stop \<Rightarrow> return (Some (Inl stop))
      | Inr ret \<Rightarrow>
          if ret \<noteq> 0 then return (Some (Inl (Exit 2)))
          else healthd_mainloop fuel env ?ops 0 \<bind> (\<lambda>r. return (case r of None \<Rightarrow> None
              | Some (Inl stop) \<Rightarrow> Some (Inl stop) | Some (Inr _) \<Rightarrow> Some (Inr 3))))" for ret
    by (auto intro!: keeps_rules wf_mainloop split: sum.split)
  have "hoare (well_formed_init 0) (service_main fuel env) (\<lambda>_. well_formed 3)"
    unfolding service_main_def healthd_main_def option.case
    by (rule hoare_bind [OF name [unfolded keeps_def]], rule hoare_bind [OF wf_healthd_init],
        rule rest [unfolded keeps_def])
  moreover have "well_formed_init 0 initial_state" by (simp add: wf_defs initial_state_def)
  ultimately have "well_formed 3 s" using assms by (rule hoareD)
  then show ?thesis by (auto simp: well_formed_def)
qed

theorem health_state_well_formed_witness:
  "eventct (snd (run_state (service_main 3 sample_health) initial_state)) = 3"
proof -
  have "length (filter registration (history (snd (run_state (service_main 3 sample_health) initial_state)))) = 3"
    by code_simp
  with health_state_well_formed [OF run_fst, of 3 sample_health] show ?thesis by simp
qed

end
