(* ===== verification/Health_Bounds.thy ===== *)
theory Health_Bounds
  imports Health_Types
begin

text \<open>
  The C \<open>int\<close>s of the health service. The model keeps them unbounded; here they are shown to stay within
  32 bits, so that no arithmetic of the service wraps: the registrations that \<open>eventct\<close> counts, the
  intervals, the milliseconds \<open>healthd_battery_update_internal\<close> computes, and every argument that is
  passed to the kernel.
\<close>

section \<open>Integers that occur\<close>

definition c_int :: "int \<Rightarrow> bool" where
  "c_int x \<longleftrightarrow> - (2 ^ 31) \<le> x \<and> x < 2 ^ 31"

text \<open>The \<open>int\<close>s of a call: its arguments and its result.\<close>

definition event_ints :: "health_event \<Rightarrow> int list" where
  "event_ints e =
     (case e of
        EpollCreate fd \<Rightarrow> [fd]
      | EpollAdd epfd fd _ _ _ \<Rightarrow> [epfd, fd]
      | EpollWait epfd entries maxevents timeout _ \<Rightarrow> [epfd, entries, maxevents, timeout]
      | TimerCreate fd \<Rightarrow> [fd]
      | TimerSetInterval fd interval _ \<Rightarrow> [fd, interval]
      | TimerRead fd _ \<Rightarrow> [fd]
      | UeventOpen fd \<Rightarrow> [fd]
      | SetNonblock fd \<Rightarrow> [fd]
      | UeventRecv fd n \<Rightarrow> [fd, n]
      | SetupTransportPolling fd \<Rightarrow> [fd]
      | HandleTransportPoll fd _ \<Rightarrow> [fd]
      | MonitorDump fd \<Rightarrow> [fd]
      | WriteString fd _ \<Rightarrow> [fd]
      | Fsync fd \<Rightarrow> [fd]
      | Answer (ReplyInt _ v) \<Rightarrow> [v]
      | _ \<Rightarrow> [])"

definition config_ints :: "healthd_config \<Rightarrow> int list" where
  "config_ints c = [periodic_chores_interval_fast c, periodic_chores_interval_slow c, boot_min_cap c]"

definition state_ints :: "health_state \<Rightarrow> int list" where
  "state_ints s = config_ints (healthd_config s) @
     [eventct s, epollfd s, uevent_fd s, wakealarm_fd s, awake_poll_interval s,
      wakealarm_wake_interval s, gBinderFd s]"

text \<open>What comes from outside fits: descriptors, the length of a message, the descriptors clients pass to
  \<open>debug\<close>, and what the battery monitor makes of the configuration.\<close>

definition request_ints :: "health_request \<Rightarrow> int list" where
  "request_ints r = (case r of Debug (Some fds) \<Rightarrow> fds | _ \<Rightarrow> [])"

definition c_int_env :: "health_env \<Rightarrow> bool" where
  "c_int_env env \<longleftrightarrow>
     (\<forall>tr. c_int (env_epoll_create env tr) \<and> c_int (env_timerfd_create env tr) \<and>
           c_int (env_uevent_open env tr) \<and> c_int (fst (env_uevent_recv env tr)) \<and>
           c_int (env_setup_polling env tr) \<and>
           (\<forall>r \<in> set (env_transport_poll env tr). list_all c_int (request_ints r))) \<and>
     (\<forall>c. list_all c_int (config_ints c) \<longrightarrow> list_all c_int (config_ints (env_monitor_init env c)))"

definition fits :: "int \<Rightarrow> health_state \<Rightarrow> bool" where
  "fits k s \<longleftrightarrow> 0 \<le> eventct s \<and> eventct s \<le> k \<and> k \<le> 3 \<and> awake_poll_interval s = -1 \<and>
     list_all c_int (state_ints s) \<and> list_all (\<lambda>e. list_all c_int (event_ints e)) (history s)"

section \<open>Lemmas\<close>

lemmas fits_defs = fits_def state_ints_def config_ints_def

lemma c_int_small [simp]: "c_int (- 1)" "c_int 0" "c_int 1" "c_int 60" "c_int 600"
  by (simp_all add: c_int_def)

lemma keeps_bind_value:
  "hoare I m (\<lambda>x s. I s \<and> Q x) \<Longrightarrow> (\<And>x. Q x \<Longrightarrow> keeps I (f x)) \<Longrightarrow> keeps I (m \<bind> f)"
  unfolding keeps_def by (rule hoare_bind) (fastforce simp: hoare_def split: prod.splits)+

lemma fits_gets:
  assumes "\<And>s. fits k s \<Longrightarrow> c_int (f s)" and "\<And>x. c_int x \<Longrightarrow> keeps (fits k) (g x)"
  shows "keeps (fits k) (gets f \<bind> g)"
  by (rule keeps_bind_value [of _ _ c_int]) (use assms in \<open>simp_all add: hoare_def\<close>)

lemma fits_fields:
  assumes "fits k s"
  shows "c_int (epollfd s)" "c_int (uevent_fd s)" "c_int (wakealarm_fd s)" "c_int (gBinderFd s)"
    "c_int (eventct s)" "c_int (awake_poll_interval s)" "c_int (periodic_chores_interval_fast (healthd_config s))"
  using assms by (simp_all add: fits_defs)

lemma fits_call:
  "(\<And>s. fits k s \<Longrightarrow> list_all c_int (event_ints (ev (reply (history s))))) \<Longrightarrow> keeps (fits k) (hcall reply ev)"
  by (auto intro!: keeps_hcall simp: record_event_def fits_def state_ints_def)

lemma fits_update: "keeps (fits k) (update env ops)"
  unfolding update_def
  by (intro keeps_rules keepsI)
     (auto simp: healthd_battery_update_internal_def wakealarm_set_interval_def fits_defs event_ints_def
        split: if_splits)

lemma fits_battery_update: "keeps (fits k) (healthd_battery_update env ops)"
  unfolding healthd_battery_update_def getImplementation_def by (auto intro!: keeps_rules fits_update)

lemma fits_callbacks: "keeps (fits k) (modify (\<lambda>s. s\<lparr>callbacks := f s\<rparr>))"
  by (rule keeps_modify) (simp add: fits_defs)

lemma fits_parts:
  "keeps (fits k) (current_average env)" "keeps (fits k) (unregisterCallbackInternal env cb)"
  "list_all c_int (event_ints (Answer x)) \<Longrightarrow> keeps (fits k) (answer x)"
  unfolding current_average_def unregisterCallbackInternal_def answer_def
  by (auto intro!: keeps_rules fits_call fits_callbacks simp: event_ints_def split: prod.split option.split)

lemmas battery_constants = kBatteryPropChargeCounter_def kBatteryPropCurrentNow_def
  kBatteryPropCurrentAvg_def kBatteryPropCapacity_def kBatteryPropEnergyCounter_def

lemma fits_debug:
  assumes "c_int fd"
  shows "keeps (fits k) (debug env ops (Some (fd # fds)))"
  using assms unfolding debug_def debug_lambda_def write_string_def getHealthInfo_def list.case option.case
  by (auto intro!: keeps_rules fits_call fits_parts fits_update simp: event_ints_def)

lemma fits_request:
  assumes "list_all c_int (request_ints r)"
  shows "keeps (fits k) (handle_health_request env ops r)"
proof (cases r)
  case (Debug handle)
  show ?thesis
  proof (cases handle)
    case None
    with Debug show ?thesis by (auto simp: debug_def event_ints_def intro!: keeps_rules fits_parts)
  next
    case (Some fds)
    with Debug assms show ?thesis
      by (cases fds) (auto simp: debug_def [of _ _ "Some []"] event_ints_def request_ints_def
          intro!: keeps_rules fits_parts fits_debug)
  qed
qed (auto simp: registerCallback_def unregisterCallback_def serviceDied_def getProperty_def Let_def
    getChargeCounter_def getCurrentNow_def getCurrentAverage_def getCapacity_def
    getEnergyCounter_def getChargeStatus_def getStorageInfo_def getDiskStats_def
    getHealthInfo_def battery_constants event_ints_def
    intro!: keeps_rules fits_call fits_parts fits_update fits_callbacks split: option.split)

lemma fits_requests:
  "\<forall>r \<in> set rs. list_all c_int (request_ints r) \<Longrightarrow> keeps (fits k) (handle_health_requests env ops rs)"
  by (induction rs) (auto intro!: keeps_rules fits_request)

lemma fits_handler: "c_int_env env \<Longrightarrow> keeps (fits k) (run_handler env ops h)"
proof (cases h)
  case Uevent_event
  assume env: "c_int_env env"
  have "keeps (fits k) (hcall (env_uevent_recv env) (\<lambda>(n, _). UeventRecv fd n))" if "c_int fd" for fd
    using env that by (auto intro!: fits_call simp: event_ints_def c_int_env_def case_prod_unfold)
  then have "keeps (fits k) (uevent_event env ops)"
    unfolding uevent_event_def
    by (intro fits_gets keeps_bind)
       (auto simp: fits_fields intro!: keeps_rules fits_battery_update split: option.split bool.split)
  with Uevent_event show ?thesis by simp
next
  case Wakealarm_event
  have "keeps (fits k) (wakealarm_event env ops)"
    unfolding wakealarm_event_def periodic_chores_def
    by (intro fits_gets keeps_bind)
       (auto simp: fits_fields event_ints_def intro!: keeps_if fits_call fits_battery_update)
  with Wakealarm_event show ?thesis by simp
next
  case Binder_event
  assume env: "c_int_env env"
  have "keeps (fits k) (do { requests \<leftarrow> hcall (env_transport_poll env) (HandleTransportPoll fd);
      handle_health_requests env ops requests; returnOk () })" if "c_int fd" for fd
  proof (rule keeps_bind_value [where Q = "\<lambda>rs. \<forall>r \<in> set rs. list_all c_int (request_ints r)"])
    show "hoare (fits k) (hcall (env_transport_poll env) (HandleTransportPoll fd))
        (\<lambda>rs s. fits k s \<and> (\<forall>r \<in> set rs. list_all c_int (request_ints r)))"
      using env that by (auto simp: hoare_def c_int_env_def fits_defs event_ints_def)
  qed (auto intro!: keeps_rules fits_requests)
  with Binder_event show ?thesis
    by (auto simp: binder_event_def fits_fields intro!: fits_gets keeps_if)
qed

lemma fits_dispatch: "c_int_env env \<Longrightarrow> keeps (fits k) (dispatch_events env ops es)"
  by (induction es) (auto intro!: keeps_rules fits_handler split: option.split)

lemma fits_iteration:
  assumes "c_int_env env"
  shows "keeps (fits k) (mainloop_iteration env (healthd_mode_service_2_0_ops env) n)"
  unfolding mainloop_iteration_def periodic_chores_def healthd_mode_service_2_0_ops_def
    healthd_mode_service_2_0_heartbeat_def healthd_mode_service_2_0_preparetowait_def healthd_mode_ops.simps
  by (auto intro!: fits_gets keeps_bindE keeps_if keeps_bind [of _ "return _"] keeps_bind [of _ "hcall _ _"]
      fits_call fits_battery_update fits_dispatch assms simp: fits_fields event_ints_def split: wait_result.split)

lemma fits_mainloop:
  "c_int_env env \<Longrightarrow> keeps (fits k) (healthd_mainloop fuel env (healthd_mode_service_2_0_ops env) n)"
  by (induction fuel arbitrary: n) (auto intro!: keeps_rules fits_iteration split: sum.split option.split)

text \<open>A registration raises the bound on \<open>eventct\<close> by one.\<close>

lemma fits_more: "fits k s \<Longrightarrow> k \<le> k' \<Longrightarrow> k' \<le> 3 \<Longrightarrow> fits k' s"
  by (simp add: fits_def)

lemma fits_register:
  assumes "c_int fd" and "k \<le> 2"
  shows "hoare (fits k) (healthd_register_event env fd h w) (\<lambda>_. fits (k + 1))"
proof -
  have "c_int (eventct s + 1)" if "fits k s" for s
    using that assms(2) by (simp add: fits_def c_int_def)
  with assms show ?thesis
    by (auto simp: hoare_def healthd_register_event_def fits_defs event_ints_def)
qed

lemma fits_initInstance:
  assumes "c_int_env env"
  shows "keeps (fits k) (initInstance env)"
proof -
  have "fits k (s\<lparr>healthd_config := env_monitor_init env (healthd_config s)\<rparr>)" if "fits k s" for s
    using that assms by (simp add: fits_def state_ints_def c_int_env_def)
  then show ?thesis
    unfolding initInstance_def new_Health_def
    by (intro keeps_rules fits_call) (auto simp: fits_defs healthd_board_init_def event_ints_def)
qed

lemma fits_mode_init:
  assumes env: "c_int_env env" and k: "k \<le> 2"
  shows "hoare (fits k) (healthd_mode_service_2_0_init env) (\<lambda>_. fits (k + 1))"
proof -
  have poll: "hoare (fits k) (hcall (env_setup_polling env) SetupTransportPolling) (\<lambda>fd s. fits k s \<and> c_int fd)"
    using env by (auto simp: hoare_def fits_defs event_ints_def c_int_env_def)
  have fd: "hoare (\<lambda>s. fits k s \<and> c_int fd) (modify (\<lambda>s. s\<lparr>gBinderFd := fd\<rparr>)) (\<lambda>_ s. fits k s \<and> c_int fd)" for fd
    by (auto simp: hoare_def fits_defs)
  have reg: "hoare (\<lambda>s. fits k s \<and> c_int fd)
      (if 0 \<le> fd then do {
          _ \<leftarrow> healthd_register_event env fd Binder_event EVENT_NO_WAKEUP_FD;
          return ()
        } else return ()) (\<lambda>_. fits (k + 1))" for fd
    using fits_register [of fd k env Binder_event EVENT_NO_WAKEUP_FD] fits_more [of k _ "k + 1"] k
    by (fastforce simp: hoare_def split: prod.splits)
  have rest: "keeps (fits (k + 1)) (do {
       initInstance env;
       name \<leftarrow> gets gInstanceName;
       ok \<leftarrow> hcall (env_register_service env) (RegisterAsService name);
       if ok then returnOk () else return (Inl Abort)
     })"
    by (intro keeps_rules fits_initInstance env fits_call) (simp add: event_ints_def)
  show ?thesis
    unfolding healthd_mode_service_2_0_init_def
    by (rule hoare_bind [OF poll], rule hoare_bind [OF fd], rule hoare_bind [OF reg], rule rest [unfolded keeps_def])
qed

lemma fits_set_interval: "c_int t \<Longrightarrow> keeps (fits k) (wakealarm_set_interval env t)"
  by (auto simp: keeps_def hoare_def wakealarm_set_interval_def fits_defs event_ints_def)

text \<open>A source that opens its descriptor, stores it and registers it.\<close>

lemma fits_source:
  assumes "\<And>fd. c_int fd \<Longrightarrow> hoare (fits k) (rest fd) (\<lambda>_. fits (k + 1))"
    and "\<And>tr. c_int (open_fd tr)" and "\<And>fd. event_ints (ev fd) = [fd]"
    and "\<And>fd s. fits k s \<Longrightarrow> c_int fd \<Longrightarrow> fits k (store fd s)"
  shows "hoare (fits k) (do { fd \<leftarrow> hcall open_fd ev; modify (store fd); rest fd }) (\<lambda>_. fits (k + 1))"
proof (rule hoare_bind [where R = "\<lambda>fd s. fits k s \<and> c_int fd"])
  show "hoare (fits k) (hcall open_fd ev) (\<lambda>fd s. fits k s \<and> c_int fd)"
    using assms(2,3) by (auto simp: hoare_def fits_defs)
  fix fd
  show "hoare (\<lambda>s. fits k s \<and> c_int fd) (do { modify (store fd); rest fd }) (\<lambda>_. fits (k + 1))"
  proof (cases "c_int fd")
    case True
    then show ?thesis
      by (intro hoare_bind [where R = "\<lambda>_. fits k"] assms(1)) (auto simp: hoare_def assms(4))
  qed (simp add: hoare_def)
qed

lemma fits_wakealarm_init:
  assumes "c_int_env env" and "k \<le> 2"
  shows "hoare (fits k) (wakealarm_init env) (\<lambda>_. fits (k + 1))"
  unfolding wakealarm_init_def
proof (rule fits_source)
  fix fd :: int assume fd: "c_int fd"
  have "keeps (fits (k + 1)) (do {
      fast \<leftarrow> gets (\<lambda>s. periodic_chores_interval_fast (healthd_config s));
      wakealarm_set_interval env fast })"
    by (intro fits_gets fits_set_interval) (auto simp: fits_fields)
  then have "hoare (fits k) (do {
      _ \<leftarrow> healthd_register_event env fd Wakealarm_event EVENT_WAKEUP_FD;
      fast \<leftarrow> gets (\<lambda>s. periodic_chores_interval_fast (healthd_config s));
      wakealarm_set_interval env fast }) (\<lambda>_. fits (k + 1))"
    by (intro hoare_bind [OF fits_register [OF fd assms(2)]]) (simp add: keeps_def)
  with assms(2) show "hoare (fits k) (if fd = -1 then return () else do {
      _ \<leftarrow> healthd_register_event env fd Wakealarm_event EVENT_WAKEUP_FD;
      fast \<leftarrow> gets (\<lambda>s. periodic_chores_interval_fast (healthd_config s));
      wakealarm_set_interval env fast }) (\<lambda>_. fits (k + 1))"
    by (auto simp: hoare_def [of _ "return _"] intro: fits_more)
qed (use assms in \<open>auto simp: c_int_env_def event_ints_def fits_defs\<close>)

lemma fits_uevent_init:
  assumes "c_int_env env" and "k \<le> 2"
  shows "hoare (fits k) (uevent_init env) (\<lambda>_. fits (k + 1))"
  unfolding uevent_init_def
proof (rule fits_source)
  fix fd :: int assume fd: "c_int fd"
  have "keeps (fits k) (hcall (\<lambda>_. ()) (\<lambda>_. SetNonblock fd))"
    using fd by (auto intro!: fits_call simp: event_ints_def)
  then have "hoare (fits k) (do {
      hcall (\<lambda>_. ()) (\<lambda>_. SetNonblock fd);
      _ \<leftarrow> healthd_register_event env fd Uevent_event EVENT_WAKEUP_FD;
      return () }) (\<lambda>_. fits (k + 1))"
    by (intro hoare_bind [of "fits k" "hcall _ _" "\<lambda>_. fits k"] hoare_bind [OF fits_register [OF fd assms(2)]])
       (auto simp: keeps_def hoare_def [of _ "return _"])
  with assms(2) show "hoare (fits k) (if fd < 0 then return () else do {
      hcall (\<lambda>_. ()) (\<lambda>_. SetNonblock fd);
      _ \<leftarrow> healthd_register_event env fd Uevent_event EVENT_WAKEUP_FD;
      return () }) (\<lambda>_. fits (k + 1))"
    by (auto simp: hoare_def [of _ "return _"] intro: fits_more)
qed (use assms in \<open>auto simp: c_int_env_def event_ints_def fits_defs\<close>)

lemma fits_healthd_init:
  assumes env: "c_int_env env"
  shows "hoare (fits 0) (healthd_init env (healthd_mode_service_2_0_ops env)) (\<lambda>_. fits 3)"
proof -
  have create: "hoare (fits 0) (hcall (env_epoll_create env) EpollCreate) (\<lambda>fd s. fits 0 s \<and> c_int fd)"
    using env by (auto simp: hoare_def fits_defs event_ints_def c_int_env_def)
  have fd: "hoare (\<lambda>s. fits 0 s \<and> c_int fd) (modify (\<lambda>s. s\<lparr>epollfd := fd\<rparr>)) (\<lambda>_. fits 0)" for fd
    by (auto simp: hoare_def fits_defs)
  have sources: "hoare (fits 1) (do { wakealarm_init env; uevent_init env; returnOk 0 }) (\<lambda>_. fits 3)"
    using fits_wakealarm_init [OF env, of 1] fits_uevent_init [OF env, of 2]
    by (fastforce simp: hoare_def split: prod.splits)
  have init: "hoare (fits 0) (healthd_mode_service_2_0_init env) (\<lambda>_. fits 1)"
    using fits_mode_init [OF env, of 0] by simp
  show ?thesis
    unfolding healthd_init_def healthd_mode_service_2_0_ops_def healthd_mode_ops.simps
    by (rule hoare_bind [OF create], rule hoare_bind [OF fd])
       (auto intro!: hoare_bindE [OF init] sources intro: fits_more simp: hoare_def [of _ "return _"])
qed

section \<open>The property\<close>

text \<open>C23: No \<open>int\<close> of the health service overflows. If what the kernel, the battery monitor and the clients hand in are C \<open>int\<close>s, then at every moment of the service's life every \<open>int\<close> global holds a value of 32 bits, and so was every argument and result of every call it made: counting registrations, setting intervals and computing timeouts never wraps. So the unbounded integers of the model are the code's.\<close>

theorem health_ints_fit:
  assumes "c_int_env env" and "run_state (service_main fuel env) initial_state = (r, s)"
  shows "list_all c_int (state_ints s) \<and> list_all (\<lambda>e. list_all c_int (event_ints e)) (history s)"
proof -
  let ?ops = "healthd_mode_service_2_0_ops env"
  have name: "keeps (fits 0)
      (modify (\<lambda>s. if gInstanceName s = [] then s\<lparr>gInstanceName := ''default''\<rparr> else s))"
    by (rule keeps_modify) (auto simp: fits_defs)
  have rest: "keeps (fits 3) (case ret of Inl stop \<Rightarrow> return (Some (Inl stop))
      | Inr ret \<Rightarrow>
          if ret \<noteq> 0 then return (Some (Inl (Exit 2)))
          else healthd_mainloop fuel env ?ops 0 \<bind> (\<lambda>r. return (case r of None \<Rightarrow> None
              | Some (Inl stop) \<Rightarrow> Some (Inl stop) | Some (Inr _) \<Rightarrow> Some (Inr 3))))" for ret
    by (auto intro!: keeps_rules fits_mainloop assms(1) split: sum.split)
  have "hoare (fits 0) (service_main fuel env) (\<lambda>_. fits 3)"
    unfolding service_main_def healthd_main_def option.case
    by (rule hoare_bind [OF name [unfolded keeps_def]], rule hoare_bind [OF fits_healthd_init [OF assms(1)]],
        rule rest [unfolded keeps_def])
  moreover have "fits 0 initial_state" by (simp add: fits_defs initial_state_def initial_config_def)
  ultimately have "fits 3 s" using assms(2) by (rule hoareD)
  then show ?thesis by (simp add: fits_def)
qed

theorem health_ints_fit_witness:
  "c_int_env sample_health \<and>
   c_int (awake_poll_interval (snd (run_state (service_main 3 sample_health) initial_state)))"
proof -
  have "c_int_env sample_health"
    by (simp add: c_int_env_def sample_health_def c_int_def request_ints_def length_sample_message)
  with health_ints_fit [OF _ run_fst, of sample_health 3] show ?thesis by (simp add: state_ints_def)
qed

text \<open>The bound rests on the charger being reported online: offline, with a fast interval of a month, the
  multiplication to milliseconds leaves 32 bits.\<close>

lemma offline_interval_overflows:
  "\<not> c_int (awake_poll_interval (snd (run_state (healthd_battery_update_internal env False)
     (initial_state\<lparr>healthd_config := initial_config\<lparr>periodic_chores_interval_fast := 2592000\<rparr>\<rparr>))))"
  by (simp add: healthd_battery_update_internal_def wakealarm_set_interval_def initial_state_def
      initial_config_def c_int_def)

end
