(* ===== verification/Health_Answers.thy ===== *)
theory Health_Answers
  imports Health_Registry
begin

text \<open>
  What clients are answered. \<open>exchange\<close> specifies one request: everything the service says to its client,
  to the monitor and to the client's death registration, in order, given the callbacks registered when
  the request arrives. \<open>conversation\<close> strings exchanges together, the registered callbacks changing as the
  registry specification of Health_Registry says. Serving requests produces exactly such a conversation,
  but for the settings of the wake alarm timer.
\<close>

section \<open>Specification\<close>

text \<open>The battery every client is told of: present nowhere, yet full, good, and on AC power.\<close>

definition reported_battery :: "i32 \<Rightarrow> HealthInfo" where
  "reported_battery average =
     \<lparr>legacy = \<lparr>chargerAcOnline = True, chargerUsbOnline = False, chargerWirelessOnline = False,
        maxChargingCurrent = 0, maxChargingVoltage = 0, batteryPresent = False, batteryLevel = 100,
        batteryVoltage = 0, batteryTemperature = 0, batteryCurrent = 0, batteryCycleCount = 0,
        batteryFullCharge = 1, batteryChargeCounter = 1, batteryStatus = BatteryStatus_FULL,
        batteryHealth = BatteryHealth_GOOD, batteryTechnology = ''AC''\<rparr>,
      batteryCurrentAverage = average, diskStats = [], storageInfos = []\<rparr>"

text \<open>A reply of the monitor as a client sees it: the low 32 bits, or 0 when the monitor refuses.\<close>

definition reported_average :: "bool \<times> u64 \<Rightarrow> i32" where
  "reported_average reply = (if fst reply then ucast (snd reply) else 0)"

text \<open>Whether there is a mode with a \<open>battery_update\<close>, without which \<open>update\<close> does nothing.\<close>

definition updates :: "healthd_mode_ops option \<Rightarrow> bool" where
  "updates ops \<longleftrightarrow> (\<exists>table battery_update. ops = Some table \<and> op_battery_update table = Some battery_update)"

fun exchange ::
  "health_env \<Rightarrow> bool \<Rightarrow> health_callback list \<Rightarrow> health_request \<Rightarrow> bool \<times> u64 \<Rightarrow> health_trace" where
  "exchange env upd L (RegisterCallback None) avg = [Answer (ReplyResult SUCCESS)]"
| "exchange env upd L (RegisterCallback (Some cb)) avg =
     [LinkToDeath cb, Answer (ReplyResult (if upd then SUCCESS else UNKNOWN))]"
| "exchange env upd L (UnregisterCallback None) avg = [Answer (ReplyResult NOT_FOUND)]"
| "exchange env upd L (UnregisterCallback (Some cb)) avg =
     [UnlinkToDeath cb,
      Answer (ReplyResult (if \<exists>c\<in>set L. env_interfacesEqual env c cb then SUCCESS else NOT_FOUND))]"
| "exchange env upd L Update avg = [Answer (ReplyResult (if upd then SUCCESS else UNKNOWN))]"
| "exchange env upd L GetChargeCounter avg = [Answer (ReplyInt SUCCESS 1)]"
| "exchange env upd L GetCurrentNow avg = [Answer (ReplyInt SUCCESS 1)]"
| "exchange env upd L GetCurrentAverage avg = [Answer (ReplyInt SUCCESS 1)]"
| "exchange env upd L GetCapacity avg = [Answer (ReplyInt SUCCESS 1)]"
| "exchange env upd L GetEnergyCounter avg = [Answer (ReplyInt SUCCESS 1)]"
| "exchange env upd L GetChargeStatus avg = [Answer (ReplyStatus SUCCESS BatteryStatus_FULL)]"
| "exchange env upd L GetStorageInfo avg = [Answer (ReplyStorage NOT_SUPPORTED [])]"
| "exchange env upd L GetDiskStats avg = [Answer (ReplyDisk NOT_SUPPORTED [])]"
| "exchange env upd L GetHealthInfo avg =
     [MonitorGetCurrentAvg (fst avg) (snd avg),
      Answer (ReplyHealthInfo SUCCESS (reported_battery (reported_average avg)))]"
| "exchange env upd L (Debug (Some (fd # fds))) avg =
     [MonitorDump fd, MonitorGetCurrentAvg (fst avg) (snd avg),
      WriteString fd (CHR 0x0A # ''getHealthInfo -> ''),
      WriteString fd (env_toString env (reported_battery (reported_average avg))),
      WriteString fd [CHR 0x0A], Fsync fd, Answer ReplyVoid]"
| "exchange env upd L (Debug handle) avg = [Answer ReplyVoid]"
| "exchange env upd L (ServiceDied None) avg = []"
| "exchange env upd L (ServiceDied (Some who)) avg = [UnlinkToDeath who]"

text \<open>Requests in turn, each against the callbacks its predecessors have left, with the reply the monitor
  would give it.\<close>

fun conversation ::
  "health_env \<Rightarrow> bool \<Rightarrow> health_callback list \<Rightarrow> (health_request \<times> bool \<times> u64) list \<Rightarrow> health_trace" where
  "conversation env upd L [] = []"
| "conversation env upd L ((r, avg) # rs) =
     exchange env upd L r avg @
     conversation env upd (filter (\<lambda>c. \<not> withdraws env c r) L @ registers r) rs"

fun sets_timer :: "health_event \<Rightarrow> bool" where
  "sets_timer (TimerSetInterval _ _ _) = True"
| "sets_timer _ = False"

definition dialogue :: "health_trace \<Rightarrow> health_trace" where
  "dialogue tr = filter (\<lambda>e. \<not> sets_timer e) tr"

section \<open>Lemmas\<close>

lemma dialogue_simps [simp]: "dialogue [] = []" "dialogue (tr @ tr') = dialogue tr @ dialogue tr'"
  "dialogue (e # tr) = (if sets_timer e then dialogue tr else e # dialogue tr)"
  by (simp_all add: dialogue_def)

lemma health_info_reported: "health_info average [] [] = reported_battery average"
  by (simp add: health_info_def reported_battery_def)

text \<open>\<open>update\<close> says nothing but to the timer.\<close>

lemma update_silent:
  assumes "run_state (update env ops) s = (u, s')"
  shows "dialogue (history s') = dialogue (history s)" "callbacks s' = callbacks s"
    "u = (if updates ops then SUCCESS else UNKNOWN)"
proof -
  have "keeps (\<lambda>s'. dialogue (history s') = dialogue (history s)) (update env ops)"
    unfolding update_def healthd_battery_update_internal_def wakealarm_set_interval_def
    by (auto intro!: keeps_rules keeps_hcall simp: record_event_def)
  from keepsD [OF this refl assms] show "dialogue (history s') = dialogue (history s)" .
  from keepsD [OF update_callbacks refl assms] show "callbacks s' = callbacks s" .
  from assms show "u = (if updates ops then SUCCESS else UNKNOWN)"
    by (auto simp: update_def updates_def Option.is_none_def split: option.splits prod.splits)
qed

lemmas constant_answers = getChargeCounter_def getCurrentNow_def getCurrentAverage_def getCapacity_def
  getEnergyCounter_def getChargeStatus_def getStorageInfo_def getDiskStats_def getProperty_def
  kBatteryPropChargeCounter_def kBatteryPropCurrentNow_def kBatteryPropCurrentAvg_def
  kBatteryPropCapacity_def kBatteryPropEnergyCounter_def get_storage_info_def get_disk_stats_def

lemma exchange_GetHealthInfo:
  assumes "run_state (handle_health_request env ops GetHealthInfo) s = (u, s')"
  shows "\<exists>tr. dialogue (history s') = dialogue (history s) @ exchange env upd L GetHealthInfo (env_monitor_current_avg env tr)"
proof -
  obtain w s1 where upd: "run_state (update env ops) s = (w, s1)" by (rule run_state_obtain1)
  from assms upd update_silent [OF upd] show ?thesis
    by (intro exI [of _ "history s1"])
       (auto simp: getHealthInfo_def current_average_def answer_def get_storage_info_def
         get_disk_stats_def health_info_reported reported_average_def split: prod.splits)
qed

lemma exchange_Debug:
  assumes "run_state (handle_health_request env ops (Debug handle)) s = (u, s')"
  shows "\<exists>tr. dialogue (history s') = dialogue (history s) @ exchange env upd L (Debug handle) (env_monitor_current_avg env tr)"
proof (cases "handle = None \<or> handle = Some []")
  case True
  with assms show ?thesis by (auto simp: debug_def answer_def)
next
  case False
  then obtain fd fds where handle: "handle = Some (fd # fds)" by (cases handle; cases "the handle") auto
  let ?s = "s\<lparr>history := history s @ [MonitorDump fd]\<rparr>"
  obtain w s1 where upd: "run_state (update env ops) ?s = (w, s1)" by (rule run_state_obtain1)
  from assms handle upd update_silent [OF upd] show ?thesis
    by (intro exI [of _ "history s1"])
       (auto simp: debug_def debug_lambda_def write_string_def getHealthInfo_def current_average_def
         answer_def get_storage_info_def get_disk_stats_def health_info_reported reported_average_def
         split: prod.splits)
qed

lemma exchange_request:
  assumes "run_state (handle_health_request env ops r) s = (u, s')"
  shows "\<exists>tr. dialogue (history s') = dialogue (history s) @
    exchange env (updates ops) (callbacks s) r (env_monitor_current_avg env tr)"
proof (cases r)
  case (RegisterCallback cb)
  show ?thesis
  proof (cases cb)
    case None
    with RegisterCallback assms show ?thesis by (auto simp: registerCallback_def answer_def)
  next
    case (Some c)
    obtain w s1 where upd: "run_state (update env ops)
        (s\<lparr>callbacks := callbacks s @ [c], history := history s @ [LinkToDeath c]\<rparr>) = (w, s1)"
      by (rule run_state_obtain1)
    from assms RegisterCallback Some upd update_silent [OF upd] show ?thesis
      by (auto simp: registerCallback_def answer_def)
  qed
next
  case (UnregisterCallback cb)
  with assms show ?thesis
    by (cases cb) (auto simp: unregisterCallback_def unregisterCallbackInternal_def unregister_loop_filter
        answer_def)
next
  case Update
  obtain w s1 where upd: "run_state (update env ops) s = (w, s1)" by (rule run_state_obtain1)
  from assms Update upd update_silent [OF upd] show ?thesis by (auto simp: answer_def)
next
  case GetHealthInfo
  from exchange_GetHealthInfo [OF assms [unfolded this]] GetHealthInfo show ?thesis by simp
next
  case (Debug handle)
  from exchange_Debug [OF assms [unfolded this]] Debug show ?thesis by simp
next
  case (ServiceDied who)
  with assms show ?thesis
    by (cases who) (auto simp: serviceDied_def unregisterCallbackInternal_def unregister_loop_filter)
qed (use assms in \<open>auto simp: constant_answers answer_def\<close>)

section \<open>The property\<close>

text \<open>C26: Every request that arrives over HIDL is answered exactly once, in order, and exactly as its method says, against the callbacks registered at that moment. Registering and \<open>update\<close> succeed exactly if there is a mode that updates the battery (or the callback is null); unregistering succeeds exactly if an equal interface is registered; the properties are the constants of a full battery, storage and disk statistics are \<open>NOT_SUPPORTED\<close>; the health information asks the monitor for the current average once and carries its low 32 bits, or 0 if it refuses; a debug request with a descriptor dumps the monitor to it, writes the same information and flushes; a death notice is not answered. Apart from the alarm timer nothing else is called.\<close>

theorem requests_answered_in_order:
  assumes "run_state (handle_health_requests env ops rs) s = (u, s')"
  shows "\<exists>trs. length trs = length rs \<and>
    dialogue (history s') = dialogue (history s) @
      conversation env (updates ops) (callbacks s) (zip rs (map (env_monitor_current_avg env) trs))"
  using assms
proof (induction rs arbitrary: s)
  case Nil
  then show ?case by simp
next
  case (Cons r rs)
  obtain v s1 where one: "run_state (handle_health_request env ops r) s = (v, s1)"
    by (rule run_state_obtain1)
  with Cons.prems have "run_state (handle_health_requests env ops rs) s1 = (u, s')" by simp
  from Cons.IH [OF this] obtain trs where "length trs = length rs"
    "dialogue (history s') = dialogue (history s1) @
       conversation env (updates ops) (callbacks s1) (zip rs (map (env_monitor_current_avg env) trs))"
    by blast
  moreover obtain tr where "dialogue (history s1) = dialogue (history s) @
      exchange env (updates ops) (callbacks s) r (env_monitor_current_avg env tr)"
    using exchange_request [OF one] by blast
  ultimately show ?case
    using callbacks_request [OF one] by (intro exI [of _ "tr # trs"]) simp
qed

theorem requests_answered_in_order_witness:
  "dialogue (history (snd (run_state (handle_health_requests sample_health None
     [RegisterCallback (Some 3), UnregisterCallback (Some 3), UnregisterCallback (Some 3), GetHealthInfo])
     initial_state))) =
   [LinkToDeath 3, Answer (ReplyResult UNKNOWN), UnlinkToDeath 3, Answer (ReplyResult SUCCESS),
    UnlinkToDeath 3, Answer (ReplyResult NOT_FOUND), MonitorGetCurrentAvg True (2 ^ 32 + 5),
    Answer (ReplyHealthInfo SUCCESS (reported_battery 5))]"
proof -
  let ?rs = "[RegisterCallback (Some 3), UnregisterCallback (Some 3), UnregisterCallback (Some 3), GetHealthInfo]"
  have avg: "env_monitor_current_avg sample_health = (\<lambda>_. (True, 2 ^ 32 + 5))"
    by (simp add: sample_health_def)
  have five: "reported_average (True, 2 ^ 32 + 5) = 5" by code_simp
  have start: "updates None = False" "callbacks initial_state = []" "dialogue (history initial_state) = []"
    by (simp_all add: updates_def initial_state_def)
  obtain trs where trs: "length trs = length ?rs"
    "dialogue (history (snd (run_state (handle_health_requests sample_health None ?rs) initial_state))) =
       conversation sample_health False [] (zip ?rs (map (env_monitor_current_avg sample_health) trs))"
    using requests_answered_in_order [OF run_fst, where env = sample_health and ops = None and rs = ?rs
        and s = initial_state]
    unfolding start append_Nil by blast
  from trs(1) obtain a b c d where "trs = [a, b, c, d]" by (auto simp: length_Suc_conv)
  then have "zip ?rs (map (env_monitor_current_avg sample_health) trs) =
      map (\<lambda>r. (r, True, 2 ^ 32 + 5)) ?rs" by (simp add: avg)
  with trs(2) have "dialogue (history (snd (run_state (handle_health_requests sample_health None ?rs) initial_state))) =
      conversation sample_health False [] (map (\<lambda>r. (r, True, 2 ^ 32 + 5)) ?rs)" by (simp only:)
  also have "\<dots> = [LinkToDeath 3, Answer (ReplyResult UNKNOWN), UnlinkToDeath 3, Answer (ReplyResult SUCCESS),
      UnlinkToDeath 3, Answer (ReplyResult NOT_FOUND), MonitorGetCurrentAvg True (2 ^ 32 + 5),
      Answer (ReplyHealthInfo SUCCESS (reported_battery 5))]"
    using five by (simp add: sample_health_def)
  finally show ?thesis .
qed

end
