(* ===== verification/Service_Life.thy ===== *)
theory Service_Life
  imports Health_Properties
begin

text \<open>
  The life of the health service from \<open>main\<close> on. \<open>life\<close> keeps the events that mark it: the epoll
  descriptor, the registration with the service manager, the waits, and calls to listeners. What they are
  is shown for every environment; the environment is assumed to deliver uevents as documented only where
  the service would otherwise read outside its buffer. The states at the head of the main loop are a
  step relation, whose invariant \<open>ready\<close> comes from Healthd_Daemon.
\<close>

section \<open>The events that mark the life of the process\<close>

fun lifecycle :: "health_event \<Rightarrow> bool" where
  "lifecycle (EpollCreate _) = True"
| "lifecycle (EpollWait _ _ _ _ _) = True"
| "lifecycle (RegisterAsService _ _) = True"
| "lifecycle (HealthInfoChanged _ _ _) = True"
| "lifecycle _ = False"

definition life :: "health_trace \<Rightarrow> health_trace" where
  "life tr = filter lifecycle tr"

text \<open>A wait that failed for good: the loop leaves at it.\<close>

fun fails :: "health_event \<Rightarrow> bool" where
  "fails (EpollWait _ _ _ _ r) = (r = WaitError False)"
| "fails _ = False"

text \<open>How the main loop ends after the waits \<open>ws\<close>, within its fuel: still running, left at the last wait, which
  failed, or stopped by a handler.\<close>

definition loop_end :: "nat \<Rightarrow> (stop + unit) option \<Rightarrow> health_trace \<Rightarrow> bool" where
  "loop_end fuel r ws \<longleftrightarrow> list_all is_wait ws \<and> length ws \<le> fuel \<and>
     (case r of
        None \<Rightarrow> length ws = fuel \<and> list_all (\<lambda>w. \<not> fails w) ws
      | Some (Inr _) \<Rightarrow> ws \<noteq> [] \<and> fails (last ws) \<and> list_all (\<lambda>w. \<not> fails w) (butlast ws)
      | Some (Inl _) \<Rightarrow> list_all (\<lambda>w. \<not> fails w) ws)"

section \<open>The life, whatever the environment does\<close>

lemma life_simps [simp]: "life [] = []" "life (tr @ tr') = life tr @ life tr'"
  "life (e # tr) = (if lifecycle e then e # life tr else life tr)"
  by (simp_all add: life_def)

lemma in_life: "e \<in> set (life tr) \<longleftrightarrow> lifecycle e \<and> e \<in> set tr"
  by (auto simp: life_def)

lemma quiet_no_lifecycle: "quiet e \<Longrightarrow> \<not> lifecycle e"
  by (cases e) auto

interpretation living: handler_frame env "\<lambda>s. life (history s) = L" for env L
proof unfold_locales
  show "keeps (\<lambda>s. life (history s) = L) (healthd_battery_update_internal env True)"
    by (rule keepsI) (auto simp: healthd_battery_update_internal_def wakealarm_set_interval_def split: if_splits)
qed (auto simp: record_event_def dest: quiet_no_lifecycle)

lemma life_of_dispatch:
  assumes "run_state (dispatch_events env op es) s = (r, s')"
  shows "life (history s') = life (history s)"
  using keepsD [OF living.dispatch_frame refl assms] .

lemma after_wait_life:
  assumes "run_state (after_wait env op w) s = (x, s')"
  shows "life (history s') = life (history s) \<and> (x = Inr None \<longleftrightarrow> w = WaitError False)"
  using assms
  by (cases w) (auto simp: after_wait_def life_of_dispatch split: prod.splits sum.splits if_splits)

text \<open>One iteration: it waits exactly once and leaves the loop exactly when that wait fails, unless the chores
  before it end the process.\<close>

lemma iteration_life:
  assumes "run_state (mainloop_iteration env (healthd_mode_service_2_0_ops env) n) s = (x, s')"
  shows "(\<exists>stop. x = Inl stop \<and> life (history s') = life (history s)) \<or>
    (\<exists>epfd k m timeout tr. let w = env_epoll_wait env tr m timeout in
       life tr = life (history s) \<and> life (history s') = life (history s) @ [EpollWait epfd k m timeout w] \<and>
       (x = Inr None \<longleftrightarrow> w = WaitError False))"
proof -
  let ?op = "healthd_mode_service_2_0_ops env"
  let ?chores = "if n = 0 then periodic_chores env (Some ?op) else returnOk ()"
  obtain r1 s1 where chores: "run_state ?chores s = (r1, s1)" by (rule run_state_obtain1)
  have 1: "life (history s1) = life (history s)"
    using chores keepsD [OF living.battery_update_frame refl]
    by (auto simp: periodic_chores_def split: if_splits)
  show ?thesis
  proof (cases r1)
    case (Inl stop)
    with assms chores have "x = Inl stop" "s' = s1" by (auto simp: mainloop_iteration_def split: if_splits)
    with 1 show ?thesis by blast
  next
    case (Inr u)
    let ?t = "if awake_poll_interval s < 0 then -1 else awake_poll_interval s"
    let ?w = "env_epoll_wait env (history s1) (eventct s1) ?t"
    let ?e = "EpollWait (epollfd s1) (eventct s) (eventct s1) ?t ?w"
    have "run_state (after_wait env ?op ?w) (record_event ?e s1) = (x, s')"
      using assms chores Inr
      by (simp add: mainloop_iteration_def after_wait_def record_event_def healthd_mode_service_2_0_ops_def
          healthd_mode_service_2_0_heartbeat_def healthd_mode_service_2_0_preparetowait_def split: if_splits)
    from after_wait_life [OF this] 1 show ?thesis
      by (auto simp: record_event_def Let_def)
  qed
qed

lemma mainloop_life:
  "run_state (healthd_mainloop fuel env (healthd_mode_service_2_0_ops env) n) s = (r, s') \<Longrightarrow>
   \<exists>ws. life (history s') = life (history s) @ ws \<and> loop_end fuel r ws"
proof (induction fuel arbitrary: n s)
  case 0
  then show ?case by (simp add: loop_end_def)
next
  case (Suc fuel)
  obtain x s1 where iter: "run_state (mainloop_iteration env (healthd_mode_service_2_0_ops env) n) s = (x, s1)"
    by (rule run_state_obtain1)
  from iteration_life [OF iter] consider
      (stop) stop where "x = Inl stop" "life (history s1) = life (history s)"
    | (wait) w where "is_wait w" "life (history s1) = life (history s) @ [w]" "x = Inr None \<longleftrightarrow> fails w"
    by (force simp: Let_def)
  then show ?case
  proof cases
    case stop
    with Suc.prems iter show ?thesis by (intro exI [of _ "[]"]) (auto simp: loop_end_def)
  next
    case wait
    show ?thesis
    proof (cases "\<exists>n'. x = Inr (Some n')")
      case True
      with Suc.prems iter obtain n' where
        "run_state (healthd_mainloop fuel env (healthd_mode_service_2_0_ops env) n') s1 = (r, s')" by auto
      from Suc.IH [OF this] obtain ws where
        "life (history s') = life (history s1) @ ws" "loop_end fuel r ws" by blast
      with wait True show ?thesis
        by (intro exI [of _ "w # ws"]) (auto simp: loop_end_def split: option.splits sum.splits)
    next
      case False
      with wait Suc.prems iter show ?thesis
        by (intro exI [of _ "[w]"])
           (auto simp: loop_end_def split: sum.splits option.splits)
    qed
  qed
qed

text \<open>Initialisation.\<close>

lemma mode_init_life:
  "hoare (\<lambda>s. life (history s) = L \<and> gInstanceName s = ''default'')
     (op_init (healthd_mode_service_2_0_ops env))
     (\<lambda>r s. r = Inr () \<and> life (history s) = L @ [RegisterAsService ''default'' True] \<or>
        r = Inl Abort \<and> life (history s) = L @ [RegisterAsService ''default'' False] \<and>
        (\<exists>h. history s = h @ [RegisterAsService ''default'' False]))"
  by (auto simp: hoare_def healthd_mode_service_2_0_ops_def healthd_mode_service_2_0_init_def
      healthd_register_event_def initInstance_def new_Health_def)

lemma register_life: "keeps (\<lambda>s. life (history s) = L) (healthd_register_event env fd h w)"
  by (rule register_event_hoare) simp

lemma alarm_uevent_life:
  "keeps (\<lambda>s. life (history s) = L) (wakealarm_init env)" "keeps (\<lambda>s. life (history s) = L) (uevent_init env)"
  unfolding wakealarm_init_def uevent_init_def wakealarm_set_interval_def
  by (auto intro!: keeps_rules register_life simp: record_event_def)

lemma init_life:
  assumes "run_state (healthd_init env (healthd_mode_service_2_0_ops env))
      (initial_state\<lparr>gInstanceName := ''default''\<rparr>) = (r, s)"
  defines "fd \<equiv> env_epoll_create env []"
  shows "if fd = -1 then r = Inr (-1) \<and> history s = [EpollCreate (-1)]
    else r = Inr 0 \<and> life (history s) = [EpollCreate fd, RegisterAsService ''default'' True] \<or>
      r = Inl Abort \<and> life (history s) = [EpollCreate fd, RegisterAsService ''default'' False] \<and>
      (\<exists>h. history s = h @ [RegisterAsService ''default'' False])"
proof (cases "fd = -1")
  case True
  with assms show ?thesis by (auto simp: healthd_init_def initial_state_def)
next
  case False
  let ?op = "healthd_mode_service_2_0_ops env"
  let ?s = "initial_state\<lparr>gInstanceName := ''default'', history := [EpollCreate fd], epollfd := fd\<rparr>"
  obtain ri s2 where init: "run_state (op_init ?op) ?s = (ri, s2)" by (rule run_state_obtain1)
  obtain u s3 where wake: "run_state (wakealarm_init env) s2 = (u, s3)" by (rule run_state_obtain1)
  obtain v s4 where ue: "run_state (uevent_init env) s3 = (v, s4)" by (rule run_state_obtain1)
  have eq: "(r, s) = (case ri of Inl x \<Rightarrow> (Inl x, s2) | Inr _ \<Rightarrow> (Inr 0, s4))"
    using assms False init wake ue by (auto simp: healthd_init_def initial_state_def split: sum.splits)
  have "life (history ?s) = [EpollCreate fd] \<and> gInstanceName ?s = ''default''" by simp
  from hoareD [OF mode_init_life this init] show ?thesis
  proof (elim disjE conjE)
    assume "ri = Inr ()" "life (history s2) = [EpollCreate fd] @ [RegisterAsService ''default'' True]"
    with keepsD [OF alarm_uevent_life(2) keepsD [OF alarm_uevent_life(1) _ wake] ue] eq False
    show ?thesis by simp
  qed (use eq False in auto)
qed

text \<open>The whole life: nothing, a refused registration, or a registration and then the waits of the loop.\<close>

lemma service_main_life:
  assumes "run_state (service_main fuel env) initial_state = (r, s)"
  defines "fd \<equiv> env_epoll_create env []"
  shows "if fd = -1 then r = Some (Inl (Exit 2)) \<and> history s = [EpollCreate (-1)]
    else r = Some (Inl Abort) \<and> life (history s) = [EpollCreate fd, RegisterAsService ''default'' False] \<and>
        (\<exists>h. history s = h @ [RegisterAsService ''default'' False]) \<or>
      (\<exists>r' ws. r = map_option (map_sum id (\<lambda>_. 3)) r' \<and> loop_end fuel r' ws \<and>
        life (history s) = EpollCreate fd # RegisterAsService ''default'' True # ws)"
proof -
  let ?op = "healthd_mode_service_2_0_ops env" and ?s0 = "initial_state\<lparr>gInstanceName := ''default''\<rparr>"
  have main: "run_state (healthd_main fuel env (Some ?op)) ?s0 = (r, s)"
    using assms by (simp add: service_main_def initial_state_def)
  obtain ret s1 where init: "run_state (healthd_init env ?op) ?s0 = (ret, s1)" by (rule run_state_obtain1)
  obtain r2 s2 where loop: "run_state (healthd_mainloop fuel env ?op 0) s1 = (r2, s2)"
    by (rule run_state_obtain1)
  note start = init_life [OF init, folded fd_def]
  show ?thesis
  proof (cases "ret = Inr 0")
    case True
    with main init loop have "s = s2" "r = map_option (map_sum id (\<lambda>_. 3)) r2"
      by (auto simp: healthd_main_def split: option.split sum.split)
    with mainloop_life [OF loop] start True show ?thesis by (auto split: if_splits)
  next
    case False
    with start main init show ?thesis by (auto simp: healthd_main_def split: if_splits)
  qed
qed

section \<open>How the service ends\<close>

lemma service_main_run:
  assumes "recv_documented env" and "run_state (service_main fuel env) initial_state = (r, s)"
  shows "r = Some (Inl (Exit 2)) \<and> history s = [EpollCreate (-1)] \<or>
     r = Some (Inl Abort) \<and> last (history s) = RegisterAsService ''default'' False \<or>
     ready env s \<and> (r = None \<or> r = Some (Inr 3))"
proof -
  let ?op = "healthd_mode_service_2_0_ops env" and ?s0 = "initial_state\<lparr>gInstanceName := ''default''\<rparr>"
  have main: "run_state (healthd_main fuel env (Some ?op)) ?s0 = (r, s)"
    using assms(2) by (simp add: service_main_def initial_state_def)
  obtain ret s1 where init: "run_state (healthd_init env ?op) ?s0 = (ret, s1)" by (rule run_state_obtain1)
  obtain r2 s2 where loop: "run_state (healthd_mainloop fuel env ?op 0) s1 = (r2, s2)"
    by (rule run_state_obtain1)
  from hoareD [OF healthd_init_ready refl init]
  consider "ret = Inr (-1)" "history s1 = [EpollCreate (-1)]"
    | "ret = Inl Abort" "last (history s1) = RegisterAsService ''default'' False"
    | "ret = Inr 0" "ready env s1" by blast
  then show ?thesis
  proof cases
    case 3
    from hoareD [OF service.mainloop_ok [OF assms(1)] 3(2) loop] main init loop 3
    show ?thesis by (auto simp: healthd_main_def)
  qed (use main init in \<open>auto simp: healthd_main_def\<close>)
qed

text \<open>C4: How the service can end, however long it has run and whatever the kernel, the battery monitor and the clients do; of the environment only the documented bound of \<open>recv\<close> is assumed. It exits with 2, having done nothing else, exactly if there is no epoll descriptor. Otherwise it registers itself once, under \<open>default\<close>; it aborts exactly if that is refused, there and then. Once registered it has the instance the handlers need and waits once per iteration; it is still running as long as no wait has failed for good, and returns 3 at the first one that does. It never exits with 1, no \<open>CHECK\<close> fails later and no handler reads outside its buffer.\<close>

theorem service_main_outcomes:
  assumes "recv_documented env" and "run_state (service_main fuel env) initial_state = (r, s)"
  shows "if env_epoll_create env [] = -1 then r = Some (Inl (Exit 2)) \<and> history s = [EpollCreate (-1)]
    else
      r = Some (Inl Abort) \<and> last (history s) = RegisterAsService ''default'' False \<and>
        life (history s) = [EpollCreate (env_epoll_create env []), RegisterAsService ''default'' False] \<or>
      (\<exists>ws. hal_instance s \<and> list_all is_wait ws \<and>
         life (history s) =
           [EpollCreate (env_epoll_create env []), RegisterAsService ''default'' True] @ ws \<and>
         (r = None \<and> length ws = fuel \<and> list_all (\<lambda>w. \<not> fails w) ws \<or>
          r = Some (Inr 3) \<and> ws \<noteq> [] \<and> fails (last ws) \<and> list_all (\<lambda>w. \<not> fails w) (butlast ws)))"
proof (cases "env_epoll_create env [] = -1")
  case True
  with service_main_life [OF assms(2)] show ?thesis by simp
next
  case False
  from service_main_run [OF assms]
  have run: "history s = [EpollCreate (-1)] \<or> r = Some (Inl Abort) \<and> last (history s) = RegisterAsService ''default'' False \<or>
      hal_instance s \<and> (r = None \<or> r = Some (Inr 3))"
    by (auto simp: ready_def)
  from service_main_life [OF assms(2)] False consider
      (refused) h where "r = Some (Inl Abort)" "history s = h @ [RegisterAsService ''default'' False]"
        "life (history s) = [EpollCreate (env_epoll_create env []), RegisterAsService ''default'' False]"
    | (served) r' ws where "r = map_option (map_sum id (\<lambda>_. 3)) r'" "loop_end fuel r' ws"
        "life (history s) = EpollCreate (env_epoll_create env []) # RegisterAsService ''default'' True # ws"
    by auto
  then show ?thesis
  proof cases
    case refused
    with False show ?thesis by simp
  next
    case served
    have "r' \<noteq> Some (Inl stop)" for stop
    proof
      assume "r' = Some (Inl stop)"
      with served run have "last (history s) = RegisterAsService ''default'' False"
        "RegisterAsService ''default'' False \<notin> set (life (history s))" "history s \<noteq> []"
        by (auto simp: loop_end_def list_all_iff)
      then show False by (metis in_life last_in_set lifecycle.simps(3))
    qed
    then consider "r' = None" | "r' = Some (Inr ())" by (cases r') (auto, metis (full_types) obj_sumE old.unit.exhaust)
    then show ?thesis
      by cases (use served run False in \<open>auto simp: loop_end_def\<close>)
  qed
qed

text \<open>C34: Listeners are never told anything. However long the service runs and whatever the environment does, no registered callback ever receives \<open>healthInfoChanged\<close>: \<open>notifyListeners\<close> is reached only through \<open>battery_update\<close>, and nothing calls that.\<close>

theorem service_never_notifies_listeners:
  assumes "run_state (service_main fuel env) initial_state = (r, s)"
  shows "HealthInfoChanged cb info t \<notin> set (history s)"
proof -
  have "HealthInfoChanged cb info t \<notin> set (life (history s))"
    using service_main_life [OF assms] by (auto simp: loop_end_def list_all_iff dest!: bspec split: if_splits)
  then show ?thesis by (simp add: in_life)
qed

text \<open>C20: The daemon's use of epoll and of the wake alarm, at every point of its life after initialisation: descriptors are registered with, and waited for at, the epoll descriptor it created; the array given to \<open>epoll_wait\<close> always has exactly the number of entries it announces, one per registered descriptor; it always waits without timeout and never polls while awake. The alarm, if there is one, is armed exactly once, with the fast interval that \<open>BatteryMonitor::init\<close> has left in the configuration, or disarmed if that is -1; without an alarm the interval keeps its initial 60 seconds.\<close>

theorem service_main_epoll_discipline:
  assumes "recv_documented env" and "run_state (service_main fuel env) initial_state = (r, s)"
    and "r = None \<or> r = Some (Inr 3)"
  defines "fast \<equiv> periodic_chores_interval_fast (env_monitor_init env initial_config)"
  shows "epoll_use (history s) = Some (epollfd s, eventct s) \<and>
     (\<forall>epfd n m timeout w. EpollWait epfd n m timeout w \<in> set (history s) \<longrightarrow> timeout = -1) \<and>
     timer_settings (history s) =
       (if wakealarm_fd s = -1 then [] else [(wakealarm_fd s, if fast = -1 then 0 else fast)]) \<and>
     wakealarm_wake_interval s = (if wakealarm_fd s = -1 then 60 else fast) \<and> awake_poll_interval s = -1"
  using service_main_run [OF assms(1,2)] assms(3)
  by (auto simp: fast_def fast_interval_def healthd_board_init_def ready_def steady_def list_all_iff)

section \<open>When the service returns\<close>

lemma waits_life: "waits tr = length (filter is_wait (life tr))"
proof -
  have "is_wait e \<Longrightarrow> lifecycle e" for e by (cases e) auto
  then show ?thesis by (auto simp: waits_def life_def intro!: arg_cong [where f = length] filter_cong)
qed

text \<open>One unfolding of the loop, with the wait it makes after \<open>k\<close> others.\<close>

lemma mainloop_step:
  assumes "waits (history s) = k"
    and "run_state (healthd_mainloop (Suc fuel) env (healthd_mode_service_2_0_ops env) n) s = (r, s')"
  obtains (stops) stop where "r = Some (Inl stop)" "waits (history s') \<le> Suc k"
  | (leaves) tr m timeout where "waits tr = k" "env_epoll_wait env tr m timeout = WaitError False"
      "r = Some (Inr ())" "waits (history s') = Suc k"
  | (goes_on) tr m timeout n' s1 where "waits tr = k" "env_epoll_wait env tr m timeout \<noteq> WaitError False"
      "waits (history s1) = Suc k"
      "run_state (healthd_mainloop fuel env (healthd_mode_service_2_0_ops env) n') s1 = (r, s')"
proof -
  let ?op = "healthd_mode_service_2_0_ops env"
  obtain x s1 where iter: "run_state (mainloop_iteration env ?op n) s = (x, s1)" by (rule run_state_obtain1)
  note run = assms(2) [unfolded healthd_mainloop.simps run_state_bind iter prod.case]
  from iteration_life [OF iter] consider
      (stop) stop where "x = Inl stop" "life (history s1) = life (history s)"
    | (wait) epfd j m timeout tr where "life tr = life (history s)"
        "life (history s1) = life (history s) @ [EpollWait epfd j m timeout (env_epoll_wait env tr m timeout)]"
        "x = Inr None \<longleftrightarrow> env_epoll_wait env tr m timeout = WaitError False"
    by (auto simp: Let_def)
  then show thesis
  proof cases
    case stop
    with run assms(1) show thesis by (intro stops) (auto simp: waits_life)
  next
    case wait
    have k: "waits tr = k" "waits (history s1) = Suc k" using wait assms(1) by (simp_all add: waits_life)
    show thesis
    proof (cases x)
      case (Inl stop)
      with run k show thesis by (intro stops) auto
    next
      case (Inr y)
      with run k wait(3) leaves goes_on show thesis by (cases y) auto
    qed
  qed
qed

lemma mainloop_returns:
  assumes "\<And>tr m timeout. N \<le> waits tr \<Longrightarrow> env_epoll_wait env tr m timeout = WaitError False"
  shows "waits (history s) = k \<Longrightarrow> k \<le> N \<Longrightarrow> N < k + fuel \<Longrightarrow>
    run_state (healthd_mainloop fuel env (healthd_mode_service_2_0_ops env) n) s = (r, s') \<Longrightarrow>
    r \<noteq> None \<and> waits (history s') \<le> Suc N"
proof (induction fuel arbitrary: s n k)
  case 0
  then show ?case by simp
next
  case (Suc fuel)
  from Suc.prems(1,4) show ?case
  proof (cases rule: mainloop_step)
    case (goes_on tr m timeout n' s1)
    with assms have "\<not> N \<le> k" by blast
    with Suc.IH [OF goes_on(3) _ _ goes_on(4)] Suc.prems(3) show ?thesis by simp
  qed (use Suc.prems(2) in auto)
qed

lemma mainloop_runs_on:
  assumes "\<And>tr m timeout. env_epoll_wait env tr m timeout \<noteq> WaitError False"
  shows "run_state (healthd_mainloop fuel env (healthd_mode_service_2_0_ops env) n) s = (r, s') \<Longrightarrow>
    r \<noteq> Some (Inr ())"
proof (induction fuel arbitrary: s n)
  case 0
  then show ?case by simp
next
  case (Suc fuel)
  from refl Suc.prems show ?case
  proof (cases rule: mainloop_step)
    case (goes_on tr m timeout n' s1)
    from Suc.IH [OF goes_on(4)] show ?thesis .
  qed (use assms in auto)
qed

lemma service_main_loop:
  assumes "run_state (service_main fuel env) initial_state = (r, s)"
  obtains (ended) stop where "r = Some (Inl stop)" "waits (history s) = 0"
  | (loops) r' s1 where "waits (history s1) = 0" "r = map_option (map_sum id (\<lambda>_. 3)) r'"
      "run_state (healthd_mainloop fuel env (healthd_mode_service_2_0_ops env) 0) s1 = (r', s)"
proof -
  let ?op = "healthd_mode_service_2_0_ops env" and ?s0 = "initial_state\<lparr>gInstanceName := ''default''\<rparr>"
  have main: "run_state (healthd_main fuel env (Some ?op)) ?s0 = (r, s)"
    using assms by (simp add: service_main_def initial_state_def)
  obtain ret s1 where init: "run_state (healthd_init env ?op) ?s0 = (ret, s1)" by (rule run_state_obtain1)
  have idle: "waits (history s1) = 0"
    using init_life [OF init] by (auto simp: waits_life split: if_splits)
  obtain r2 s2 where loop: "run_state (healthd_mainloop fuel env ?op 0) s1 = (r2, s2)"
    by (rule run_state_obtain1)
  show thesis
  proof (cases "ret = Inr 0")
    case True
    with main init loop have "s = s2" "r = map_option (map_sum id (\<lambda>_. 3)) r2"
      by (auto simp: healthd_main_def split: option.split sum.split)
    with loops idle loop show thesis by blast
  next
    case False
    with main init idle ended show thesis by (auto simp: healthd_main_def split: sum.splits)
  qed
qed

text \<open>C25: The service does return when it should, whatever else the environment does. If after some number \<open>N\<close> of waits \<open>epoll_wait\<close> fails for good, with another error than \<open>EINTR\<close>, then with fuel for \<open>N + 1\<close> iterations the service has ended, after at most \<open>N + 1\<close> waits.\<close>

theorem service_main_returns:
  assumes "\<And>tr maxevents timeout. N \<le> waits tr \<Longrightarrow> env_epoll_wait env tr maxevents timeout = WaitError False"
    and "N < fuel"
  shows "\<exists>r s. run_state (service_main fuel env) initial_state = (Some r, s) \<and> waits (history s) \<le> N + 1"
proof -
  obtain r s where run: "run_state (service_main fuel env) initial_state = (r, s)"
    by (rule run_state_obtain1)
  then have "r \<noteq> None \<and> waits (history s) \<le> Suc N"
  proof (cases rule: service_main_loop)
    case (loops r' s1)
    from mainloop_returns [OF assms(1) loops(1) _ _ loops(3), of N] assms(2) loops(2) show ?thesis by simp
  qed auto
  with run show ?thesis by (cases r) auto
qed

text \<open>The service does not return before. As long as \<open>epoll_wait\<close> delivers events or is interrupted, it never leaves its loop.\<close>

theorem service_main_runs_on:
  assumes "\<And>tr maxevents timeout. env_epoll_wait env tr maxevents timeout \<noteq> WaitError False"
    and "run_state (service_main fuel env) initial_state = (r, s)"
  shows "r \<noteq> Some (Inr 3)"
  using assms(2)
proof (cases rule: service_main_loop)
  case (loops r' s1)
  with mainloop_runs_on [OF assms(1) loops(3)] show ?thesis by (cases r'; cases "the r'") auto
qed auto

section \<open>The daemon as a state machine\<close>

text \<open>C10: Progress of the daemon as a state machine. From every state its main loop can reach, whatever the monitor and the kernel do, the next iteration either leads to another such state, or leaves the loop, and it leaves the loop only when the wait has just failed for good: no handler, request or chore blocks it, ends it or aborts it.\<close>

theorem daemon_progress:
  assumes "recv_documented env" and "reachable env n s"
  shows "(\<exists>n' s'. run_state (mainloop_iteration env (healthd_mode_service_2_0_ops env) n) s = (Inr (Some n'), s') \<and>
            reachable env n' s') \<or>
         (\<exists>s' h timeout. run_state (mainloop_iteration env (healthd_mode_service_2_0_ops env) n) s = (Inr None, s') \<and>
            history s' = h @ [EpollWait (epollfd s') (eventct s') (eventct s') timeout (WaitError False)])"
proof -
  let ?ops = "healthd_mode_service_2_0_ops env"
  have "ready env s" by (rule reachable_ready [OF assms])
  with service.iteration_shape [OF assms(1), of s n] obtain s1 w where
    I: "ready env (record_event (wait_event env s1 w) s1)" and
    iter: "run_state (mainloop_iteration env ?ops n) s =
      run_state (after_wait env ?ops (env_epoll_wait env (history s1) (eventct s1) w))
        (record_event (wait_event env s1 w) s1)"
    by auto
  let ?r = "env_epoll_wait env (history s1) (eventct s1) w"
  obtain x s2 where aw: "run_state (after_wait env ?ops ?r) (record_event (wait_event env s1 w) s1) = (x, s2)"
    by (rule run_state_obtain1)
  from hoareD [OF service.after_wait_ok [OF assms(1)] I aw] obtain y where
    y: "x = Inr y" "y = None \<longleftrightarrow> ?r = WaitError False" by auto
  show ?thesis
  proof (cases y)
    case None
    with y have r: "?r = WaitError False" by simp
    with aw have "x = Inr None" "s2 = record_event (wait_event env s1 w) s1"
      by (simp_all add: after_wait_stops)
    with iter aw r show ?thesis by (simp add: record_event_def wait_event_def)
  next
    case (Some n')
    with iter aw y have "run_state (mainloop_iteration env ?ops n) s = (Inr (Some n'), s2)" by simp
    with reachable.iterate [OF assms(2) this] show ?thesis by blast
  qed
qed

text \<open>A service that is still running is in such a state.\<close>

lemma service_main_reachable:
  assumes "run_state (service_main fuel env) initial_state = (None, s)"
  shows "\<exists>n. reachable env n s"
proof -
  let ?ops = "healthd_mode_service_2_0_ops env" and ?s0 = "initial_state\<lparr>gInstanceName := ''default''\<rparr>"
  obtain ret s1 where init: "run_state (healthd_init env ?ops) ?s0 = (ret, s1)" by (rule run_state_obtain1)
  obtain r2 s2 where loop: "run_state (healthd_mainloop fuel env ?ops 0) s1 = (r2, s2)"
    by (rule run_state_obtain1)
  have "run_state (healthd_main fuel env (Some ?ops)) ?s0 = (None, s)"
    using assms by (simp add: service_main_def initial_state_def)
  with init loop have "ret = Inr 0" "r2 = None" "s2 = s"
    by (auto simp: healthd_main_def split: sum.splits if_splits option.splits)
  with mainloop_reachable [OF reachable.start] init loop show ?thesis by blast
qed

section \<open>Closed instances\<close>

lemma sample_service_run:
  "fst (run_state (service_main 3 sample_health) initial_state) = Some (Inr 3)"
  by code_simp

theorem service_main_outcomes_witness:
  "hal_instance (snd (run_state (service_main 3 sample_health) initial_state)) \<and>
   fails (last (life (history (snd (run_state (service_main 3 sample_health) initial_state)))))"
proof -
  have "env_epoll_create sample_health [] \<noteq> -1" by (simp add: sample_health_def)
  with service_main_outcomes [OF sample_health_documented run_fst, of 3] sample_service_run
  show ?thesis by auto
qed

text \<open>A device without a battery: \<open>BatteryMonitor::init\<close> switches the periodic chores off.\<close>

definition sample_no_battery :: health_env where
  "sample_no_battery = sample_health\<lparr>env_monitor_init :=
     \<lambda>c. c\<lparr>periodic_chores_interval_fast := -1, periodic_chores_interval_slow := -1\<rparr>\<rparr>"

theorem service_main_epoll_discipline_witness:
  "timer_settings (history (snd (run_state (service_main 3 sample_no_battery) initial_state))) = [(6, 0)] \<and>
   timer_settings (history (snd (run_state (service_main 3 sample_health) initial_state))) = [(6, 60)]"
proof -
  have doc: "recv_documented sample_no_battery"
    using sample_health_documented by (simp add: sample_no_battery_def recv_documented_def)
  have "fst (run_state (service_main 3 sample_no_battery) initial_state) = Some (Inr 3)"
    "wakealarm_fd (snd (run_state (service_main 3 sample_no_battery) initial_state)) = 6"
    "wakealarm_fd (snd (run_state (service_main 3 sample_health) initial_state)) = 6"
    by code_simp+
  with service_main_epoll_discipline [OF doc run_fst, of 3]
    service_main_epoll_discipline [OF sample_health_documented run_fst, of 3] sample_service_run
  show ?thesis by (simp add: sample_no_battery_def sample_health_def initial_config_def)
qed

theorem service_never_notifies_listeners_witness:
  "\<forall>info. HealthInfoChanged 1 info Tx_ok \<notin> set (history (snd (run_state (service_main 3 sample_health) initial_state)))"
  using service_never_notifies_listeners [OF run_fst, of 1 _ Tx_ok 3 sample_health] by blast

theorem service_main_returns_witness:
  "\<exists>r. fst (run_state (service_main 3 sample_health) initial_state) = Some r"
proof -
  have "env_epoll_wait sample_health tr maxevents timeout = WaitError False" if "2 \<le> waits tr"
    for tr maxevents timeout using that by (simp add: sample_health_def)
  from service_main_returns [of 2 sample_health 3, OF this] show ?thesis by force
qed

theorem service_main_runs_on_witness:
  "fst (run_state (service_main 9 (sample_health\<lparr>env_epoll_wait := \<lambda>_ _ _. WaitError True\<rparr>)) initial_state) \<noteq> Some (Inr 3)"
  using service_main_runs_on [OF _ run_fst, of "sample_health\<lparr>env_epoll_wait := \<lambda>_ _ _. WaitError True\<rparr>" 9] by simp

lemma sample_reachable: "\<exists>s. reachable sample_health 0 s"
proof -
  have "fst (run_state (healthd_init sample_health (healthd_mode_service_2_0_ops sample_health))
      (initial_state\<lparr>gInstanceName := ''default''\<rparr>)) = Inr 0"
    by code_simp
  then obtain s where "run_state (healthd_init sample_health (healthd_mode_service_2_0_ops sample_health))
      (initial_state\<lparr>gInstanceName := ''default''\<rparr>) = (Inr 0, s)"
    by (metis run_fst)
  from reachable.start [OF this] show ?thesis by blast
qed

theorem daemon_progress_witness:
  "\<exists>s x s'. reachable sample_health 0 s \<and>
     run_state (mainloop_iteration sample_health (healthd_mode_service_2_0_ops sample_health) 0) s = (Inr x, s')"
  using sample_reachable daemon_progress [OF sample_health_documented] by meson

end
