(* ===== verification/Img_Handle.thy ===== *)
theory Img_Handle
  imports Prelude "HOL-Library.Signed_Division"
begin

text \<open>
  img_gralloc1_public.h: the buffer handle shared with the vendor's gralloc and the constants that go
  with it. \<open>IMG_native_handle_t\<close> is a packed struct laid over a \<open>native_handle_t\<close>, whose payload is
  an array of \<open>int\<close>s: the file descriptors, then \<open>IMG_NATIVE_HANDLE_NUMINTS\<close> others. \<open>img_payload\<close> is
  that layout (little endian, 32-bit \<open>int\<close>, 64-bit \<open>long long\<close>).
\<close>

section \<open>Sizes and alignment\<close>

definition MAX_SUB_ALLOCS :: nat where
  "MAX_SUB_ALLOCS = 3"

definition sizeof_int :: nat where "sizeof_int = 4"
definition sizeof_ulonglong :: nat where "sizeof_ulonglong = 8"

definition IMG_NATIVE_HANDLE_NUMFDS :: nat where
  "IMG_NATIVE_HANDLE_NUMFDS = MAX_SUB_ALLOCS"

definition IMG_NATIVE_HANDLE_NUMINTS :: nat where
  "IMG_NATIVE_HANDLE_NUMINTS =
     sizeof_ulonglong div sizeof_int + 7 + MAX_SUB_ALLOCS + MAX_SUB_ALLOCS +
     sizeof_ulonglong div sizeof_int * MAX_SUB_ALLOCS + 2"

definition ALIGN :: "int \<Rightarrow> int \<Rightarrow> int" where
  "ALIGN x a = ((x + a - 1) sdiv a) * a"

definition HW_ALIGN :: int where
  "HW_ALIGN = 64"

section \<open>Pixel formats and flags\<close>

definition HAL_PIXEL_FORMAT_VENDOR_EXT :: "i32 \<Rightarrow> i32" where
  "HAL_PIXEL_FORMAT_VENDOR_EXT fmt = 0x100 OR (fmt AND 0xF)"

definition HAL_PIXEL_FORMATS :: "(string \<times> i32) list" where
  "HAL_PIXEL_FORMATS =
     [(''BGRX_8888'', HAL_PIXEL_FORMAT_VENDOR_EXT 1),
      (''sBGR_A_8888'', HAL_PIXEL_FORMAT_VENDOR_EXT 2),
      (''sBGR_X_8888'', HAL_PIXEL_FORMAT_VENDOR_EXT 3),
      (''NV12'', HAL_PIXEL_FORMAT_VENDOR_EXT 6),
      (''NV12_CUSTOM'', HAL_PIXEL_FORMAT_VENDOR_EXT 7),
      (''NV21_CUSTOM'', HAL_PIXEL_FORMAT_VENDOR_EXT 9),
      (''UYVY'', HAL_PIXEL_FORMAT_VENDOR_EXT 10)]"

definition IMG_BFF_ENCODING_MASK :: u32 where "IMG_BFF_ENCODING_MASK = push_bit 0 3"
definition IMG_BFF_ENCODING_INTERLEAVED_YUYV :: u32 where "IMG_BFF_ENCODING_INTERLEAVED_YUYV = push_bit 0 1"
definition IMG_BFF_ENCODING_INTERLEAVED_UYVY :: u32 where "IMG_BFF_ENCODING_INTERLEAVED_UYVY = push_bit 0 3"
definition IMG_BFF_ENCODING_VUCrCb :: u32 where "IMG_BFF_ENCODING_VUCrCb = push_bit 0 1"
definition IMG_BFF_ENCODING_UVCbCr :: u32 where "IMG_BFF_ENCODING_UVCbCr = push_bit 0 3"
definition IMG_BFF_CPU_CLEAR :: u32 where "IMG_BFF_CPU_CLEAR = push_bit 2 1"
definition IMG_BFF_DONT_GPU_CLEAR :: u32 where "IMG_BFF_DONT_GPU_CLEAR = push_bit 3 1"
definition IMG_BFF_PARTIAL_ALLOC :: u32 where "IMG_BFF_PARTIAL_ALLOC = push_bit 4 1"
definition IMG_BFF_NEVER_COMPRESS :: u32 where "IMG_BFF_NEVER_COMPRESS = push_bit 5 1"
definition IMG_BFF_BIFTILED :: u32 where "IMG_BFF_BIFTILED = push_bit 6 1"
definition IMG_BFF_YUV_SUBSAMPLING_MASK :: u32 where "IMG_BFF_YUV_SUBSAMPLING_MASK = push_bit 7 3"
definition IMG_BFF_YUV_SUBSAMPLING_4_2_0 :: u32 where "IMG_BFF_YUV_SUBSAMPLING_4_2_0 = push_bit 7 0"
definition IMG_BFF_YUV_SUBSAMPLING_4_2_2 :: u32 where "IMG_BFF_YUV_SUBSAMPLING_4_2_2 = push_bit 7 2"
definition IMG_BFF_YUV_SUBSAMPLING_4_4_4 :: u32 where "IMG_BFF_YUV_SUBSAMPLING_4_4_4 = push_bit 7 3"

text \<open>The fields of \<open>uiFlags\<close>.\<close>

definition IMG_BFF_FIELDS :: "u32 list" where
  "IMG_BFF_FIELDS = [IMG_BFF_ENCODING_MASK, IMG_BFF_CPU_CLEAR, IMG_BFF_DONT_GPU_CLEAR,
     IMG_BFF_PARTIAL_ALLOC, IMG_BFF_NEVER_COMPRESS, IMG_BFF_BIFTILED, IMG_BFF_YUV_SUBSAMPLING_MASK]"

section \<open>The handle\<close>

record IMG_native_handle_t =
  img_fd :: "i32 list"
  ui64Stamp :: u64
  usage :: i32
  iWidth :: i32
  iHeight :: i32
  iFormat :: i32
  uiBpp :: u32
  iPlanes :: i32
  aiStride :: "i32 list"
  aiVStride :: "i32 list"
  aulPlaneOffset :: "u64 list"
  iNumSubAllocs :: i32
  iLayers :: i32
  iPrivUsage :: i32

definition img_handle_ok :: "IMG_native_handle_t \<Rightarrow> bool" where
  "img_handle_ok h \<longleftrightarrow>
     length (img_fd h) = IMG_NATIVE_HANDLE_NUMFDS \<and> length (aiStride h) = MAX_SUB_ALLOCS \<and>
     length (aiVStride h) = MAX_SUB_ALLOCS \<and> length (aulPlaneOffset h) = MAX_SUB_ALLOCS"

definition ints_of_u64 :: "u64 \<Rightarrow> i32 list" where
  "ints_of_u64 x = [ucast x, ucast (drop_bit 32 x)]"

definition img_payload :: "IMG_native_handle_t \<Rightarrow> i32 list" where
  "img_payload h =
     img_fd h @ ints_of_u64 (ui64Stamp h) @
     [usage h, iWidth h, iHeight h, iFormat h, uiBpp h, iPlanes h] @
     aiStride h @ aiVStride h @ concat (map ints_of_u64 (aulPlaneOffset h)) @
     [iNumSubAllocs h, iLayers h, iPrivUsage h]"

section \<open>Lemmas\<close>

lemma length3: "length xs = 3 \<longleftrightarrow> (\<exists>a b c. xs = [a, b, c])"
  by (auto simp: numeral_3_eq_3 length_Suc_conv)

lemmas img_sizes = IMG_NATIVE_HANDLE_NUMFDS_def IMG_NATIVE_HANDLE_NUMINTS_def MAX_SUB_ALLOCS_def
  sizeof_int_def sizeof_ulonglong_def

section \<open>Properties\<close>

text \<open>The declared size of the handle is right: for every handle the fields after the descriptors take exactly \<open>IMG_NATIVE_HANDLE_NUMINTS\<close> ints, 23, and the descriptors come first. (The sum in the macro does not follow the order of the fields, as its comment asks: it counts seven ints before the strides and two at the end, where there are six and three.)\<close>

theorem img_numints_matches_layout:
  assumes "img_handle_ok h"
  shows "length (img_payload h) = IMG_NATIVE_HANDLE_NUMFDS + IMG_NATIVE_HANDLE_NUMINTS \<and>
         take IMG_NATIVE_HANDLE_NUMFDS (img_payload h) = img_fd h \<and> IMG_NATIVE_HANDLE_NUMINTS = 23"
  using assms by (auto simp: img_handle_ok_def img_payload_def img_sizes length3 ints_of_u64_def)

definition sample_img :: IMG_native_handle_t where
  "sample_img =
     \<lparr>img_fd = [10, 11, 12], ui64Stamp = 0x123456789abcdef0, usage = 0x333, iWidth = 64, iHeight = 32,
      iFormat = 1, uiBpp = 32, iPlanes = 1, aiStride = [64, 0, 0], aiVStride = [32, 0, 0],
      aulPlaneOffset = [0, 0x100000001, 2], iNumSubAllocs = 1, iLayers = 1, iPrivUsage = 0\<rparr>"

lemma sample_img_ok: "img_handle_ok sample_img"
  by (simp add: img_handle_ok_def sample_img_def img_sizes)

theorem img_numints_matches_layout_witness: "length (img_payload sample_img) = 26"
  using img_numints_matches_layout [OF sample_img_ok] by (simp add: img_sizes)

text \<open>\<open>ALIGN\<close> rounds up to the next multiple: for non-negative sizes and a positive alignment the result is the least multiple of the alignment that is at least the size.\<close>

theorem align_least_multiple:
  assumes "0 \<le> x" "0 < a"
  shows "a dvd ALIGN x a \<and> x \<le> ALIGN x a \<and> (\<forall>y. a dvd y \<and> x \<le> y \<longrightarrow> ALIGN x a \<le> y)"
proof -
  have eq: "ALIGN x a = ((x + a - 1) div a) * a"
    using assms by (cases "x + a - 1 = 0") (simp_all add: ALIGN_def signed_divide_int_def sgn_if)
  moreover have "x \<le> ((x + a - 1) div a) * a"
    using assms by (smt (verit) div_mult_mod_eq pos_mod_bound)
  moreover have "((x + a - 1) div a) * a \<le> y" if y: "a dvd y" "x \<le> y" for y
  proof -
    obtain k where k: "y = a * k" using y(1) by blast
    have "(x + a - 1) div a \<le> (a * k + (a - 1)) div a"
      using y(2) k assms(2) by (intro zdiv_mono1) auto
    also have "\<dots> = k" using assms(2) by (simp add: div_mult_self4)
    finally show ?thesis using k assms(2) by (simp add: mult.commute mult_left_mono)
  qed
  ultimately show ?thesis by simp
qed

theorem align_least_multiple_witness: "ALIGN 65 HW_ALIGN = 128"
  using align_least_multiple [of 65 64] by (simp add: ALIGN_def HW_ALIGN_def signed_divide_int_def)

end
