(* ===== verification/Img_Formats.thy ===== *)
theory Img_Formats
  imports Img_Handle
begin

text \<open>
  img_gralloc1_public.h: the compression modes and memory layouts that share the 8-bit "vendor format"
  field with the pixel format, the buffer format list, the union of buffer handle types and the
  numbers of the IMG extensions. The header's comments say which bits each part has; that the values
  it defines keep to them is the property.
\<close>

section \<open>Compression modes and memory layouts\<close>



section \<open>Backwards compatibility\<close>

definition IMG_BFF_YUV :: u32 where "IMG_BFF_YUV = IMG_BFF_ENCODING_VUCrCb"
definition IMG_BFF_UVCbCrORDERING :: u32 where "IMG_BFF_UVCbCrORDERING = IMG_BFF_ENCODING_UVCbCr"

section \<open>The list of buffer formats\<close>

text \<open>A node, with its successor as an address (0: \<open>NULL\<close>), in a store of nodes.\<close>

type_synonym format_addr = u64

record IMG_buffer_format_public_t =
  psNext :: format_addr
  iHalPixelFormat :: i32
  iIMGPixelFormat :: i32
  szName :: string
  bf_uiBpp :: u32
  iSupportedUsage :: i32
  uiFlags :: u32

section \<open>Handles of buffers\<close>

datatype IMG_BUFFER_HANDLE_TYPE = IMG_BUFFER_HANDLE_TYPE_ION | IMG_BUFFER_HANDLE_TYPE_DMABUF

primrec buffer_handle_type_value :: "IMG_BUFFER_HANDLE_TYPE \<Rightarrow> i32" where
  "buffer_handle_type_value IMG_BUFFER_HANDLE_TYPE_ION = 0"
| "buffer_handle_type_value IMG_BUFFER_HANDLE_TYPE_DMABUF = 1"

text \<open>\<open>ion_user_handle_t\<close> is an \<open>int\<close>, so both members of the union are the same \<open>MAX_SUB_ALLOCS\<close> ints.\<close>

record IMG_buffer_handle_t =
  eType :: IMG_BUFFER_HANDLE_TYPE
  bh_union :: "i32 list"

definition aiIonUserHandle :: "IMG_buffer_handle_t \<Rightarrow> i32 list" where
  "aiIonUserHandle h = bh_union h"

definition aiDmaBufShareFd :: "IMG_buffer_handle_t \<Rightarrow> i32 list" where
  "aiDmaBufShareFd h = bh_union h"

section \<open>Numbers of the extensions\<close>


section \<open>Lemmas\<close>


section \<open>Properties\<close>



end
