(* ===== verification/Spec2Isabelle.thy ===== *)
theory Spec2Isabelle
  imports Alloc_Refinement Descriptor_Threads Dispatch_Threads Gralloc1_Descriptors Health_Updates Health_Bounds
    Health_Types Health_Answers Service_Life Img_Formats
begin

text \<open>
  Verification of the xenvm Android device: the graphics allocator HAL (hals/allocator), the health
  HAL (health), and the vendor buffer handle (hals/hwc/include).

  \<^bold>\<open>The program.\<close> The allocator service fetches an implementation once: \<open>GrallocLoader\<close> finds the vendor
  gralloc module, picks \<open>Gralloc1HalImpl\<close> or \<open>Gralloc0HalImpl\<close> by the major version of its API, opens
  the device and wraps the back end in an \<open>AllocatorImpl\<close>, which answers the requests of clients from a pool
  of four threads. The health service is a single-threaded daemon: \<open>healthd_main\<close> sets up epoll, the binder
  transport, a wake alarm and a uevent socket, then dispatches events for ever; requests of clients
  arrive through the binder handler and are methods of the \<open>Health\<close> object.

  \<^bold>\<open>The boundary.\<close> Whatever is not in the repository (vendor device, kernel, libhealthd, libhidl) is a
  parameter: for every call a function from everything called before to the answer, so that it may
  have any internal state. Each call and each answer is appended to a trace. Properties of protocols
  (who owns a buffer, which descriptor is live, whether a device is open, how epoll is used) are
  monitors that read the trace and refuse a violation. Documented behaviour of outside code is a
  hypothesis named in the theorem, never built into a definition. Uninitialised locals are parameters
  too, so that reading one would be seen.

  \<^bold>\<open>Theories.\<close>
  \<^item> \<open>Prelude\<close>: words, the effect type \<open>state\<close> with \<open>call\<close>, \<open>bindE\<close>, \<open>hoare\<close> and \<open>keeps\<close>, monitors, C strings
    and \<open>std::vector\<close> operations, with the rule collections \<open>emits_rules\<close> and \<open>keeps_rules\<close>.
  \<^item> \<open>Gralloc_Interface\<close>: data of the allocator HAL, its trace and monitors, \<open>AllocatorHal\<close> (AllocatorHal.h)
    and the locale \<open>allocator_hal\<close>, the contract of a back end.
  \<^item> \<open>Gralloc1_Usage\<close>: \<open>toError\<close>, \<open>toProducerUsage\<close>, \<open>toConsumerUsage\<close> of Gralloc1Hal.h, over any layout of the
    flags that the headers outside the repository may define.
  \<^item> \<open>Alloc_Loop\<close>: the allocation loop both back ends share.
  \<^item> \<open>Gralloc1_Hal\<close>, \<open>Gralloc0_Hal\<close>: the back ends of Gralloc1Hal.h and Gralloc0Hal.h, method by method,
    each an interpretation of \<open>allocator_hal\<close>. \<open>gralloc1_hal\<close> holds the members \<open>mDevice\<close> (as: not null),
    \<open>mCapabilities\<close> and \<open>mDispatch\<close> (the functions loaded).
  \<^item> \<open>Allocator\<close>: AllocatorImpl of Allocator.h and Allocator.cpp; its lemmas are proved once inside
    \<open>allocator_hal\<close>.
  \<^item> \<open>Gralloc_Loader\<close>: GrallocLoader.h and \<open>HIDL_FETCH_IAllocator\<close>; the loaded back end, whichever it is, again
    interprets \<open>allocator_hal\<close>.
  \<^item> \<open>Alloc_Spec\<close>: the abstract specification \<open>alloc_spec\<close> of \<open>allocateBuffers\<close> over the outcomes of single
    allocations, and how the loop and both back ends meet it; \<open>Alloc_Refinement\<close> states the refinement.
  \<^item> \<open>Thread_Pool\<close>: programs as trees of calls, pools of them (\<open>pool_step\<close>, one call of one thread), the rules
    \<open>runs_rules\<close> (a program that runs alone is an action) and \<open>ends_rules\<close>, and the locale \<open>frame_monitor\<close>,
    by which resources are accounted thread by thread.
  \<^item> \<open>Allocator_Threads\<close>: the methods of the allocator call by call (suffix \<open>_th\<close>), \<open>main\<close> of service.cpp
    (\<open>allocator_main\<close>), and that each program run alone is the action it came from.
  \<^item> \<open>Threaded_Hal\<close>: the locale \<open>threaded_hal\<close>, what a back end promises under interference, interpreted for both
    back ends and the loaded one; \<open>Allocator_Concurrency\<close>, \<open>Descriptor_Threads\<close>: the properties of the pool;
    \<open>Dispatch_Threads\<close>: no thread calls through an entry of \<open>mDispatch\<close> that was not loaded.
  \<^item> \<open>Gralloc1_Properties\<close>, \<open>Allocator_Properties\<close>, \<open>Gralloc0_Properties\<close>: the properties of the above;
    \<open>Gralloc1_Descriptors\<close>: the exact calls of an allocation around its descriptor, on every path.
  \<^item> \<open>Health_World\<close>: data, global variables (\<open>health_state\<close>) and boundary of the health service.
  \<^item> \<open>Uevent_Scan\<close>: the message scan of \<open>uevent_event\<close> on the array itself, and its specification.
  \<^item> \<open>Health_Service\<close>: Health.cpp and the interval and registration functions of healthd_common.cpp.
  \<^item> \<open>Healthd_Main\<close>: handlers, initialisation, main loop and \<open>healthd_main\<close> of healthd_common.cpp, and
    HealthServiceCommon.cpp.
  \<^item> \<open>Healthd_Daemon\<close>: the locales \<open>healthd_mode\<close> (what the daemon relies on in its mode table),
    \<open>handler_frame\<close> (what no handler changes) and \<open>healthd_daemon\<close> (an invariant of the running daemon),
    interpreted for the service's mode; the invariant \<open>ready\<close>, its establishment by \<open>healthd_init\<close>, and the
    reachable states of the main loop.
  \<^item> \<open>Health_Properties\<close>: the properties of single operations; \<open>Health_Registry\<close>: the locale
    \<open>listener_registry\<close>, interpreted for the \<open>Health\<close> object, and the refinement of the registry over the life
    of the service; \<open>Health_Answers\<close>: what clients are answered, request by request, against that registry.
  \<^item> \<open>Service_Life\<close>: how the service ends, when it returns, and its use of epoll and of the alarm;
    \<open>Health_Types\<close>: well-formedness of its globals; \<open>Health_Bounds\<close>: its \<open>int\<close>s stay within 32 bits.
  \<^item> \<open>Shared_Pool\<close>: pools of threads that share memory, with the locales \<open>thread_modular\<close> (invariants proved thread
    by thread and undisturbed by the others) and \<open>pool_measure\<close> (runs bounded by a measure).
  \<^item> \<open>Health_Mutex\<close>: the \<open>Health\<close> object used by several threads, under \<open>callbacks_lock_\<close> of Health.h: a thread is
    a program counter (\<open>health_pc\<close>), a step (\<open>thread_step\<close>) one access to shared state, and the loops over
    \<open>callbacks_\<close> run in place, by iterator, as in Health.cpp. \<open>Health_Concurrency\<close> interprets both
    locales: ownership of the lock, what each thread has served, linearizability and termination;
    \<open>Health_Alone\<close>: an undisturbed thread is the sequential function;
    \<open>Health_Updates\<close>: the race of several threads in \<open>update\<close>, and that it is benign.
  \<^item> \<open>Img_Handle\<close>, \<open>Img_Formats\<close>: img_gralloc1_public.h, the layout of \<open>IMG_native_handle_t\<close>, alignment, flags, the
    vendor format codes, the format list node, the handle union, the extension numbers.

  \<^bold>\<open>What is shown.\<close> For the allocator: no buffer is leaked, freed twice or shown to a client after its
  release, on every error path and for every device; descriptors and devices balance; no null function
  is called; requests reach the device unaltered; strides are as checked; every request is answered
  once; both back ends refine one specification. The same holds call by call for the pool: no thread disturbs
  the buffers or descriptors of another, every request is answered, and at most \<open>3n + 8\<close> calls are made for
  \<open>n\<close> buffers under any schedule. For the health service: the uevent scan stays inside its array and finds
  exactly what it looks for; the registered listeners are at every moment what the delivered requests
  determine; were the \<open>Health\<close> object used from many threads, its critical sections would still be atomic operations
  of that registry, iterators would stay valid, no call would wait for ever, and racing updates would agree on the intervals; no \<open>int\<close> overflows; intervals, epoll and alarm are used as
  intended, whatever intervals \<open>BatteryMonitor::init\<close> chooses, none on a device without a battery included;
  every request is answered once, in order, and exactly as its method says; the process exits, aborts and
  returns exactly when it should: it ends when epoll fails for good, and not before. Where the code deviates from what it means to do, a theorem says
  precisely how: a descriptor destroyed that was never created, \<open>NOT_SHARED\<close> from \<open>getStride\<close> taken for
  success, a dump length that wraps, listeners that are never notified.

  \<^bold>\<open>Loops and fuel.\<close> The loops over buffers, callbacks, requests and messages terminate and are recursive
  functions (the scan with the measure: bytes left). The main loop is \<open>while (1)\<close>: \<open>healthd_mainloop\<close> runs at most
  \<open>fuel\<close> iterations and answers \<open>None\<close> when still running; invariants hold for every fuel, and
  one theorem gives the fuel that suffices for the loop to be left. The same loop is also a step relation,
  \<open>reachable\<close>, whose invariant and progress are shown by rule induction.

  \<^bold>\<open>Threads.\<close> \<open>defaultPassthroughServiceImplementation<IAllocator>(4)\<close> serves one allocator object from four
  threads. The object and its back end are written by the loader only, so that the threads share nothing
  but the device, and a step of the pool is one call across the boundary; the device's answer may depend on
  the calls of all threads. Each thread is given an arbitrary list of requests: a client that chooses its next
  request after seeing an answer produces one of these lists.

  The health service polls binder from one thread, and \<open>service_main\<close> is sequential. The \<open>Health\<close> object guards
  its list by a mutex all the same, and \<open>Health_Mutex\<close> takes that at its word: any number of threads register, unregister,
  are told of deaths and notify, and a step is one access to the list, the mutex or the outside. Locking waits
  without order; the results hold for every schedule, so no fairness is needed. \<open>commits\<close> is a log that
  no step reads: it says which thread ran which critical section, and what the specification is stated about. What
  the mutex does not guard, the interval globals that \<open>update\<close> compares and writes, is accessed one read or write
  at a time, and calls interleave inside \<open>update\<close> too. Each such access is taken to be atomic and seen by all
  threads at once; C++ promises that for no plain \<open>int\<close>, so that \<open>Health_Updates\<close> is about the logic of the race, not
  about the memory model. The configuration is read together with \<open>wakealarm_wake_interval\<close>: no thread writes it. The reports of
  \<open>getHealthInfo\<close> and \<open>debug\<close>, which touch no shared variable, are one step. The daemon's own \<open>healthd_battery_update\<close>
  would be one more thread that calls \<open>update\<close> and sends no answer.

  \<^bold>\<open>Simplifications.\<close> Logging is left out. A call across the boundary is one event, with its answer.
  C \<open>int\<close>s of the health service are unbounded in the model, and \<open>Health_Bounds\<close> shows that none leaves 32 bits.
  The array of \<open>healthd_mainloop\<close> is variable-length; with no event source registered its length would be 0, which C
  leaves undefined; the model has an empty array then and passes 0 to \<open>epoll_wait\<close>.
  Memory never runs out: \<open>std::vector\<close> operations succeed, \<open>reserve\<close> with a client's count included.
  \<open>callbacks_\<close> and \<open>instance_\<close> are named \<open>callbacks\<close> and \<open>hal_instance\<close>.

  \<^bold>\<open>Not modelled.\<close> libhidl, libhealthd, the kernel and the vendor modules (parameters); includes, namespaces and
  forward declarations; makefiles, SELinux policy, XML and rc files, which hold no program logic.
\<close>

end
